theory Spec2Isabelle
  imports Main "HOL-Library.Word" "HOL-Library.Monad_Syntax"
begin

unbundle bit_operations_syntax

section \<open>Machine types and byte-addressed memory\<close>

text \<open>
  The shaping callbacks walk caller-owned buffers through \<^verbatim>\<open>uint8_t *\<close> pointers that are
  advanced by a byte stride and reinterpreted as pointers to 32-bit values. Memory is therefore
  modelled byte by byte; a 32-bit load or store touches the four bytes starting at its address
  (little endian, as on every Android ABI). Addresses are natural numbers.
\<close>

type_synonym addr = nat
type_synonym byte = "8 word"
type_synonym hb_codepoint_t = "32 word"
type_synonym hb_position_t = "32 word"
type_synonym FT_UInt = "32 word"
type_synonym FT_Fixed = int
type_synonym FT_Face = nat
type_synonym float32 = "32 word"

definition load32 :: "(addr \<Rightarrow> byte) \<Rightarrow> addr \<Rightarrow> 32 word" where
  "load32 m a =
     ucast (m a) OR push_bit 8 (ucast (m (a + 1))) OR
     push_bit 16 (ucast (m (a + 2))) OR push_bit 24 (ucast (m (a + 3)))"

definition store32 :: "(addr \<Rightarrow> byte) \<Rightarrow> addr \<Rightarrow> 32 word \<Rightarrow> (addr \<Rightarrow> byte)" where
  "store32 m a v =
     m(a := ucast v, a + 1 := ucast (drop_bit 8 v),
       a + 2 := ucast (drop_bit 16 v), a + 3 := ucast (drop_bit 24 v))"

definition in_slot :: "addr \<Rightarrow> addr \<Rightarrow> bool" where
  "in_slot a x = (a \<le> x \<and> x < a + 4)"

definition slots_disjoint :: "addr \<Rightarrow> addr \<Rightarrow> bool" where
  "slots_disjoint a b = (a + 4 \<le> b \<or> b + 4 \<le> a)"

section \<open>Object heaps\<close>

text \<open>
  Objects created with \<^verbatim>\<open>new\<close> live in a heap: a list whose index is the object's address
  and whose entry is \<open>None\<close> once the object has been deleted. Allocation appends, so a new
  address is never one that is or was in use. Dereferencing an address with no live
  object is undefined behaviour in the source and \<open>None\<close> in the model.
\<close>

type_synonym 'a heap = "'a option list"

definition heap_get :: "'a heap \<Rightarrow> nat \<Rightarrow> 'a option" where
  "heap_get h p = (if p < length h then h ! p else None)"

definition heap_set :: "'a heap \<Rightarrow> nat \<Rightarrow> 'a \<Rightarrow> 'a heap" where
  "heap_set h p v = h[p := Some v]"

definition heap_free :: "'a heap \<Rightarrow> nat \<Rightarrow> 'a heap" where
  "heap_free h p = h[p := None]"

definition heap_alloc :: "'a heap \<Rightarrow> 'a \<Rightarrow> 'a heap \<times> nat" where
  "heap_alloc h v = (h @ [Some v], length h)"

section \<open>The data model\<close>

text \<open>
  The native face the font engine keeps behind an \<^verbatim>\<open>FT_Face\<close> handle: the fields the
  source reads (\<^verbatim>\<open>face_index\<close>, \<^verbatim>\<open>units_per_EM\<close>), the font file it was opened from and the
  design coordinates last passed to \<^verbatim>\<open>FT_Set_Var_Design_Coordinates\<close>.
\<close>

record FT_FaceRec =
  face_index :: int
  units_per_EM :: "16 word"
  design_coords :: "FT_Fixed list"
  opened_from :: nat

record FontFile =
  ff_retainCount :: int

record RenderableFace =
  m_fontFile :: nat
  m_ftFace :: FT_Face
  m_coordinates :: "float32 list"
  m_retainCount :: int

text \<open>
  The shaping engine's objects, as far as the source sets them: a face made by
  \<^verbatim>\<open>hb_face_create_for_tables\<close> with its table callback's user data, index and units per em;
  a font with its parent (for a sub-font), its face (the table data, shared between a font
  and its sub-fonts), the object handed to the font functions and the design coordinates.
\<close>

record hb_face_t =
  hb_table_object :: nat
  hb_index :: "32 word"
  hb_upem :: "32 word"

record hb_font_t =
  hb_parent :: "nat option"
  hb_face :: nat
  hb_font_data :: "nat option"
  hb_var_coords :: "float32 list option"

record 'c ShapableFace =
  m_rootFace :: "nat option"
  m_renderableFace :: nat
  m_hbFont :: nat
  m_advanceCache :: 'c
  sf_retainCount :: int

text \<open>
  What a run does that a caller can observe besides the heaps: the global engine mutex,
  the engine calls, the cache accesses and the release of the font file.
\<close>

datatype event =
    MutexLock
  | MutexUnlock
  | Ev_FT_Get_Char_Index FT_Face "32 word"
  | Ev_FT_Get_Advance FT_Face "32 word"
  | Ev_FT_Set_Var_Design_Coordinates FT_Face "FT_Fixed list"
  | Ev_FT_Done_Face FT_Face
  | Ev_cache_get nat "16 word"
  | Ev_cache_put nat "16 word" "32 word"
  | Ev_FontFile_release nat

record 'c world =
  fontFiles :: "FontFile heap"
  ftFaces :: "FT_FaceRec heap"
  renderableFaces :: "RenderableFace heap"
  hbFaces :: "hb_face_t heap"
  hbFonts :: "hb_font_t heap"
  shapableFaces :: "'c ShapableFace heap"
  memory :: "addr \<Rightarrow> byte"
  trace :: "event list"

text \<open>
  The parts of the program the sources under study call but do not contain are parameters:
  the font engine's answers (glyph of a code point, unscaled advance of a glyph, with
  \<open>None\<close> for an error return that leaves the output argument untouched, and whether a
  face of a font file can be opened), the conversion \<^verbatim>\<open>toF16Dot16\<close> of \<^verbatim>\<open>Convert.h\<close>, and
  the \<^verbatim>\<open>AdvanceCache\<close> class (its default constructor, \<^verbatim>\<open>get\<close> and \<^verbatim>\<open>put\<close>) over any
  representation \<open>'c\<close>.
\<close>

record 'c extern =
  ft_char_index :: "FT_FaceRec \<Rightarrow> 32 word \<Rightarrow> FT_UInt"
  ft_advance :: "FT_FaceRec \<Rightarrow> FT_UInt \<Rightarrow> FT_Fixed option"
  ft_open :: "nat \<Rightarrow> int \<Rightarrow> FT_FaceRec option"
  toF16Dot16 :: "float32 \<Rightarrow> FT_Fixed"
  cache_new :: 'c
  cache_get :: "'c \<Rightarrow> 16 word \<Rightarrow> 32 word option"
  cache_put :: "'c \<Rightarrow> 16 word \<Rightarrow> 32 word \<Rightarrow> 'c"

section \<open>The global engine mutex\<close>

definition lock_step :: "bool \<Rightarrow> event \<Rightarrow> bool" where
  "lock_step held e = (if e = MutexLock then True else if e = MutexUnlock then False else held)"

definition lock_held :: "event list \<Rightarrow> bool" where
  "lock_held es = foldl lock_step False es"

text \<open>
  \<open>lock_held\<close> replays the trace. \<^verbatim>\<open>std::mutex\<close> is not recursive: locking it while it is
  held never returns, which the model gives as \<open>None\<close>, as it does for unlocking a mutex
  that is not held.
\<close>

definition log_event :: "'c world \<Rightarrow> event \<Rightarrow> 'c world" where
  "log_event w e = w\<lparr>trace := trace w @ [e]\<rparr>"

definition mutex_lock :: "'c world \<Rightarrow> 'c world option" where
  "mutex_lock w = (if lock_held (trace w) then None else Some (log_event w MutexLock))"

definition mutex_unlock :: "'c world \<Rightarrow> 'c world option" where
  "mutex_unlock w = (if lock_held (trace w) then Some (log_event w MutexUnlock) else None)"

section \<open>The font engine\<close>

text \<open>
  Each engine call dereferences the native face behind the handle (a destroyed handle is
  undefined behaviour) and is logged. \<^verbatim>\<open>FT_Get_Advance\<close> writes its output argument only
  when it succeeds; the callers initialise that argument to 0 and ignore the error code.
\<close>

definition FT_Get_Char_Index ::
  "'c extern \<Rightarrow> 'c world \<Rightarrow> FT_Face \<Rightarrow> 32 word \<Rightarrow> (FT_UInt \<times> 'c world) option" where
  "FT_Get_Char_Index X w ftFace charcode = do {
     f \<leftarrow> heap_get (ftFaces w) ftFace;
     Some (ft_char_index X f charcode, log_event w (Ev_FT_Get_Char_Index ftFace charcode))
   }"

definition FT_Get_Advance ::
  "'c extern \<Rightarrow> 'c world \<Rightarrow> FT_Face \<Rightarrow> FT_UInt \<Rightarrow> FT_Fixed \<Rightarrow> (FT_Fixed \<times> 'c world) option" where
  "FT_Get_Advance X w ftFace gindex padvance = do {
     f \<leftarrow> heap_get (ftFaces w) ftFace;
     Some (case ft_advance X f gindex of None \<Rightarrow> padvance | Some a \<Rightarrow> a,
           log_event w (Ev_FT_Get_Advance ftFace gindex))
   }"

definition FT_Set_Var_Design_Coordinates ::
  "'c world \<Rightarrow> FT_Face \<Rightarrow> FT_Fixed list \<Rightarrow> 'c world option" where
  "FT_Set_Var_Design_Coordinates w ftFace coords = do {
     f \<leftarrow> heap_get (ftFaces w) ftFace;
     Some (log_event (w\<lparr>ftFaces := heap_set (ftFaces w) ftFace (f\<lparr>design_coords := coords\<rparr>)\<rparr>)
            (Ev_FT_Set_Var_Design_Coordinates ftFace coords))
   }"

definition FT_Done_Face :: "'c world \<Rightarrow> FT_Face \<Rightarrow> 'c world option" where
  "FT_Done_Face w ftFace = do {
     f \<leftarrow> heap_get (ftFaces w) ftFace;
     Some (log_event (w\<lparr>ftFaces := heap_free (ftFaces w) ftFace\<rparr>) (Ev_FT_Done_Face ftFace))
   }"

section \<open>The font file\<close>

text \<open>
  Modelled from the spec: \<^verbatim>\<open>FontFile::retain\<close> and \<^verbatim>\<open>FontFile::release\<close> (FontFile.cpp is
  not among the sources). The font file is a shared, reference-counted resource: retain
  adds a holder, release drops one and destroys the file with its last holder.
\<close>

definition FontFile_retain :: "'c world \<Rightarrow> nat \<Rightarrow> 'c world option" where
  "FontFile_retain w fontFile = do {
     ff \<leftarrow> heap_get (fontFiles w) fontFile;
     Some (w\<lparr>fontFiles := heap_set (fontFiles w) fontFile (ff\<lparr>ff_retainCount := ff_retainCount ff + 1\<rparr>)\<rparr>)
   }"

definition FontFile_release :: "'c world \<Rightarrow> nat \<Rightarrow> 'c world option" where
  "FontFile_release w fontFile = do {
     ff \<leftarrow> heap_get (fontFiles w) fontFile;
     let w1 = log_event w (Ev_FontFile_release fontFile);
     let n = ff_retainCount ff - 1;
     Some (if n = 0
           then w1\<lparr>fontFiles := heap_free (fontFiles w1) fontFile\<rparr>
           else w1\<lparr>fontFiles := heap_set (fontFiles w1) fontFile (ff\<lparr>ff_retainCount := n\<rparr>)\<rparr>)
   }"

section \<open>RenderableFace\<close>

text \<open>The private constructor: retains the font file, stores the handle, count 1.\<close>

definition RenderableFace_new :: "'c world \<Rightarrow> nat \<Rightarrow> FT_Face \<Rightarrow> (nat \<times> 'c world) option" where
  "RenderableFace_new w fontFile ftFace = do {
     w1 \<leftarrow> FontFile_retain w fontFile;
     let (h, this) = heap_alloc (renderableFaces w1)
           \<lparr>m_fontFile = fontFile, m_ftFace = ftFace, m_coordinates = [], m_retainCount = 1\<rparr>;
     Some (this, w1\<lparr>renderableFaces := h\<rparr>)
   }"

text \<open>
  \<^verbatim>\<open>RenderableFace::create\<close>. The handle argument is a nullable pointer: \<open>None\<close> is
  \<^verbatim>\<open>nullptr\<close>, and so is the result.
\<close>

definition RenderableFace_create ::
  "'c world \<Rightarrow> nat \<Rightarrow> FT_Face option \<Rightarrow> (nat option \<times> 'c world) option" where
  "RenderableFace_create w fontFile ftFace =
     (case ftFace of
        None \<Rightarrow> Some (None, w)
      | Some handle \<Rightarrow> do {
          (this, w1) \<leftarrow> RenderableFace_new w fontFile handle;
          Some (Some this, w1)
        })"

text \<open>
  \<^verbatim>\<open>RenderableFace::setupCoordinates\<close>; the pair \<^verbatim>\<open>(coordArray, coordCount)\<close> is a list.
\<close>

definition RenderableFace_setupCoordinates ::
  "'c extern \<Rightarrow> 'c world \<Rightarrow> nat \<Rightarrow> float32 list \<Rightarrow> 'c world option" where
  "RenderableFace_setupCoordinates X w this coordArray = do {
     self \<leftarrow> heap_get (renderableFaces w) this;
     let w1 = w\<lparr>renderableFaces :=
                 heap_set (renderableFaces w) this (self\<lparr>m_coordinates := coordArray\<rparr>)\<rparr>;
     let fixedCoords = map (toF16Dot16 X) coordArray;
     FT_Set_Var_Design_Coordinates w1 (m_ftFace self) fixedCoords
   }"

text \<open>
  The destructor \<^verbatim>\<open>RenderableFace::~RenderableFace\<close>, and \<^verbatim>\<open>release\<close>, whose
  \<^verbatim>\<open>delete this\<close> runs the destructor and then frees the object.
\<close>

definition RenderableFace_destructor :: "'c world \<Rightarrow> nat \<Rightarrow> 'c world option" where
  "RenderableFace_destructor w this = do {
     self \<leftarrow> heap_get (renderableFaces w) this;
     w1 \<leftarrow> mutex_lock w;
     w2 \<leftarrow> FT_Done_Face w1 (m_ftFace self);
     w3 \<leftarrow> mutex_unlock w2;
     FontFile_release w3 (m_fontFile self)
   }"

definition RenderableFace_retain :: "'c world \<Rightarrow> nat \<Rightarrow> 'c world option" where
  "RenderableFace_retain w this = do {
     self \<leftarrow> heap_get (renderableFaces w) this;
     Some (w\<lparr>renderableFaces :=
              heap_set (renderableFaces w) this (self\<lparr>m_retainCount := m_retainCount self + 1\<rparr>)\<rparr>)
   }"

definition RenderableFace_release :: "'c world \<Rightarrow> nat \<Rightarrow> 'c world option" where
  "RenderableFace_release w this = do {
     self \<leftarrow> heap_get (renderableFaces w) this;
     let n = m_retainCount self - 1;
     let w1 = w\<lparr>renderableFaces :=
                 heap_set (renderableFaces w) this (self\<lparr>m_retainCount := n\<rparr>)\<rparr>;
     if n = 0 then do {
       w2 \<leftarrow> RenderableFace_destructor w1 this;
       Some (w2\<lparr>renderableFaces := heap_free (renderableFaces w2) this\<rparr>)
     } else Some w1
   }"

text \<open>
  Modelled from the spec: \<^verbatim>\<open>FontFile::createRenderableFace\<close> (FontFile.cpp is not among
  the sources). It opens a native handle for the given face index within the font file and
  wraps it with \<^verbatim>\<open>RenderableFace::create\<close>; when the engine cannot open the face the
  handle is null and so is the result.
\<close>

definition FontFile_createRenderableFace ::
  "'c extern \<Rightarrow> 'c world \<Rightarrow> nat \<Rightarrow> int \<Rightarrow> (nat option \<times> 'c world) option" where
  "FontFile_createRenderableFace X w fontFile faceIndex = do {
     ff \<leftarrow> heap_get (fontFiles w) fontFile;
     (case ft_open X fontFile faceIndex of
        None \<Rightarrow> RenderableFace_create w fontFile None
      | Some f \<Rightarrow>
          let (h, handle) = heap_alloc (ftFaces w) f
          in RenderableFace_create (w\<lparr>ftFaces := h\<rparr>) fontFile (Some handle))
   }"

text \<open>\<^verbatim>\<open>RenderableFace::deriveVariation\<close>.\<close>

definition RenderableFace_deriveVariation ::
  "'c extern \<Rightarrow> 'c world \<Rightarrow> nat \<Rightarrow> float32 list \<Rightarrow> (nat option \<times> 'c world) option" where
  "RenderableFace_deriveVariation X w this coordArray = do {
     self \<leftarrow> heap_get (renderableFaces w) this;
     f \<leftarrow> heap_get (ftFaces w) (m_ftFace self);
     (derivedFace, w1) \<leftarrow> FontFile_createRenderableFace X w (m_fontFile self) (face_index f);
     (case derivedFace of
        None \<Rightarrow> Some (None, w1)
      | Some d \<Rightarrow> do {
          w2 \<leftarrow> RenderableFace_setupCoordinates X w1 d coordArray;
          Some (Some d, w2)
        })
   }"

text \<open>
  Modelled from the spec: \<^verbatim>\<open>RenderableFace::lock\<close> and \<^verbatim>\<open>unlock\<close> (defined in
  RenderableFace.h, which is not among the sources): the scoped acquisition of the single
  global engine-wide lock. \<^verbatim>\<open>FaceLock\<close> is \<^verbatim>\<open>std::lock_guard\<close> over them: it locks where it
  is declared and unlocks when the callback returns.
\<close>

definition RenderableFace_lock :: "'c world \<Rightarrow> nat \<Rightarrow> 'c world option" where
  "RenderableFace_lock w this = do {
     self \<leftarrow> heap_get (renderableFaces w) this;
     mutex_lock w
   }"

definition RenderableFace_unlock :: "'c world \<Rightarrow> nat \<Rightarrow> 'c world option" where
  "RenderableFace_unlock w this = do {
     self \<leftarrow> heap_get (renderableFaces w) this;
     mutex_unlock w
   }"

section \<open>The shaping engine's objects\<close>

text \<open>
  The shaping engine is a collaborator; these are its documented effects on the objects
  of the data model. A sub-font has the parent font as its parent and the parent's face,
  so it reads the same table data, and starts with the parent's variation coordinates.
\<close>

definition hb_font_create_sub_font :: "'c world \<Rightarrow> nat \<Rightarrow> (nat \<times> 'c world) option" where
  "hb_font_create_sub_font w parent = do {
     pf \<leftarrow> heap_get (hbFonts w) parent;
     let (h, font) = heap_alloc (hbFonts w)
           \<lparr>hb_parent = Some parent, hb_face = hb_face pf, hb_font_data = None,
            hb_var_coords = hb_var_coords pf\<rparr>;
     Some (font, w\<lparr>hbFonts := h\<rparr>)
   }"

definition hb_font_set_funcs :: "'c world \<Rightarrow> nat \<Rightarrow> nat \<Rightarrow> 'c world option" where
  "hb_font_set_funcs w font font_data = do {
     f \<leftarrow> heap_get (hbFonts w) font;
     Some (w\<lparr>hbFonts := heap_set (hbFonts w) font (f\<lparr>hb_font_data := Some font_data\<rparr>)\<rparr>)
   }"

definition hb_font_set_var_coords_design ::
  "'c world \<Rightarrow> nat \<Rightarrow> float32 list \<Rightarrow> 'c world option" where
  "hb_font_set_var_coords_design w font coords = do {
     f \<leftarrow> heap_get (hbFonts w) font;
     Some (w\<lparr>hbFonts := heap_set (hbFonts w) font (f\<lparr>hb_var_coords := Some coords\<rparr>)\<rparr>)
   }"

section \<open>ShapableFace: construction\<close>

text \<open>
  Modelled from the spec: \<^verbatim>\<open>RenderableFace::coordinates\<close> (defined in RenderableFace.h,
  which is not among the sources): the current variation coordinates, if any; an empty
  vector is the default instance and gives \<^verbatim>\<open>nullptr\<close>.
\<close>

definition RenderableFace_coordinates :: "RenderableFace \<Rightarrow> float32 list option" where
  "RenderableFace_coordinates self =
     (if m_coordinates self = [] then None else Some (m_coordinates self))"

text \<open>\<^verbatim>\<open>ShapableFace::setupCoordinates\<close>.\<close>

definition ShapableFace_setupCoordinates :: "'c world \<Rightarrow> nat \<Rightarrow> 'c world option" where
  "ShapableFace_setupCoordinates w this = do {
     self \<leftarrow> heap_get (shapableFaces w) this;
     rf \<leftarrow> heap_get (renderableFaces w) (m_renderableFace self);
     (case RenderableFace_coordinates rf of
        None \<Rightarrow> Some w
      | Some coordinates \<Rightarrow> hb_font_set_var_coords_design w (m_hbFont self) coordinates)
   }"

definition ShapableFace_retain :: "'c world \<Rightarrow> nat \<Rightarrow> 'c world option" where
  "ShapableFace_retain w this = do {
     self \<leftarrow> heap_get (shapableFaces w) this;
     Some (w\<lparr>shapableFaces :=
              heap_set (shapableFaces w) this (self\<lparr>sf_retainCount := sf_retainCount self + 1\<rparr>)\<rparr>)
   }"

text \<open>
  \<^verbatim>\<open>ShapableFace::create\<close> with the constructor \<^verbatim>\<open>ShapableFace(RenderableFace &)\<close>. The
  address \<open>this\<close> is the one \<^verbatim>\<open>new\<close> hands out; the object enters the heap with the
  members the initialiser list and the body have given it, and \<^verbatim>\<open>setupCoordinates\<close> runs
  last, as in the source. \<^verbatim>\<open>hb_face_destroy\<close> only drops the constructor's own reference
  to the face, which the font keeps alive.
\<close>

definition ShapableFace_create ::
  "'c extern \<Rightarrow> 'c world \<Rightarrow> nat \<Rightarrow> (nat \<times> 'c world) option" where
  "ShapableFace_create X w renderableFace = do {
     w1 \<leftarrow> RenderableFace_retain w renderableFace;
     rf \<leftarrow> heap_get (renderableFaces w1) renderableFace;
     f \<leftarrow> heap_get (ftFaces w1) (m_ftFace rf);
     let this = length (shapableFaces w1);
     let faceIndex = (word_of_int (face_index f) :: 32 word);
     let unitsPerEm = (ucast (units_per_EM f) :: 32 word);
     let (hfaces, hbFace) = heap_alloc (hbFaces w1)
           \<lparr>hb_table_object = this, hb_index = faceIndex, hb_upem = unitsPerEm\<rparr>;
     let (hfonts, font) = heap_alloc (hbFonts w1)
           \<lparr>hb_parent = None, hb_face = hbFace, hb_font_data = None, hb_var_coords = None\<rparr>;
     w2 \<leftarrow> hb_font_set_funcs (w1\<lparr>hbFaces := hfaces, hbFonts := hfonts\<rparr>) font this;
     let (hs, this') = heap_alloc (shapableFaces w2)
           \<lparr>m_rootFace = None, m_renderableFace = renderableFace, m_hbFont = font,
            m_advanceCache = cache_new X, sf_retainCount = 1\<rparr>;
     w3 \<leftarrow> ShapableFace_setupCoordinates (w2\<lparr>shapableFaces := hs\<rparr>) this';
     Some (this', w3)
   }"

text \<open>
  \<^verbatim>\<open>ShapableFace::deriveVariation\<close> with the constructor
  \<^verbatim>\<open>ShapableFace(ShapableFace &parent, RenderableFace &)\<close>; \<^verbatim>\<open>parent.m_rootFace ?: &parent\<close>
  is the case distinction on the parent's root.
\<close>

definition ShapableFace_deriveVariation ::
  "'c extern \<Rightarrow> 'c world \<Rightarrow> nat \<Rightarrow> nat \<Rightarrow> (nat \<times> 'c world) option" where
  "ShapableFace_deriveVariation X w parent renderableFace = do {
     w1 \<leftarrow> RenderableFace_retain w renderableFace;
     let this = length (shapableFaces w1);
     par \<leftarrow> heap_get (shapableFaces w1) parent;
     let rootFace = (case m_rootFace par of Some r \<Rightarrow> r | None \<Rightarrow> parent);
     root \<leftarrow> heap_get (shapableFaces w1) rootFace;
     let rootFont = m_hbFont root;
     (font, w2) \<leftarrow> hb_font_create_sub_font w1 rootFont;
     w3 \<leftarrow> hb_font_set_funcs w2 font this;
     w4 \<leftarrow> ShapableFace_retain w3 rootFace;
     let (hs, this') = heap_alloc (shapableFaces w4)
           \<lparr>m_rootFace = Some rootFace, m_renderableFace = renderableFace, m_hbFont = font,
            m_advanceCache = cache_new X, sf_retainCount = 1\<rparr>;
     w5 \<leftarrow> ShapableFace_setupCoordinates (w4\<lparr>shapableFaces := hs\<rparr>) this';
     Some (this', w5)
   }"

section \<open>ShapableFace: the font functions\<close>

text \<open>
  Each callback receives the \<^verbatim>\<open>ShapableFace\<close> as \<open>object\<close>. \<^verbatim>\<open>AdvanceCache::get\<close> and
  \<^verbatim>\<open>put\<close> act on the cache member of that instance.
\<close>

definition AdvanceCache_get ::
  "'c extern \<Rightarrow> 'c world \<Rightarrow> nat \<Rightarrow> 16 word \<Rightarrow> (32 word option \<times> 'c world) option" where
  "AdvanceCache_get X w object glyphID = do {
     inst \<leftarrow> heap_get (shapableFaces w) object;
     Some (cache_get X (m_advanceCache inst) glyphID, log_event w (Ev_cache_get object glyphID))
   }"

definition AdvanceCache_put ::
  "'c extern \<Rightarrow> 'c world \<Rightarrow> nat \<Rightarrow> 16 word \<Rightarrow> 32 word \<Rightarrow> 'c world option" where
  "AdvanceCache_put X w object glyphID advance = do {
     inst \<leftarrow> heap_get (shapableFaces w) object;
     Some (log_event
            (w\<lparr>shapableFaces := heap_set (shapableFaces w) object
                 (inst\<lparr>m_advanceCache := cache_put X (m_advanceCache inst) glyphID advance\<rparr>)\<rparr>)
            (Ev_cache_put object glyphID advance))
   }"

text \<open>
  The nominal-glyph callback. Its result is \<open>None\<close> for \<^verbatim>\<open>false\<close> (the output glyph is
  not written) and the glyph for \<^verbatim>\<open>true\<close>.
\<close>

definition nominal_glyph ::
  "'c extern \<Rightarrow> 'c world \<Rightarrow> nat \<Rightarrow> hb_codepoint_t \<Rightarrow> (hb_codepoint_t option \<times> 'c world) option" where
  "nominal_glyph X w object unicode = do {
     inst \<leftarrow> heap_get (shapableFaces w) object;
     let renderableFace = m_renderableFace inst;
     w1 \<leftarrow> RenderableFace_lock w renderableFace;
     rf \<leftarrow> heap_get (renderableFaces w1) renderableFace;
     let ftFace = m_ftFace rf;
     (glyphID, w2) \<leftarrow> FT_Get_Char_Index X w1 ftFace unicode;
     w3 \<leftarrow> RenderableFace_unlock w2 renderableFace;
     Some (if glyphID = 0 then None else Some glyphID, w3)
   }"

text \<open>
  The batch nominal-glyph callback. The loop counter and the strides are
  \<^verbatim>\<open>unsigned int\<close>; the counter stays below \<open>count\<close>, so it never wraps.
\<close>

function nominal_glyphs_loop ::
  "'c extern \<Rightarrow> FT_Face \<Rightarrow> nat \<Rightarrow> nat \<Rightarrow> nat \<Rightarrow> nat \<Rightarrow> addr \<Rightarrow> addr \<Rightarrow> 'c world
     \<Rightarrow> (nat \<times> 'c world) option" where
  "nominal_glyphs_loop X ftFace count unicodeStride glyphStride done unicodePtr glyphPtr w =
     (if done < count then
        (case FT_Get_Char_Index X w ftFace (load32 (memory w) unicodePtr) of
           None \<Rightarrow> None
         | Some (glyphID, w1) \<Rightarrow>
             if glyphID \<noteq> 0 then
               nominal_glyphs_loop X ftFace count unicodeStride glyphStride (done + 1)
                 (unicodePtr + unicodeStride) (glyphPtr + glyphStride)
                 (w1\<lparr>memory := store32 (memory w1) glyphPtr glyphID\<rparr>)
             else Some (done, w1))
      else Some (done, w))"
  by pat_completeness auto
termination
  by (relation "measure (\<lambda>(X, ftFace, count, us, gs, done, up, gp, w). count - done)") auto

declare nominal_glyphs_loop.simps [simp del]

definition nominal_glyphs ::
  "'c extern \<Rightarrow> 'c world \<Rightarrow> nat \<Rightarrow> nat \<Rightarrow> addr \<Rightarrow> nat \<Rightarrow> addr \<Rightarrow> nat
     \<Rightarrow> (nat \<times> 'c world) option" where
  "nominal_glyphs X w object count firstUnicode unicodeStride firstGlyph glyphStride = do {
     inst \<leftarrow> heap_get (shapableFaces w) object;
     let renderableFace = m_renderableFace inst;
     w1 \<leftarrow> RenderableFace_lock w renderableFace;
     rf \<leftarrow> heap_get (renderableFaces w1) renderableFace;
     let ftFace = m_ftFace rf;
     (done, w2) \<leftarrow> nominal_glyphs_loop X ftFace count unicodeStride glyphStride 0
                     firstUnicode firstGlyph w1;
     w3 \<leftarrow> RenderableFace_unlock w2 renderableFace;
     Some (done, w3)
   }"

text \<open>
  The single horizontal-advance callback. \<^verbatim>\<open>static_cast<uint16_t>\<close> keeps the low 16 bits
  of the glyph; the engine takes the 16-bit value widened again; \<^verbatim>\<open>FT_Fixed\<close> narrows to the
  32-bit \<^verbatim>\<open>hb_position_t\<close> on return and on insertion into the cache.
\<close>

definition glyph_h_advance ::
  "'c extern \<Rightarrow> 'c world \<Rightarrow> nat \<Rightarrow> hb_codepoint_t \<Rightarrow> (hb_position_t \<times> 'c world) option" where
  "glyph_h_advance X w object glyph = do {
     inst \<leftarrow> heap_get (shapableFaces w) object;
     let renderableFace = m_renderableFace inst;
     w1 \<leftarrow> RenderableFace_lock w renderableFace;
     rf \<leftarrow> heap_get (renderableFaces w1) renderableFace;
     let ftFace = m_ftFace rf;
     let glyphID = (ucast glyph :: 16 word);
     (hit, w2) \<leftarrow> AdvanceCache_get X w1 object glyphID;
     (case hit of
        Some glyphAdvance \<Rightarrow> do {
          w3 \<leftarrow> RenderableFace_unlock w2 renderableFace;
          Some (glyphAdvance, w3)
        }
      | None \<Rightarrow> do {
          (ftAdvance, w3) \<leftarrow> FT_Get_Advance X w2 ftFace (ucast glyphID) 0;
          w4 \<leftarrow> AdvanceCache_put X w3 object glyphID (word_of_int ftAdvance);
          w5 \<leftarrow> RenderableFace_unlock w4 renderableFace;
          Some (word_of_int ftAdvance, w5)
        })
   }"

text \<open>The batch horizontal-advance callback.\<close>

function glyph_h_advances_loop ::
  "'c extern \<Rightarrow> nat \<Rightarrow> FT_Face \<Rightarrow> nat \<Rightarrow> nat \<Rightarrow> nat \<Rightarrow> nat \<Rightarrow> addr \<Rightarrow> addr \<Rightarrow> 'c world
     \<Rightarrow> 'c world option" where
  "glyph_h_advances_loop X object ftFace count glyphStride advanceStride i glyphPtr advancePtr w =
     (if i < count then
        (case AdvanceCache_get X w object (ucast (load32 (memory w) glyphPtr)) of
           None \<Rightarrow> None
         | Some (Some glyphAdvance, w1) \<Rightarrow>
             glyph_h_advances_loop X object ftFace count glyphStride advanceStride (i + 1)
               (glyphPtr + glyphStride) (advancePtr + advanceStride)
               (w1\<lparr>memory := store32 (memory w1) advancePtr glyphAdvance\<rparr>)
         | Some (None, w1) \<Rightarrow>
             (case FT_Get_Advance X w1 ftFace
                     (ucast (ucast (load32 (memory w) glyphPtr) :: 16 word)) 0 of
                None \<Rightarrow> None
              | Some (ftAdvance, w2) \<Rightarrow>
                  (case AdvanceCache_put X
                          (w2\<lparr>memory := store32 (memory w2) advancePtr (word_of_int ftAdvance)\<rparr>)
                          object (ucast (load32 (memory w) glyphPtr)) (word_of_int ftAdvance) of
                     None \<Rightarrow> None
                   | Some w3 \<Rightarrow>
                       glyph_h_advances_loop X object ftFace count glyphStride advanceStride
                         (i + 1) (glyphPtr + glyphStride) (advancePtr + advanceStride) w3)))
      else Some w)"
  by pat_completeness auto
termination
  by (relation "measure (\<lambda>(X, object, ftFace, count, gs, as, i, gp, ap, w). count - i)") auto

declare glyph_h_advances_loop.simps [simp del]

definition glyph_h_advances ::
  "'c extern \<Rightarrow> 'c world \<Rightarrow> nat \<Rightarrow> nat \<Rightarrow> addr \<Rightarrow> nat \<Rightarrow> addr \<Rightarrow> nat \<Rightarrow> 'c world option" where
  "glyph_h_advances X w object count firstGlyph glyphStride firstAdvance advanceStride = do {
     inst \<leftarrow> heap_get (shapableFaces w) object;
     let renderableFace = m_renderableFace inst;
     w1 \<leftarrow> RenderableFace_lock w renderableFace;
     rf \<leftarrow> heap_get (renderableFaces w1) renderableFace;
     let ftFace = m_ftFace rf;
     w2 \<leftarrow> glyph_h_advances_loop X object ftFace count glyphStride advanceStride 0
               firstGlyph firstAdvance w1;
     RenderableFace_unlock w2 renderableFace
   }"

section \<open>The cache-or-query step, as the design words it\<close>

text \<open>
  The design describes the advance of one glyph as: the cached value on a cache hit,
  otherwise the engine's unscaled advance, which is then inserted into the cache.
  \<open>resolve_advance\<close> is that step on a cache value, and \<open>resolve_advances\<close> runs it over
  a sequence of glyph identifiers, each entry seeing the cache its predecessors left. They
  are written from the description, to be compared with the callbacks.
\<close>

definition resolve_advance ::
  "'c extern \<Rightarrow> FT_FaceRec \<Rightarrow> 'c \<Rightarrow> hb_codepoint_t \<Rightarrow> hb_position_t \<times> 'c" where
  "resolve_advance X f c glyph =
     (case cache_get X c (ucast glyph) of
        Some a \<Rightarrow> (a, c)
      | None \<Rightarrow>
          let a = word_of_int (case ft_advance X f (ucast (ucast glyph :: 16 word)) of
                                 None \<Rightarrow> 0 | Some v \<Rightarrow> v)
          in (a, cache_put X c (ucast glyph) a))"

fun resolve_advances ::
  "'c extern \<Rightarrow> FT_FaceRec \<Rightarrow> 'c \<Rightarrow> hb_codepoint_t list \<Rightarrow> hb_position_t list \<times> 'c" where
  "resolve_advances X f c [] = ([], c)"
| "resolve_advances X f c (g # gs) =
     (let (a, c1) = resolve_advance X f c g;
          (as, c2) = resolve_advances X f c1 gs
      in (a # as, c2))"

text \<open>
  The same step, as the events it performs: the cache lookup for the identifier truncated
  to 16 bits and, on a miss, the engine query for that truncated identifier followed by
  the insertion of its advance under the truncated identifier. \<open>resolve_all_events\<close>
  lists the events of a sequence of identifiers, each entry again seeing the cache its
  predecessors left.
\<close>

definition resolve_events ::
  "'c extern \<Rightarrow> nat \<Rightarrow> FT_Face \<Rightarrow> FT_FaceRec \<Rightarrow> 'c \<Rightarrow> hb_codepoint_t \<Rightarrow> event list" where
  "resolve_events X object ftFace f c glyph =
     (case cache_get X c (ucast glyph) of
        Some a \<Rightarrow> [Ev_cache_get object (ucast glyph)]
      | None \<Rightarrow>
          [Ev_cache_get object (ucast glyph),
           Ev_FT_Get_Advance ftFace (ucast (ucast glyph :: 16 word)),
           Ev_cache_put object (ucast glyph)
             (word_of_int (case ft_advance X f (ucast (ucast glyph :: 16 word)) of
                             None \<Rightarrow> 0 | Some v \<Rightarrow> v))])"

fun resolve_all_events ::
  "'c extern \<Rightarrow> nat \<Rightarrow> FT_Face \<Rightarrow> FT_FaceRec \<Rightarrow> 'c \<Rightarrow> hb_codepoint_t list \<Rightarrow> event list" where
  "resolve_all_events X object ftFace f c [] = []"
| "resolve_all_events X object ftFace f c (g # gs) =
     resolve_events X object ftFace f c g @
     resolve_all_events X object ftFace f (snd (resolve_advance X f c g)) gs"

section \<open>ShapableFace: destruction\<close>

text \<open>
  \<^verbatim>\<open>hb_font_destroy\<close> drops the instance's reference to its font; the model keeps one
  reference per font, so the font ends here.
\<close>

definition hb_font_destroy :: "'c world \<Rightarrow> nat \<Rightarrow> 'c world option" where
  "hb_font_destroy w font = do {
     f \<leftarrow> heap_get (hbFonts w) font;
     Some (w\<lparr>hbFonts := heap_free (hbFonts w) font\<rparr>)
   }"

text \<open>
  \<^verbatim>\<open>ShapableFace::release\<close> with the destructor it runs on \<^verbatim>\<open>delete this\<close>. The destructor
  releases the root, whose own release may run the root's destructor in turn, so the
  function is recursive; a run that does not end has no result.
\<close>

partial_function (option) ShapableFace_release :: "'c world \<Rightarrow> nat \<Rightarrow> 'c world option" where
  "ShapableFace_release w this = do {
     self \<leftarrow> heap_get (shapableFaces w) this;
     let n = sf_retainCount self - 1;
     let w1 = w\<lparr>shapableFaces :=
                 heap_set (shapableFaces w) this (self\<lparr>sf_retainCount := n\<rparr>)\<rparr>;
     if n = 0 then do {
       w2 \<leftarrow> hb_font_destroy w1 (m_hbFont self);
       w3 \<leftarrow> RenderableFace_release w2 (m_renderableFace self);
       w4 \<leftarrow> (case m_rootFace self of
                 None \<Rightarrow> Some w3
               | Some root \<Rightarrow> ShapableFace_release w3 root);
       Some (w4\<lparr>shapableFaces := heap_free (shapableFaces w4) this\<rparr>)
     } else Some w1
   }"

section \<open>Sequences of operations\<close>

text \<open>
  The operations a client of the two classes can perform on a world, and the font
  functions the shaping engine calls back. \<^verbatim>\<open>RenderableFace::setupCoordinates\<close> is not
  among them: the sources call it in one place only, on the object that
  \<^verbatim>\<open>deriveVariation\<close> has just obtained and not yet returned.
\<close>

datatype api_call =
    Call_FontFile_createRenderableFace nat int
  | Call_RenderableFace_create nat "FT_Face option"
  | Call_RenderableFace_deriveVariation nat "float32 list"
  | Call_RenderableFace_retain nat
  | Call_RenderableFace_release nat
  | Call_RenderableFace_lock nat
  | Call_RenderableFace_unlock nat
  | Call_ShapableFace_create nat
  | Call_ShapableFace_deriveVariation nat nat
  | Call_ShapableFace_retain nat
  | Call_ShapableFace_release nat
  | Call_nominal_glyph nat hb_codepoint_t
  | Call_nominal_glyphs nat nat addr nat addr nat
  | Call_glyph_h_advance nat hb_codepoint_t
  | Call_glyph_h_advances nat nat addr nat addr nat

fun api_exec :: "'c extern \<Rightarrow> 'c world \<Rightarrow> api_call \<Rightarrow> 'c world option" where
  "api_exec X w (Call_FontFile_createRenderableFace ff i) =
     map_option snd (FontFile_createRenderableFace X w ff i)"
| "api_exec X w (Call_RenderableFace_create ff h) = map_option snd (RenderableFace_create w ff h)"
| "api_exec X w (Call_RenderableFace_deriveVariation p c) =
     map_option snd (RenderableFace_deriveVariation X w p c)"
| "api_exec X w (Call_RenderableFace_retain p) = RenderableFace_retain w p"
| "api_exec X w (Call_RenderableFace_release p) = RenderableFace_release w p"
| "api_exec X w (Call_RenderableFace_lock p) = RenderableFace_lock w p"
| "api_exec X w (Call_RenderableFace_unlock p) = RenderableFace_unlock w p"
| "api_exec X w (Call_ShapableFace_create r) = map_option snd (ShapableFace_create X w r)"
| "api_exec X w (Call_ShapableFace_deriveVariation p r) =
     map_option snd (ShapableFace_deriveVariation X w p r)"
| "api_exec X w (Call_ShapableFace_retain p) = ShapableFace_retain w p"
| "api_exec X w (Call_ShapableFace_release p) = ShapableFace_release w p"
| "api_exec X w (Call_nominal_glyph obj u) = map_option snd (nominal_glyph X w obj u)"
| "api_exec X w (Call_nominal_glyphs obj n fu us fg gs) =
     map_option snd (nominal_glyphs X w obj n fu us fg gs)"
| "api_exec X w (Call_glyph_h_advance obj g) = map_option snd (glyph_h_advance X w obj g)"
| "api_exec X w (Call_glyph_h_advances obj n fg gs fa as) =
     glyph_h_advances X w obj n fg gs fa as"

fun api_run :: "'c extern \<Rightarrow> 'c world \<Rightarrow> api_call list \<Rightarrow> 'c world option" where
  "api_run X w [] = Some w"
| "api_run X w (c # cs) = (case api_exec X w c of None \<Rightarrow> None | Some w1 \<Rightarrow> api_run X w1 cs)"

text \<open>
  \<open>frame w w'\<close>: no object of the two classes that exists in \<open>w\<close> and still exists in
  \<open>w'\<close> has changed any member but its retain count and, for a ShapableFace, the contents
  of its cache; and no address has been given out twice.
\<close>

definition frame :: "'c world \<Rightarrow> 'c world \<Rightarrow> bool" where
  "frame w w' =
     (length (renderableFaces w) \<le> length (renderableFaces w') \<and>
      length (shapableFaces w) \<le> length (shapableFaces w') \<and>
      (\<forall>p a'. p < length (renderableFaces w) \<and> heap_get (renderableFaces w') p = Some a' \<longrightarrow>
         (\<exists>a. heap_get (renderableFaces w) p = Some a \<and> m_coordinates a' = m_coordinates a \<and>
              m_ftFace a' = m_ftFace a \<and> m_fontFile a' = m_fontFile a)) \<and>
      (\<forall>p a'. p < length (shapableFaces w) \<and> heap_get (shapableFaces w') p = Some a' \<longrightarrow>
         (\<exists>a. heap_get (shapableFaces w) p = Some a \<and> m_rootFace a' = m_rootFace a \<and>
              m_renderableFace a' = m_renderableFace a \<and> m_hbFont a' = m_hbFont a)))"

text \<open>\<open>frame_same\<close>: a frame step that creates no ShapableFace.\<close>

definition frame_same :: "'c world \<Rightarrow> 'c world \<Rightarrow> bool" where
  "frame_same w w' = (frame w w' \<and> length (shapableFaces w') = length (shapableFaces w))"

text \<open>
  \<open>roots_flat w\<close>: the root a live ShapableFace stores is an address that was given out
  and, when the root is alive, the root has no root of its own.
\<close>

definition roots_flat :: "'c world \<Rightarrow> bool" where
  "roots_flat w =
     (\<forall>p a r. heap_get (shapableFaces w) p = Some a \<and> m_rootFace a = Some r \<longrightarrow>
        r < length (shapableFaces w) \<and>
        (\<forall>b. heap_get (shapableFaces w) r = Some b \<longrightarrow> m_rootFace b = None))"

section \<open>An example instance\<close>

text \<open>
  A concrete engine, cache and world for running the definitions. The cache is
  direct-mapped by glyph id modulo its capacity (8 slots here), one of the policies the
  design allows. The example engine maps the code points \<open>A\<close> to \<open>Z\<close> to the glyphs 1 to 26,
  gives glyph \<open>g < 100\<close> the advance \<open>500 + g\<close> plus the first design coordinate in whole
  units, and opens face 0 of every font file. The example conversion is exact on the two
  coordinate values the runs use (the bit patterns of 400.0 and 700.0).
\<close>

type_synonym dm_cache = "nat \<Rightarrow> (16 word \<times> 32 word) option"

definition dm_new :: dm_cache where
  "dm_new = (\<lambda>slot. None)"

definition dm_get :: "dm_cache \<Rightarrow> 16 word \<Rightarrow> 32 word option" where
  "dm_get c g =
     (case c (unat g mod 8) of
        None \<Rightarrow> None
      | Some (k, v) \<Rightarrow> if k = g then Some v else None)"

definition dm_put :: "dm_cache \<Rightarrow> 16 word \<Rightarrow> 32 word \<Rightarrow> dm_cache" where
  "dm_put c g v = c(unat g mod 8 := Some (g, v))"

definition X0 :: "dm_cache extern" where
  "X0 = \<lparr>ft_char_index = (\<lambda>f u. if 65 \<le> u \<and> u \<le> 90 then u - 64 else 0),
         ft_advance = (\<lambda>f g. if g < 100
                              then Some (500 + uint g +
                                     (case design_coords f of [] \<Rightarrow> 0 | c # cs \<Rightarrow> c div 65536))
                              else None),
         ft_open = (\<lambda>fontFile faceIndex.
                      if faceIndex = 0
                      then Some \<lparr>face_index = 0, units_per_EM = 1000, design_coords = [],
                                 opened_from = fontFile\<rparr>
                      else None),
         toF16Dot16 = (\<lambda>x. if x = 0x43C80000 then 400 * 65536
                             else if x = 0x442F0000 then 700 * 65536 else 0),
         cache_new = dm_new, cache_get = dm_get, cache_put = dm_put\<rparr>"

definition face0 :: FT_FaceRec where
  "face0 = \<lparr>face_index = 0, units_per_EM = 1000, design_coords = [], opened_from = 0\<rparr>"

definition rface0 :: RenderableFace where
  "rface0 = \<lparr>m_fontFile = 0, m_ftFace = 0, m_coordinates = [], m_retainCount = 2\<rparr>"

definition cache0 :: dm_cache where
  "cache0 = dm_put (dm_put dm_new 2 502) 4 504"

definition sface0 :: "dm_cache ShapableFace" where
  "sface0 = \<lparr>m_rootFace = None, m_renderableFace = 0, m_hbFont = 0,
             m_advanceCache = cache0, sf_retainCount = 1\<rparr>"

text \<open>
  \<open>world0\<close>: one font file, one native face, one \<^verbatim>\<open>RenderableFace\<close> and the root
  \<^verbatim>\<open>ShapableFace\<close> made from it, whose cache already holds the glyphs 2 and 4.
\<close>

definition world0 :: "dm_cache world" where
  "world0 = \<lparr>fontFiles = [Some \<lparr>ff_retainCount = 2\<rparr>],
             ftFaces = [Some face0],
             renderableFaces = [Some rface0],
             hbFaces = [Some \<lparr>hb_table_object = 0, hb_index = 0, hb_upem = 1000\<rparr>],
             hbFonts = [Some \<lparr>hb_parent = None, hb_face = 0, hb_font_data = Some 0,
                              hb_var_coords = None\<rparr>],
             shapableFaces = [Some sface0],
             memory = (\<lambda>a. 0),
             trace = []\<rparr>"

text \<open>
  \<open>world1\<close>: \<open>world0\<close> with a second native face, at the design coordinate 700, and
  the RenderableFace of that variation instance.
\<close>

definition face1 :: FT_FaceRec where
  "face1 = face0\<lparr>design_coords := [700 * 65536]\<rparr>"

definition rface1 :: RenderableFace where
  "rface1 = \<lparr>m_fontFile = 0, m_ftFace = 1, m_coordinates = [0x442F0000], m_retainCount = 1\<rparr>"

definition world1 :: "dm_cache world" where
  "world1 = world0\<lparr>fontFiles := [Some \<lparr>ff_retainCount = 3\<rparr>],
                    ftFaces := [Some face0, Some face1],
                    renderableFaces := [Some rface0, Some rface1]\<rparr>"

text \<open>
  \<open>buffer5\<close>: a shaping buffer of five 20-byte records starting at address 1000, the code
  point at offset 0 and the glyph slot at offset 12 of each record. The code points are
  \<open>A\<close>, \<open>B\<close>, capital omega (which the example engine does not map), \<open>C\<close> and \<open>D\<close>; every
  glyph slot holds \<open>0xFFFFFFFF\<close>.
\<close>

definition buffer5 :: "addr \<Rightarrow> byte" where
  "buffer5 =
     store32 (store32 (store32 (store32 (store32
     (store32 (store32 (store32 (store32 (store32 (\<lambda>a. 0)
       1000 0x41) 1020 0x42) 1040 0x3A9) 1060 0x43) 1080 0x44)
       1012 0xFFFFFFFF) 1032 0xFFFFFFFF) 1052 0xFFFFFFFF) 1072 0xFFFFFFFF) 1092 0xFFFFFFFF"

text \<open>
  \<open>buffer_adv\<close>: the glyph identifiers 1 to 5, 20 bytes apart from address 2000;
  \<open>buffer_adv_hi\<close>: the same with other upper halves. The advances go to address 3000.
\<close>

definition buffer_adv :: "addr \<Rightarrow> byte" where
  "buffer_adv =
     store32 (store32 (store32 (store32 (store32 (\<lambda>a. 0)
       2000 1) 2020 2) 2040 3) 2060 4) 2080 5"

definition buffer_adv_hi :: "addr \<Rightarrow> byte" where
  "buffer_adv_hi =
     store32 (store32 (store32 (store32 (store32 (\<lambda>a. 0)
       2000 0x10001) 2020 0x20002) 2040 0x30003) 2060 0x40004) 2080 0xFFFF0005"

text \<open>\<open>world_base\<close>: the example world before any ShapableFace has been made.\<close>

definition world_base :: "dm_cache world" where
  "world_base = world0\<lparr>hbFaces := [], hbFonts := [], shapableFaces := []\<rparr>"

section \<open>Trace predicates\<close>

text \<open>
  \<open>release_outside_lock held es\<close>: replaying the events \<open>es\<close> from a state where the
  engine mutex is held or not as \<open>held\<close> says, every release of a font file happens while
  the mutex is free.
\<close>

fun release_outside_lock :: "bool \<Rightarrow> event list \<Rightarrow> bool" where
  "release_outside_lock held [] = True"
| "release_outside_lock held (e # es) =
     ((case e of Ev_FontFile_release ff \<Rightarrow> \<not> held | _ \<Rightarrow> True) \<and>
      release_outside_lock (lock_step held e) es)"

section \<open>Properties\<close>

subsection \<open>Basic facts\<close>

lemma lock_held_append: "lock_held (es @ fs) = foldl lock_step (lock_held es) fs"
  by (simp add: lock_held_def)

lemma lock_held_Nil: "lock_held [] = False"
  by (simp add: lock_held_def)

lemma heap_get_set:
  "heap_get (heap_set h p v) q = (if q = p \<and> p < length h then Some v else heap_get h q)"
  by (auto simp: heap_get_def heap_set_def)

lemma heap_get_append:
  "heap_get (h @ [Some v]) q = (if q = length h then Some v else heap_get h q)"
  by (auto simp: heap_get_def nth_append)

lemma heap_get_free:
  "heap_get (heap_free h p) q = (if q = p then None else heap_get h q)"
  by (auto simp: heap_get_def heap_free_def)

lemma heap_get_length: "heap_get h (length h) = None"
  by (simp add: heap_get_def)

lemma heap_get_Some_less: "heap_get h p = Some v \<Longrightarrow> p < length h"
  by (auto simp: heap_get_def split: if_splits)

lemma length_heap_set: "length (heap_set h p v) = length h"
  by (simp add: heap_set_def)

lemma length_heap_free: "length (heap_free h p) = length h"
  by (simp add: heap_free_def)

lemmas exec_defs =
  RenderableFace_retain_def RenderableFace_release_def RenderableFace_deriveVariation_def
  FontFile_createRenderableFace_def RenderableFace_create_def RenderableFace_new_def
  FontFile_retain_def FontFile_release_def RenderableFace_setupCoordinates_def
  RenderableFace_destructor_def RenderableFace_coordinates_def
  FT_Set_Var_Design_Coordinates_def FT_Done_Face_def FT_Get_Char_Index_def FT_Get_Advance_def
  ShapableFace_create_def ShapableFace_deriveVariation_def ShapableFace_setupCoordinates_def
  ShapableFace_retain_def hb_font_create_sub_font_def hb_font_set_funcs_def
  hb_font_set_var_coords_design_def hb_font_destroy_def
  RenderableFace_lock_def RenderableFace_unlock_def mutex_lock_def mutex_unlock_def
  AdvanceCache_get_def AdvanceCache_put_def
  log_event_def lock_held_def lock_step_def
  heap_alloc_def heap_get_def heap_set_def heap_free_def Let_def

lemma world0_ffile: "heap_get (fontFiles world0) (m_fontFile rface0) = Some \<lparr>ff_retainCount = 2\<rparr>"
  by (simp add: world0_def heap_get_def rface0_def)

lemma world0_rface0: "heap_get (renderableFaces world0) 0 = Some rface0"
  by (simp add: world0_def heap_get_def)

lemma world0_sface: "heap_get (shapableFaces world0) 0 = Some sface0"
  by (simp add: world0_def heap_get_def)

lemma world0_rface: "heap_get (renderableFaces world0) (m_renderableFace sface0) = Some rface0"
  by (simp add: world0_def heap_get_def sface0_def)

lemma world0_face: "heap_get (ftFaces world0) (m_ftFace rface0) = Some face0"
  by (simp add: world0_def heap_get_def rface0_def)

lemma world0_unlocked: "\<not> lock_held (trace world0)"
  by (simp add: world0_def lock_held_def)

lemma cache0_get_2: "cache_get X0 (m_advanceCache sface0) 2 = Some 502"
  by (simp add: X0_def sface0_def cache0_def dm_get_def dm_put_def dm_new_def)

lemma cache0_get_3: "cache_get X0 (m_advanceCache sface0) 3 = None"
  by (simp add: X0_def sface0_def cache0_def dm_get_def dm_put_def dm_new_def)

subsection \<open>What the single callbacks compute\<close>

lemma nominal_glyph_char:
  assumes "heap_get (shapableFaces w) object = Some inst"
    and "heap_get (renderableFaces w) (m_renderableFace inst) = Some rf"
    and "heap_get (ftFaces w) (m_ftFace rf) = Some f"
    and "\<not> lock_held (trace w)"
  shows "nominal_glyph X w object unicode =
    Some (if ft_char_index X f unicode = 0 then None else Some (ft_char_index X f unicode),
          w\<lparr>trace := trace w @ [MutexLock, Ev_FT_Get_Char_Index (m_ftFace rf) unicode, MutexUnlock]\<rparr>)"
  using assms
  by (simp add: nominal_glyph_def RenderableFace_lock_def RenderableFace_unlock_def
      mutex_lock_def mutex_unlock_def log_event_def FT_Get_Char_Index_def
      Let_def lock_held_append lock_step_def)

lemma glyph_h_advance_char:
  assumes "heap_get (shapableFaces w) object = Some inst"
    and "heap_get (renderableFaces w) (m_renderableFace inst) = Some rf"
    and "heap_get (ftFaces w) (m_ftFace rf) = Some f"
    and "\<not> lock_held (trace w)"
  shows "glyph_h_advance X w object glyph =
    (case cache_get X (m_advanceCache inst) (ucast glyph) of
       Some a \<Rightarrow>
         Some (a, w\<lparr>trace := trace w @
                      [MutexLock, Ev_cache_get object (ucast glyph), MutexUnlock]\<rparr>)
     | None \<Rightarrow>
         let a = word_of_int (case ft_advance X f (ucast (ucast glyph :: 16 word)) of
                                None \<Rightarrow> 0 | Some v \<Rightarrow> v)
         in Some (a, w\<lparr>shapableFaces := heap_set (shapableFaces w) object
                          (inst\<lparr>m_advanceCache :=
                                  cache_put X (m_advanceCache inst) (ucast glyph) a\<rparr>),
                       trace := trace w @
                         [MutexLock, Ev_cache_get object (ucast glyph),
                          Ev_FT_Get_Advance (m_ftFace rf) (ucast (ucast glyph :: 16 word)),
                          Ev_cache_put object (ucast glyph) a, MutexUnlock]\<rparr>))"
  using assms
  by (simp add: glyph_h_advance_def RenderableFace_lock_def RenderableFace_unlock_def
      mutex_lock_def mutex_unlock_def log_event_def AdvanceCache_get_def AdvanceCache_put_def
      FT_Get_Advance_def Let_def lock_held_append lock_step_def split: option.splits)

subsection \<open>The single horizontal-advance callback\<close>

text \<open>
  C3 (as the code has it). For every glyph identifier, the single horizontal-advance
  callback first locks the RenderableFace and then checks the AdvanceCache of its instance
  under that lock. On a hit it returns the cached value and does nothing else but unlock:
  the engine is not queried and the cache is not changed. On a miss it queries the engine
  for the unscaled advance of the glyph (0 when the engine reports an error), stores that
  value in the cache, unlocks and returns it.
\<close>

theorem glyph_h_advance_lock_then_cache:
  assumes "heap_get (shapableFaces w) object = Some inst"
    and "heap_get (renderableFaces w) (m_renderableFace inst) = Some rf"
    and "heap_get (ftFaces w) (m_ftFace rf) = Some f"
    and "\<not> lock_held (trace w)"
  shows "glyph_h_advance X w object glyph =
    (case cache_get X (m_advanceCache inst) (ucast glyph) of
       Some a \<Rightarrow>
         Some (a, w\<lparr>trace := trace w @
                      [MutexLock, Ev_cache_get object (ucast glyph), MutexUnlock]\<rparr>)
     | None \<Rightarrow>
         let a = word_of_int (case ft_advance X f (ucast (ucast glyph :: 16 word)) of
                                None \<Rightarrow> 0 | Some v \<Rightarrow> v)
         in Some (a, w\<lparr>shapableFaces := heap_set (shapableFaces w) object
                          (inst\<lparr>m_advanceCache :=
                                  cache_put X (m_advanceCache inst) (ucast glyph) a\<rparr>),
                       trace := trace w @
                         [MutexLock, Ev_cache_get object (ucast glyph),
                          Ev_FT_Get_Advance (m_ftFace rf) (ucast (ucast glyph :: 16 word)),
                          Ev_cache_put object (ucast glyph) a, MutexUnlock]\<rparr>))"
  using assms by (rule glyph_h_advance_char)

theorem glyph_h_advance_lock_then_cache_witness:
  "glyph_h_advance X0 world0 0 3 =
     Some (503, world0\<lparr>shapableFaces := heap_set (shapableFaces world0) 0
                          (sface0\<lparr>m_advanceCache := dm_put cache0 3 503\<rparr>),
                        trace := [MutexLock, Ev_cache_get 0 3, Ev_FT_Get_Advance 0 3,
                                  Ev_cache_put 0 3 503, MutexUnlock]\<rparr>)"
proof -
  have adv: "ft_advance X0 face0 3 = Some 503"
    by (simp add: X0_def face0_def)
  have put: "cache_put X0 (m_advanceCache sface0) 3 503 = dm_put cache0 3 503"
    by (simp add: X0_def sface0_def)
  have tr: "trace world0 = []" and ft: "m_ftFace rface0 = 0"
    by (simp_all add: world0_def rface0_def)
  show ?thesis
    using glyph_h_advance_lock_then_cache [OF world0_sface world0_rface world0_face
        world0_unlocked, of X0 3]
    by (simp add: cache0_get_3 adv put tr ft)
qed

text \<open>
  The claim as written has the lock taken only on a miss. On a hit (glyph 2 is in the
  cache of the example world) the run is: lock, cache lookup, unlock.
\<close>

theorem glyph_h_advance_hit_locks:
  "cache_get X0 (m_advanceCache sface0) 2 = Some 502 \<and>
   glyph_h_advance X0 world0 0 2 =
     Some (502, world0\<lparr>trace := [MutexLock, Ev_cache_get 0 2, MutexUnlock]\<rparr>)"
  by (simp add: glyph_h_advance_def RenderableFace_lock_def RenderableFace_unlock_def
      mutex_lock_def mutex_unlock_def log_event_def AdvanceCache_get_def world0_def
      heap_get_def sface0_def rface0_def lock_held_def lock_step_def
      cache0_get_2 [unfolded sface0_def, simplified])

subsection \<open>RenderableFace\<close>

text \<open>
  C5. \<^verbatim>\<open>RenderableFace::create\<close> returns null exactly when the supplied native face handle
  is null (and then changes nothing); for a non-null handle it returns a new
  RenderableFace (an address that held no object before) that stores the handle and the
  font file, with the font file retained once more.
\<close>

theorem RenderableFace_create_null_iff:
  assumes "heap_get (fontFiles w) fontFile = Some ff"
  shows "\<exists>r w'. RenderableFace_create w fontFile ftFace = Some (r, w') \<and>
           (r = None \<longleftrightarrow> ftFace = None) \<and>
           (ftFace = None \<longrightarrow> w' = w) \<and>
           (\<forall>handle. ftFace = Some handle \<longrightarrow>
              (\<exists>p. r = Some p \<and> heap_get (renderableFaces w) p = None \<and>
                 heap_get (renderableFaces w') p =
                   Some \<lparr>m_fontFile = fontFile, m_ftFace = handle, m_coordinates = [],
                         m_retainCount = 1\<rparr> \<and>
                 heap_get (fontFiles w') fontFile =
                   Some (ff\<lparr>ff_retainCount := ff_retainCount ff + 1\<rparr>)))"
proof (cases ftFace)
  case None
  then show ?thesis by (simp add: RenderableFace_create_def)
next
  case (Some handle)
  with assms show ?thesis
    by (simp add: RenderableFace_create_def RenderableFace_new_def FontFile_retain_def
        heap_alloc_def heap_get_append heap_get_length heap_get_set
        heap_get_Some_less [OF assms])
qed

theorem RenderableFace_create_null_iff_witness:
  "(\<exists>p w'. RenderableFace_create (world0\<lparr>ftFaces := ftFaces world0 @ [Some face0]\<rparr>) 0 (Some 1)
            = Some (Some p, w') \<and>
          heap_get (renderableFaces w') p =
            Some \<lparr>m_fontFile = 0, m_ftFace = 1, m_coordinates = [], m_retainCount = 1\<rparr> \<and>
          heap_get (fontFiles w') 0 = Some \<lparr>ff_retainCount = 3\<rparr>) \<and>
   RenderableFace_create world0 0 None = Some (None, world0)"
proof -
  have ff: "heap_get (fontFiles (world0\<lparr>ftFaces := ftFaces world0 @ [Some face0]\<rparr>)) 0
              = Some \<lparr>ff_retainCount = 2\<rparr>"
    and ff0: "heap_get (fontFiles world0) 0 = Some \<lparr>ff_retainCount = 2\<rparr>"
    by (simp_all add: world0_def heap_get_def)
  show ?thesis
    using RenderableFace_create_null_iff [OF ff, of "Some 1"]
      RenderableFace_create_null_iff [OF ff0, of None]
    by (elim exE conjE) auto
qed

text \<open>
  C6. For every coordinate vector \<open>c\<close>, \<^verbatim>\<open>RenderableFace::deriveVariation\<close> asks the font
  file of the instance for a RenderableFace at the instance's own face index. It returns
  null exactly when that request returns null, which is when the engine cannot open the
  face, and then changes nothing. Otherwise it returns the object the font file made, a
  different object with a native handle that did not exist before, after applying
  \<^verbatim>\<open>setupCoordinates\<close> with \<open>c\<close> to it: the new object stores \<open>c\<close> and its native face has
  the converted design coordinates. In both cases the original instance (its handle and
  its coordinates) and the native face behind its handle are as they were.
\<close>

theorem RenderableFace_deriveVariation_new_handle:
  assumes "heap_get (renderableFaces w) this = Some self"
    and "heap_get (ftFaces w) (m_ftFace self) = Some f"
    and "heap_get (fontFiles w) (m_fontFile self) = Some ff"
  shows "\<exists>d w1 r w'.
           FontFile_createRenderableFace X w (m_fontFile self) (face_index f) = Some (d, w1) \<and>
           RenderableFace_deriveVariation X w this c = Some (r, w') \<and>
           (r = None \<longleftrightarrow> d = None) \<and>
           (d = None \<longleftrightarrow> ft_open X (m_fontFile self) (face_index f) = None) \<and>
           (r = None \<longrightarrow> w' = w) \<and>
           (\<forall>p. r = Some p \<longrightarrow>
              d = Some p \<and> p \<noteq> this \<and>
              RenderableFace_setupCoordinates X w1 p c = Some w' \<and>
              (\<exists>new opened.
                 heap_get (renderableFaces w') p = Some new \<and>
                 m_coordinates new = c \<and> m_fontFile new = m_fontFile self \<and>
                 m_ftFace new \<noteq> m_ftFace self \<and>
                 heap_get (ftFaces w) (m_ftFace new) = None \<and>
                 ft_open X (m_fontFile self) (face_index f) = Some opened \<and>
                 heap_get (ftFaces w') (m_ftFace new) =
                   Some (opened\<lparr>design_coords := map (toF16Dot16 X) c\<rparr>))) \<and>
           heap_get (renderableFaces w') this = Some self \<and>
           heap_get (ftFaces w') (m_ftFace self) = Some f"
proof (cases "ft_open X (m_fontFile self) (face_index f)")
  case None
  with assms show ?thesis
    by (simp add: RenderableFace_deriveVariation_def FontFile_createRenderableFace_def
        RenderableFace_create_def)
next
  case (Some opened)
  note lt = heap_get_Some_less [OF assms(1)] heap_get_Some_less [OF assms(2)]
    heap_get_Some_less [OF assms(3)]
  from assms Some lt show ?thesis
    by (simp add: RenderableFace_deriveVariation_def FontFile_createRenderableFace_def
        RenderableFace_create_def RenderableFace_new_def FontFile_retain_def
        RenderableFace_setupCoordinates_def FT_Set_Var_Design_Coordinates_def log_event_def
        heap_alloc_def heap_get_append heap_get_length heap_get_set length_heap_set Let_def)
qed

theorem RenderableFace_deriveVariation_new_handle_witness:
  "(\<exists>p w' new. RenderableFace_deriveVariation X0 world0 0 [0x43C80000] = Some (Some p, w') \<and>
       p \<noteq> 0 \<and> heap_get (renderableFaces w') p = Some new \<and>
       m_coordinates new = [0x43C80000] \<and> m_ftFace new \<noteq> 0 \<and>
       heap_get (ftFaces w') (m_ftFace new) = Some (face0\<lparr>design_coords := [400 * 65536]\<rparr>) \<and>
       heap_get (renderableFaces w') 0 = Some rface0 \<and>
       heap_get (ftFaces w') 0 = Some face0) \<and>
   RenderableFace_deriveVariation (X0\<lparr>ft_open := \<lambda>a b. None\<rparr>) world0 0 [0x43C80000]
     = Some (None, world0)"
proof -
  have op: "ft_open X0 (m_fontFile rface0) (face_index face0) = Some face0"
    and cv: "map (toF16Dot16 X0) [0x43C80000] = [400 * 65536]"
    and h0: "m_ftFace rface0 = 0"
    by (simp_all add: X0_def rface0_def face0_def)
  have cl: "ft_open (X0\<lparr>ft_open := \<lambda>a b. None\<rparr>) (m_fontFile rface0) (face_index face0) = None"
    by simp
  show ?thesis
    using RenderableFace_deriveVariation_new_handle [OF world0_rface0 world0_face world0_ffile,
        of X0 "[0x43C80000]"]
      RenderableFace_deriveVariation_new_handle [OF world0_rface0 world0_face world0_ffile,
        of "X0\<lparr>ft_open := \<lambda>a b. None\<rparr>" "[0x43C80000]"]
    unfolding op cv h0 cl
    by (elim exE conjE) (cases, auto)
qed

text \<open>
  C8. The destructor of RenderableFace performs its steps in this order: it acquires the
  global engine mutex, destroys the native face handle, releases the mutex, and only then
  releases the font file. The mutex is held when the handle is destroyed and is not held
  when the font file is released.
\<close>

theorem RenderableFace_destructor_order:
  assumes "heap_get (renderableFaces w) this = Some self"
    and "heap_get (ftFaces w) (m_ftFace self) = Some f"
    and "heap_get (fontFiles w) (m_fontFile self) = Some ff"
    and "\<not> lock_held (trace w)"
  shows "\<exists>w'. RenderableFace_destructor w this = Some w' \<and>
           trace w' = trace w @ [MutexLock, Ev_FT_Done_Face (m_ftFace self), MutexUnlock,
                                 Ev_FontFile_release (m_fontFile self)] \<and>
           lock_held (trace w @ [MutexLock]) \<and>
           \<not> lock_held (trace w @ [MutexLock, Ev_FT_Done_Face (m_ftFace self), MutexUnlock]) \<and>
           release_outside_lock (lock_held (trace w))
             [MutexLock, Ev_FT_Done_Face (m_ftFace self), MutexUnlock,
              Ev_FontFile_release (m_fontFile self)] \<and>
           heap_get (ftFaces w') (m_ftFace self) = None"
  using assms
  by (simp add: RenderableFace_destructor_def mutex_lock_def mutex_unlock_def log_event_def
      FT_Done_Face_def FontFile_release_def Let_def lock_held_append lock_step_def
      heap_get_free)

theorem RenderableFace_destructor_order_witness:
  "\<exists>w'. RenderableFace_destructor world0 0 = Some w' \<and>
         trace w' = [MutexLock, Ev_FT_Done_Face 0, MutexUnlock, Ev_FontFile_release 0] \<and>
         heap_get (ftFaces w') 0 = None"
proof -
  have tr: "trace world0 = []" and h0: "m_ftFace rface0 = 0" and f0: "m_fontFile rface0 = 0"
    by (simp_all add: world0_def rface0_def)
  show ?thesis
    using RenderableFace_destructor_order [OF world0_rface0 world0_face world0_ffile
        world0_unlocked]
    unfolding tr h0 f0 by auto
qed

subsection \<open>Frames: what the operations leave alone\<close>


lemma frame_refl: "frame w w"
  by (auto simp: frame_def heap_get_def)

lemma frame_rf:
  "frame w w' \<Longrightarrow> p < length (renderableFaces w) \<Longrightarrow> heap_get (renderableFaces w') p = Some a' \<Longrightarrow>
   \<exists>a. heap_get (renderableFaces w) p = Some a \<and> m_coordinates a' = m_coordinates a \<and>
       m_ftFace a' = m_ftFace a \<and> m_fontFile a' = m_fontFile a"
  unfolding frame_def by blast

lemma frame_sf:
  "frame w w' \<Longrightarrow> p < length (shapableFaces w) \<Longrightarrow> heap_get (shapableFaces w') p = Some a' \<Longrightarrow>
   \<exists>a. heap_get (shapableFaces w) p = Some a \<and> m_rootFace a' = m_rootFace a \<and>
       m_renderableFace a' = m_renderableFace a \<and> m_hbFont a' = m_hbFont a"
  unfolding frame_def by blast

lemma frame_len:
  "frame w w' \<Longrightarrow> length (renderableFaces w) \<le> length (renderableFaces w') \<and>
     length (shapableFaces w) \<le> length (shapableFaces w')"
  unfolding frame_def by blast

lemma frame_trans:
  assumes a: "frame w w1" and b: "frame w1 w2"
  shows "frame w w2"
  unfolding frame_def
proof (intro conjI allI impI)
  show "length (renderableFaces w) \<le> length (renderableFaces w2)"
    using frame_len [OF a] frame_len [OF b] by simp
  show "length (shapableFaces w) \<le> length (shapableFaces w2)"
    using frame_len [OF a] frame_len [OF b] by simp
next
  fix p a'
  assume h: "p < length (renderableFaces w) \<and> heap_get (renderableFaces w2) p = Some a'"
  then have "p < length (renderableFaces w1)" using frame_len [OF a] by simp
  from frame_rf [OF b this] h obtain a1 where
    a1: "heap_get (renderableFaces w1) p = Some a1" "m_coordinates a' = m_coordinates a1"
      "m_ftFace a' = m_ftFace a1" "m_fontFile a' = m_fontFile a1" by blast
  from frame_rf [OF a _ a1(1)] h a1
  show "\<exists>a. heap_get (renderableFaces w) p = Some a \<and> m_coordinates a' = m_coordinates a \<and>
              m_ftFace a' = m_ftFace a \<and> m_fontFile a' = m_fontFile a" by auto
next
  fix p a'
  assume h: "p < length (shapableFaces w) \<and> heap_get (shapableFaces w2) p = Some a'"
  then have "p < length (shapableFaces w1)" using frame_len [OF a] by simp
  from frame_sf [OF b this] h obtain a1 where
    a1: "heap_get (shapableFaces w1) p = Some a1" "m_rootFace a' = m_rootFace a1"
      "m_renderableFace a' = m_renderableFace a1" "m_hbFont a' = m_hbFont a1" by blast
  from frame_sf [OF a _ a1(1)] h a1
  show "\<exists>a. heap_get (shapableFaces w) p = Some a \<and> m_rootFace a' = m_rootFace a \<and>
              m_renderableFace a' = m_renderableFace a \<and> m_hbFont a' = m_hbFont a" by auto
qed

lemma frame_same_refl: "frame_same w w"
  by (simp add: frame_same_def frame_refl)

lemma frame_same_trans: "frame_same w w1 \<Longrightarrow> frame_same w1 w2 \<Longrightarrow> frame_same w w2"
  by (auto simp: frame_same_def intro: frame_trans)

lemma frame_sameI:
  "renderableFaces w' = renderableFaces w \<Longrightarrow> shapableFaces w' = shapableFaces w \<Longrightarrow> frame_same w w'"
  by (auto simp: frame_same_def frame_def heap_get_def)

lemma log_event_frame: "frame_same w (log_event w e)"
  by (simp add: frame_sameI log_event_def)

lemma mutex_lock_frame: "mutex_lock w = Some w' \<Longrightarrow> frame_same w w'"
  by (auto simp: mutex_lock_def log_event_frame split: if_splits)

lemma mutex_unlock_frame: "mutex_unlock w = Some w' \<Longrightarrow> frame_same w w'"
  by (auto simp: mutex_unlock_def log_event_frame split: if_splits)

lemma FontFile_retain_frame: "FontFile_retain w p = Some w' \<Longrightarrow> frame_same w w'"
  by (auto simp: FontFile_retain_def frame_sameI split: bind_splits)

lemma FontFile_release_frame: "FontFile_release w p = Some w' \<Longrightarrow> frame_same w w'"
  by (auto simp: FontFile_release_def frame_sameI log_event_def Let_def split: bind_splits if_splits)

lemma FT_Done_Face_frame: "FT_Done_Face w p = Some w' \<Longrightarrow> frame_same w w'"
  by (auto simp: FT_Done_Face_def frame_sameI log_event_def split: bind_splits)

lemma FT_Get_Char_Index_frame: "FT_Get_Char_Index X w p u = Some (g, w') \<Longrightarrow> frame_same w w'"
  by (auto simp: FT_Get_Char_Index_def frame_sameI log_event_def split: bind_splits)

lemma FT_Get_Advance_frame: "FT_Get_Advance X w p u a = Some (g, w') \<Longrightarrow> frame_same w w'"
  by (auto simp: FT_Get_Advance_def frame_sameI log_event_def split: bind_splits)

lemma hb_font_destroy_frame: "hb_font_destroy w p = Some w' \<Longrightarrow> frame_same w w'"
  by (auto simp: hb_font_destroy_def frame_sameI split: bind_splits)

lemma RenderableFace_lock_frame: "RenderableFace_lock w p = Some w' \<Longrightarrow> frame_same w w'"
  by (auto simp: RenderableFace_lock_def mutex_lock_frame split: bind_splits)

lemma RenderableFace_unlock_frame: "RenderableFace_unlock w p = Some w' \<Longrightarrow> frame_same w w'"
  by (auto simp: RenderableFace_unlock_def mutex_unlock_frame split: bind_splits)

lemma frame_same_rf_set:
  assumes "heap_get (renderableFaces w) p = Some a"
    and "m_coordinates a' = m_coordinates a" "m_ftFace a' = m_ftFace a" "m_fontFile a' = m_fontFile a"
  shows "frame_same w (w\<lparr>renderableFaces := heap_set (renderableFaces w) p a'\<rparr>)"
  using assms by (auto simp: frame_same_def frame_def heap_get_set length_heap_set split: if_splits)

lemma frame_same_rf_free:
  "frame_same w (w\<lparr>renderableFaces := heap_free (renderableFaces w) p\<rparr>)"
  by (auto simp: frame_same_def frame_def heap_get_free length_heap_free split: if_splits)

lemma frame_same_sf_set:
  assumes "heap_get (shapableFaces w) p = Some a"
    and "m_rootFace a' = m_rootFace a" "m_renderableFace a' = m_renderableFace a" "m_hbFont a' = m_hbFont a"
  shows "frame_same w (w\<lparr>shapableFaces := heap_set (shapableFaces w) p a'\<rparr>)"
  using assms by (auto simp: frame_same_def frame_def heap_get_set length_heap_set split: if_splits)

lemma frame_same_sf_free:
  "frame_same w (w\<lparr>shapableFaces := heap_free (shapableFaces w) p\<rparr>)"
  by (auto simp: frame_same_def frame_def heap_get_free length_heap_free split: if_splits)

lemma RenderableFace_retain_frame: "RenderableFace_retain w p = Some w' \<Longrightarrow> frame_same w w'"
  by (auto simp: RenderableFace_retain_def frame_same_rf_set split: bind_splits)

lemma RenderableFace_destructor_frame: "RenderableFace_destructor w p = Some w' \<Longrightarrow> frame_same w w'"
  unfolding RenderableFace_destructor_def
  by (auto split: bind_splits
      dest!: mutex_lock_frame FT_Done_Face_frame mutex_unlock_frame FontFile_release_frame
      intro: frame_same_trans)

lemma RenderableFace_release_frame:
  assumes "RenderableFace_release w p = Some w'"
  shows "frame_same w w'"
proof -
  from assms obtain self where self: "heap_get (renderableFaces w) p = Some self"
    by (auto simp: RenderableFace_release_def split: bind_splits)
  define w1 where "w1 = w\<lparr>renderableFaces := heap_set (renderableFaces w) p
                          (self\<lparr>m_retainCount := m_retainCount self - 1\<rparr>)\<rparr>"
  have f1: "frame_same w w1"
    unfolding w1_def by (rule frame_same_rf_set [OF self]) simp_all
  show ?thesis
  proof (cases "m_retainCount self - 1 = 0")
    case True
    with assms self obtain w2 where w2: "RenderableFace_destructor w1 p = Some w2"
      and w': "w' = w2\<lparr>renderableFaces := heap_free (renderableFaces w2) p\<rparr>"
      by (auto simp: RenderableFace_release_def w1_def Let_def split: bind_splits)
    from f1 RenderableFace_destructor_frame [OF w2] frame_same_rf_free [of w2 p] w'
    show ?thesis by (blast intro: frame_same_trans)
  next
    case False
    with assms self have "w' = w1"
      by (auto simp: RenderableFace_release_def w1_def Let_def)
    with f1 show ?thesis by simp
  qed
qed


lemma frame_same_rf_alloc:
  "frame_same w (w\<lparr>renderableFaces := renderableFaces w @ [Some a]\<rparr>)"
  by (auto simp: frame_same_def frame_def heap_get_append split: if_splits)

lemma RenderableFace_new_frame:
  "RenderableFace_new w ff h = Some (p, w') \<Longrightarrow> frame_same w w' \<and> p = length (renderableFaces w)"
  unfolding RenderableFace_new_def heap_alloc_def
  apply (clarsimp split: bind_splits)
  apply (frule FontFile_retain_frame)
  apply (rule conjI)
   apply (erule frame_same_trans, rule frame_same_rf_alloc)
  apply (simp add: FontFile_retain_def split: bind_splits)
  apply auto
  done

lemma RenderableFace_create_frame:
  "RenderableFace_create w ff h = Some (r, w') \<Longrightarrow>
     frame_same w w' \<and> (\<forall>p. r = Some p \<longrightarrow> p = length (renderableFaces w))"
  by (auto simp: RenderableFace_create_def frame_same_refl split: option.splits bind_splits
      dest: RenderableFace_new_frame)

lemma FontFile_createRenderableFace_frame:
  "FontFile_createRenderableFace X w ff i = Some (r, w') \<Longrightarrow>
     frame_same w w' \<and> (\<forall>p. r = Some p \<longrightarrow> p = length (renderableFaces w))"
  unfolding FontFile_createRenderableFace_def heap_alloc_def
  apply (clarsimp split: bind_splits option.splits)
   apply (drule RenderableFace_create_frame, simp)
  apply (drule RenderableFace_create_frame)
  apply (erule conjE)
  apply (rule conjI)
   apply (rule frame_same_trans [rotated], assumption)
   apply (rule frame_sameI, simp, simp)
  apply simp
  done

lemma RenderableFace_setupCoordinates_frame:
  assumes "frame_same w w1" and "length (renderableFaces w) \<le> d"
    and "RenderableFace_setupCoordinates X w1 d c = Some w2"
  shows "frame_same w w2"
proof -
  from assms(3) obtain self where
    w2: "renderableFaces w2 = heap_set (renderableFaces w1) d (self\<lparr>m_coordinates := c\<rparr>)"
      "shapableFaces w2 = shapableFaces w1"
    by (auto simp: RenderableFace_setupCoordinates_def FT_Set_Var_Design_Coordinates_def
        log_event_def Let_def split: bind_splits)
  from assms(1,2) show ?thesis
    unfolding frame_same_def frame_def w2
    by (auto simp: heap_get_set length_heap_set)
qed

lemma RenderableFace_deriveVariation_frame:
  assumes "RenderableFace_deriveVariation X w p c = Some (r, w')"
  shows "frame_same w w'"
proof -
  from assms obtain self :: RenderableFace and f :: FT_FaceRec and d w1 where
    cr: "FontFile_createRenderableFace X w (m_fontFile self) (face_index f) = Some (d, w1)"
    and rest: "(case d of None \<Rightarrow> Some (None, w1)
                | Some q \<Rightarrow> Option.bind (RenderableFace_setupCoordinates X w1 q c)
                              (\<lambda>w2. Some (Some q, w2))) = Some (r, w')"
    unfolding RenderableFace_deriveVariation_def
    by (clarsimp split: bind_splits)
  note fr = FontFile_createRenderableFace_frame [OF cr]
  show ?thesis
  proof (cases d)
    case None
    with rest fr show ?thesis by simp
  next
    case (Some q)
    with rest obtain w2 where "RenderableFace_setupCoordinates X w1 q c = Some w2" "w' = w2"
      by (auto split: bind_splits)
    with fr Some show ?thesis
      by (auto intro: RenderableFace_setupCoordinates_frame)
  qed
qed

lemma hb_font_set_funcs_frame: "hb_font_set_funcs w f d = Some w' \<Longrightarrow> frame_same w w'"
  by (auto simp: hb_font_set_funcs_def frame_sameI split: bind_splits)

lemma hb_font_create_sub_font_frame: "hb_font_create_sub_font w f = Some (p, w') \<Longrightarrow> frame_same w w'"
  by (auto simp: hb_font_create_sub_font_def heap_alloc_def frame_sameI split: bind_splits)

lemma hb_font_set_var_coords_design_frame:
  "hb_font_set_var_coords_design w f c = Some w' \<Longrightarrow> frame_same w w'"
  by (auto simp: hb_font_set_var_coords_design_def frame_sameI split: bind_splits)

lemma ShapableFace_setupCoordinates_frame:
  "ShapableFace_setupCoordinates w p = Some w' \<Longrightarrow> frame_same w w'"
  by (auto simp: ShapableFace_setupCoordinates_def frame_same_refl
      split: bind_splits option.splits dest: hb_font_set_var_coords_design_frame)

lemma ShapableFace_retain_frame: "ShapableFace_retain w p = Some w' \<Longrightarrow> frame_same w w'"
  by (auto simp: ShapableFace_retain_def frame_same_sf_set split: bind_splits)

lemma AdvanceCache_get_frame: "AdvanceCache_get X w p g = Some (r, w') \<Longrightarrow> frame_same w w'"
  by (auto simp: AdvanceCache_get_def log_event_frame split: bind_splits)

lemma AdvanceCache_put_frame: "AdvanceCache_put X w p g v = Some w' \<Longrightarrow> frame_same w w'"
  unfolding AdvanceCache_put_def
  apply (clarsimp split: bind_splits)
  apply (rule frame_same_trans [OF _ log_event_frame])
  apply (rule frame_same_sf_set, assumption, simp_all)
  done

lemma frame_same_memory: "frame_same w (w\<lparr>memory := m\<rparr>)"
  by (simp add: frame_sameI)

lemma nominal_glyphs_loop_frame:
  "nominal_glyphs_loop X ftFace count us gs d up gp w = Some (k, w') \<Longrightarrow> frame_same w w'"
proof (induction X ftFace count us gs d up gp w rule: nominal_glyphs_loop.induct)
  case (1 X ftFace count us gs d up gp w)
  show ?case
  proof (cases "d < count")
    case False
    with "1.prems" show ?thesis
      by (simp add: nominal_glyphs_loop.simps [of X ftFace count us gs d] frame_same_refl)
  next
    case True
    with "1.prems" obtain g w1 where
      q: "FT_Get_Char_Index X w ftFace (load32 (memory w) up) = Some (g, w1)"
      by (auto simp: nominal_glyphs_loop.simps [of X ftFace count us gs d] split: option.splits)
    note f1 = FT_Get_Char_Index_frame [OF q]
    show ?thesis
    proof (cases "g = 0")
      case True
      with \<open>d < count\<close> q "1.prems" f1 show ?thesis
        by (simp add: nominal_glyphs_loop.simps [of X ftFace count us gs d])
    next
      case False
      with \<open>d < count\<close> q "1.prems" have
        "nominal_glyphs_loop X ftFace count us gs (d + 1) (up + us) (gp + gs)
           (w1\<lparr>memory := store32 (memory w1) gp g\<rparr>) = Some (k, w')"
        by (simp add: nominal_glyphs_loop.simps [of X ftFace count us gs d])
      from "1.IH" [OF \<open>d < count\<close> q refl False this] f1
      show ?thesis
        by (blast intro: frame_same_trans frame_same_memory)
    qed
  qed
qed

lemma glyph_h_advances_loop_frame:
  "glyph_h_advances_loop X object ftFace count gs as i gp ap w = Some w' \<Longrightarrow> frame_same w w'"
proof (induction X object ftFace count gs as i gp ap w rule: glyph_h_advances_loop.induct)
  case (1 X object ftFace count gs as i gp ap w)
  note simps = glyph_h_advances_loop.simps [of X object ftFace count gs as i gp ap w]
  show ?case
  proof (cases "i < count")
    case False
    with "1.prems" show ?thesis by (simp add: simps frame_same_refl)
  next
    case True
    with "1.prems" obtain hit w1 where
      q: "AdvanceCache_get X w object (ucast (load32 (memory w) gp)) = Some (hit, w1)"
      by (auto simp: simps split: option.splits)
    note f1 = AdvanceCache_get_frame [OF q]
    show ?thesis
    proof (cases hit)
      case (Some a)
      with True q "1.prems" have
        "glyph_h_advances_loop X object ftFace count gs as (i + 1) (gp + gs) (ap + as)
           (w1\<lparr>memory := store32 (memory w1) ap a\<rparr>) = Some w'"
        by (simp add: simps)
      from "1.IH"(2) [OF True q refl Some this] f1 show ?thesis
        by (blast intro: frame_same_trans frame_same_memory)
    next
      case None
      with True q "1.prems" obtain v w2 w3 where
        a: "FT_Get_Advance X w1 ftFace (ucast (ucast (load32 (memory w) gp) :: 16 word)) 0 = Some (v, w2)"
        and p: "AdvanceCache_put X (w2\<lparr>memory := store32 (memory w2) ap (word_of_int v)\<rparr>)
                  object (ucast (load32 (memory w) gp)) (word_of_int v) = Some w3"
        and r: "glyph_h_advances_loop X object ftFace count gs as (i + 1) (gp + gs) (ap + as) w3
                  = Some w'"
        by (auto simp: simps split: option.splits)
      from "1.IH"(1) [OF True q refl None a refl p r]
        f1 FT_Get_Advance_frame [OF a] AdvanceCache_put_frame [OF p]
      show ?thesis
        by (blast intro: frame_same_trans frame_same_memory)
    qed
  qed
qed

lemma ShapableFace_release_frame:
  assumes "ShapableFace_release w p = Some w'"
  shows "frame_same w w'"
proof (rule ShapableFace_release.raw_induct
    [where P = "\<lambda>w p w'. frame_same w w'", OF _ assms], goal_cases)
  case (1 rel w this w')
  note IH = 1(1) and body = 1(2)
  from body obtain self where self: "heap_get (shapableFaces w) this = Some self"
    by (auto split: bind_splits)
  define w1 where "w1 = w\<lparr>shapableFaces := heap_set (shapableFaces w) this
                          (self\<lparr>sf_retainCount := sf_retainCount self - 1\<rparr>)\<rparr>"
  have f1: "frame_same w w1"
    unfolding w1_def by (rule frame_same_sf_set [OF self]) simp_all
  show ?case
  proof (cases "sf_retainCount self - 1 = 0")
    case False
    with body self have "w' = w1" by (simp add: w1_def Let_def)
    with f1 show ?thesis by simp
  next
    case True
    with body self obtain w2 w3 w4 where
      d: "hb_font_destroy w1 (m_hbFont self) = Some w2"
      and r: "RenderableFace_release w2 (m_renderableFace self) = Some w3"
      and s: "(case m_rootFace self of None \<Rightarrow> Some w3 | Some root \<Rightarrow> rel w3 root) = Some w4"
      and e: "w' = w4\<lparr>shapableFaces := heap_free (shapableFaces w4) this\<rparr>"
      by (auto simp: w1_def Let_def split: bind_splits)
    have f34: "frame_same w3 w4"
      using s IH by (auto simp: frame_same_refl split: option.splits)
    from f1 hb_font_destroy_frame [OF d] RenderableFace_release_frame [OF r] f34
      frame_same_sf_free [of w4 this] e
    show ?thesis by (blast intro: frame_same_trans)
  qed
qed

lemma nominal_glyph_frame:
  assumes "nominal_glyph X w obj u = Some (r, w')"
  shows "frame_same w w'"
proof -
  from assms obtain inst w1 rf g w2 where
    "heap_get (shapableFaces w) obj = Some inst \<and>
     heap_get (renderableFaces w1) (m_renderableFace inst) = Some rf"
    "RenderableFace_lock w (m_renderableFace inst) = Some w1"
    "FT_Get_Char_Index X w1 (m_ftFace rf) u = Some (g, w2)"
    "RenderableFace_unlock w2 (m_renderableFace inst) = Some w'"
    unfolding nominal_glyph_def Let_def
    by (clarsimp split: bind_splits)
  from RenderableFace_lock_frame [OF this(2)] FT_Get_Char_Index_frame [OF this(3)]
    RenderableFace_unlock_frame [OF this(4)]
  show ?thesis by (rule frame_same_trans [OF frame_same_trans])
qed

lemma nominal_glyphs_frame:
  assumes "nominal_glyphs X w obj n fu us fg gs = Some (r, w')"
  shows "frame_same w w'"
proof -
  from assms obtain inst w1 rf w2 where
    "heap_get (shapableFaces w) obj = Some inst \<and>
     heap_get (renderableFaces w1) (m_renderableFace inst) = Some rf"
    "RenderableFace_lock w (m_renderableFace inst) = Some w1"
    "nominal_glyphs_loop X (m_ftFace rf) n us gs 0 fu fg w1 = Some (r, w2)"
    "RenderableFace_unlock w2 (m_renderableFace inst) = Some w'"
    unfolding nominal_glyphs_def Let_def
    by (clarsimp split: bind_splits)
  from RenderableFace_lock_frame [OF this(2)] nominal_glyphs_loop_frame [OF this(3)]
    RenderableFace_unlock_frame [OF this(4)]
  show ?thesis by (rule frame_same_trans [OF frame_same_trans])
qed

lemma glyph_h_advances_frame:
  assumes "glyph_h_advances X w obj n fg gs fa as = Some w'"
  shows "frame_same w w'"
proof -
  from assms obtain inst w1 rf w2 where
    "heap_get (shapableFaces w) obj = Some inst \<and>
     heap_get (renderableFaces w1) (m_renderableFace inst) = Some rf"
    "RenderableFace_lock w (m_renderableFace inst) = Some w1"
    "glyph_h_advances_loop X obj (m_ftFace rf) n gs as 0 fg fa w1 = Some w2"
    "RenderableFace_unlock w2 (m_renderableFace inst) = Some w'"
    unfolding glyph_h_advances_def Let_def
    by (clarsimp split: bind_splits)
  from RenderableFace_lock_frame [OF this(2)] glyph_h_advances_loop_frame [OF this(3)]
    RenderableFace_unlock_frame [OF this(4)]
  show ?thesis by (rule frame_same_trans [OF frame_same_trans])
qed

lemma glyph_h_advance_frame:
  assumes "glyph_h_advance X w obj g = Some (r, w')"
  shows "frame_same w w'"
proof -
  from assms obtain inst w1 rf hit w2 where
    "heap_get (shapableFaces w) obj = Some inst \<and>
     heap_get (renderableFaces w1) (m_renderableFace inst) = Some rf" and
    l: "RenderableFace_lock w (m_renderableFace inst) = Some w1"
    and c: "AdvanceCache_get X w1 obj (ucast g) = Some (hit, w2)"
    and rest: "(case hit of
        Some glyphAdvance \<Rightarrow>
          Option.bind (RenderableFace_unlock w2 (m_renderableFace inst)) (\<lambda>w3. Some (glyphAdvance, w3))
      | None \<Rightarrow>
          Option.bind (FT_Get_Advance X w2 (m_ftFace rf) (ucast (ucast g :: 16 word)) 0)
            (\<lambda>(ftAdvance, w3).
              Option.bind (AdvanceCache_put X w3 obj (ucast g) (word_of_int ftAdvance))
                (\<lambda>w4. Option.bind (RenderableFace_unlock w4 (m_renderableFace inst))
                  (\<lambda>w5. Some (word_of_int ftAdvance, w5))))) = Some (r, w')"
    unfolding glyph_h_advance_def Let_def
    by (clarsimp split: bind_splits)
  note f12 = frame_same_trans [OF RenderableFace_lock_frame [OF l] AdvanceCache_get_frame [OF c]]
  show ?thesis
  proof (cases hit)
    case (Some a)
    with rest have "RenderableFace_unlock w2 (m_renderableFace inst) = Some w'"
      by (auto split: bind_splits)
    from frame_same_trans [OF f12 RenderableFace_unlock_frame [OF this]] show ?thesis .
  next
    case None
    with rest obtain v w3 w4 where
      a: "FT_Get_Advance X w2 (m_ftFace rf) (ucast (ucast g :: 16 word)) 0 = Some (v, w3)"
      and p: "AdvanceCache_put X w3 obj (ucast g) (word_of_int v) = Some w4"
      and u: "RenderableFace_unlock w4 (m_renderableFace inst) = Some w'"
      by (auto split: bind_splits)
    from frame_same_trans [OF frame_same_trans [OF frame_same_trans [OF f12
      FT_Get_Advance_frame [OF a]] AdvanceCache_put_frame [OF p]] RenderableFace_unlock_frame [OF u]]
    show ?thesis .
  qed
qed

lemma frame_sf_alloc:
  "frame w (w\<lparr>shapableFaces := shapableFaces w @ [Some a]\<rparr>)"
  by (auto simp: frame_def heap_get_append split: if_splits)

lemma frame_same_frame: "frame_same w w' \<Longrightarrow> frame w w'"
  by (simp add: frame_same_def)

lemma frame_same_len: "frame_same w w' \<Longrightarrow> length (shapableFaces w') = length (shapableFaces w)"
  by (simp add: frame_same_def)

lemma ShapableFace_create_decomp:
  assumes "ShapableFace_create X w r = Some (p, w')"
  shows "\<exists>w2 font. frame_same w w2 \<and> p = length (shapableFaces w2) \<and>
           ShapableFace_setupCoordinates
             (w2\<lparr>shapableFaces := shapableFaces w2 @
                [Some \<lparr>m_rootFace = None, m_renderableFace = r, m_hbFont = font,
                       m_advanceCache = cache_new X, sf_retainCount = 1\<rparr>]\<rparr>) p = Some w'"
  using assms unfolding ShapableFace_create_def Let_def heap_alloc_def
  apply (clarsimp split: bind_splits)
  subgoal premises prems for w1 rfa f w2
  proof -
    have "frame_same w w1" by (rule RenderableFace_retain_frame [OF prems(1)])
    moreover have "frame_same w1 w2"
      by (rule frame_same_trans [OF frame_sameI hb_font_set_funcs_frame [OF prems(4)]]) simp_all
    ultimately have "frame_same w w2" by (rule frame_same_trans)
    with prems(5) show ?thesis by blast
  qed
  done

lemma ShapableFace_deriveVariation_decomp:
  assumes "ShapableFace_deriveVariation X w parent r = Some (p, w')"
  shows "\<exists>par root4 w4 font.
           heap_get (shapableFaces w) parent = Some par \<and>
           frame_same w w4 \<and> p = length (shapableFaces w4) \<and>
           heap_get (shapableFaces w4) (case m_rootFace par of Some x \<Rightarrow> x | None \<Rightarrow> parent)
             = Some root4 \<and>
           ShapableFace_setupCoordinates
             (w4\<lparr>shapableFaces := shapableFaces w4 @
                [Some \<lparr>m_rootFace = Some (case m_rootFace par of Some x \<Rightarrow> x | None \<Rightarrow> parent),
                       m_renderableFace = r, m_hbFont = font,
                       m_advanceCache = cache_new X, sf_retainCount = 1\<rparr>]\<rparr>) p = Some w'"
  using assms unfolding ShapableFace_deriveVariation_def Let_def heap_alloc_def
  apply (clarsimp split: bind_splits)
  subgoal premises prems for w1 par root font w2 w3 w4
  proof -
    from RenderableFace_retain_frame [OF prems(1)] hb_font_create_sub_font_frame [OF prems(4)]
      hb_font_set_funcs_frame [OF prems(5)] ShapableFace_retain_frame [OF prems(6)]
    have fr: "frame_same w w4"
      by (rule frame_same_trans [OF frame_same_trans [OF frame_same_trans]])
    have par: "heap_get (shapableFaces w) parent = Some par"
      using prems(1,2) by (auto simp: RenderableFace_retain_def split: bind_splits)
    from prems(6) obtain root4 where
      "heap_get (shapableFaces w4) (case m_rootFace par of Some x \<Rightarrow> x | None \<Rightarrow> parent)
         = Some root4"
      by (auto simp: ShapableFace_retain_def heap_get_set split: bind_splits
          dest: heap_get_Some_less)
    with par prems(7) fr show ?thesis by blast
  qed
  done

lemma roots_flat_frame_same:
  assumes fr: "frame_same w w'" and rf: "roots_flat w"
  shows "roots_flat w'"
  unfolding roots_flat_def
proof (intro allI impI)
  fix p a r
  assume h: "heap_get (shapableFaces w') p = Some a \<and> m_rootFace a = Some r"
  then have "p < length (shapableFaces w)"
    using heap_get_Some_less [of "shapableFaces w'" p a] frame_same_len [OF fr] by simp
  from frame_sf [OF frame_same_frame [OF fr] this] h obtain a0 where
    a0: "heap_get (shapableFaces w) p = Some a0" "m_rootFace a0 = Some r" by auto
  with rf have r: "r < length (shapableFaces w)"
    and flat: "\<forall>b. heap_get (shapableFaces w) r = Some b \<longrightarrow> m_rootFace b = None"
    unfolding roots_flat_def by blast+
  show "r < length (shapableFaces w') \<and>
        (\<forall>b. heap_get (shapableFaces w') r = Some b \<longrightarrow> m_rootFace b = None)"
  proof (intro conjI allI impI)
    show "r < length (shapableFaces w')" using r frame_same_len [OF fr] by simp
  next
    fix b assume "heap_get (shapableFaces w') r = Some b"
    from frame_sf [OF frame_same_frame [OF fr] r this] flat
    show "m_rootFace b = None" by auto
  qed
qed

lemma roots_flat_alloc:
  assumes rf: "roots_flat w"
    and new: "case m_rootFace a of None \<Rightarrow> True
         | Some r \<Rightarrow> \<exists>b. heap_get (shapableFaces w) r = Some b \<and> m_rootFace b = None"
  shows "roots_flat (w\<lparr>shapableFaces := shapableFaces w @ [Some a]\<rparr>)"
  unfolding roots_flat_def
proof (intro allI impI)
  fix p x r
  let ?w' = "w\<lparr>shapableFaces := shapableFaces w @ [Some a]\<rparr>"
  assume h: "heap_get (shapableFaces ?w') p = Some x \<and> m_rootFace x = Some r"
  have old: "r < length (shapableFaces w) \<and>
             (\<forall>b. heap_get (shapableFaces w) r = Some b \<longrightarrow> m_rootFace b = None)"
  proof (cases "p = length (shapableFaces w)")
    case True
    with h have "x = a" by (simp add: heap_get_append)
    with h new obtain b where "heap_get (shapableFaces w) r = Some b" "m_rootFace b = None"
      by auto
    then show ?thesis by (auto dest: heap_get_Some_less)
  next
    case False
    with h have "heap_get (shapableFaces w) p = Some x" by (simp add: heap_get_append)
    with h rf show ?thesis unfolding roots_flat_def by blast
  qed
  then have "r \<noteq> length (shapableFaces w)" by simp
  with old show "r < length (shapableFaces ?w') \<and>
        (\<forall>b. heap_get (shapableFaces ?w') r = Some b \<longrightarrow> m_rootFace b = None)"
    by (simp add: heap_get_append)
qed

subsection \<open>Sequences of operations\<close>

lemma ShapableFace_setupCoordinates_sf:
  "ShapableFace_setupCoordinates w p = Some w' \<Longrightarrow> shapableFaces w' = shapableFaces w"
  by (auto simp: ShapableFace_setupCoordinates_def hb_font_set_var_coords_design_def
      split: bind_splits option.splits)

lemma ShapableFace_create_frame:
  assumes "ShapableFace_create X w r = Some (p, w')"
  shows "frame w w'"
proof -
  from ShapableFace_create_decomp [OF assms] obtain w2 a where
    f: "frame_same w w2"
    and s: "ShapableFace_setupCoordinates (w2\<lparr>shapableFaces := shapableFaces w2 @ [Some a]\<rparr>) p
              = Some w'"
    by blast
  from frame_same_frame [OF f] frame_sf_alloc [of w2 a]
    frame_same_frame [OF ShapableFace_setupCoordinates_frame [OF s]]
  show ?thesis by (rule frame_trans [OF frame_trans])
qed

lemma ShapableFace_create_roots_flat:
  assumes "ShapableFace_create X w r = Some (p, w')" and "roots_flat w"
  shows "roots_flat w'"
proof -
  from ShapableFace_create_decomp [OF assms(1)] obtain w2 font where
    f: "frame_same w w2"
    and s: "ShapableFace_setupCoordinates
             (w2\<lparr>shapableFaces := shapableFaces w2 @
                [Some \<lparr>m_rootFace = None, m_renderableFace = r, m_hbFont = font,
                       m_advanceCache = cache_new X, sf_retainCount = 1\<rparr>]\<rparr>) p = Some w'"
    by blast
  have "roots_flat w2" by (rule roots_flat_frame_same [OF f assms(2)])
  then have "roots_flat (w2\<lparr>shapableFaces := shapableFaces w2 @
                [Some \<lparr>m_rootFace = None, m_renderableFace = r, m_hbFont = font,
                       m_advanceCache = cache_new X, sf_retainCount = 1\<rparr>]\<rparr>)"
    by (rule roots_flat_alloc) simp
  with ShapableFace_setupCoordinates_frame [OF s] show ?thesis
    by (rule roots_flat_frame_same)
qed

lemma ShapableFace_deriveVariation_frame:
  assumes "ShapableFace_deriveVariation X w parent r = Some (p, w')"
  shows "frame w w'"
proof -
  from ShapableFace_deriveVariation_decomp [OF assms] obtain w4 a where
    f: "frame_same w w4"
    and s: "ShapableFace_setupCoordinates (w4\<lparr>shapableFaces := shapableFaces w4 @ [Some a]\<rparr>) p
              = Some w'"
    by blast
  from frame_same_frame [OF f] frame_sf_alloc [of w4 a]
    frame_same_frame [OF ShapableFace_setupCoordinates_frame [OF s]]
  show ?thesis by (rule frame_trans [OF frame_trans])
qed

lemma ShapableFace_deriveVariation_root:
  assumes d: "ShapableFace_deriveVariation X w parent r = Some (q, w')" and rf: "roots_flat w"
  shows "roots_flat w' \<and>
         (\<exists>a root b. heap_get (shapableFaces w') q = Some a \<and> m_rootFace a = Some root \<and>
            heap_get (shapableFaces w') root = Some b \<and> m_rootFace b = None)"
proof -
  from ShapableFace_deriveVariation_decomp [OF d] obtain par root4 w4 font where
    par: "heap_get (shapableFaces w) parent = Some par"
    and f: "frame_same w w4"
    and q: "q = length (shapableFaces w4)"
    and root4: "heap_get (shapableFaces w4) (case m_rootFace par of Some x \<Rightarrow> x | None \<Rightarrow> parent)
                  = Some root4"
    and s: "ShapableFace_setupCoordinates
             (w4\<lparr>shapableFaces := shapableFaces w4 @
                [Some \<lparr>m_rootFace = Some (case m_rootFace par of Some x \<Rightarrow> x | None \<Rightarrow> parent),
                       m_renderableFace = r, m_hbFont = font,
                       m_advanceCache = cache_new X, sf_retainCount = 1\<rparr>]\<rparr>) q = Some w'"
    by blast
  define rootFace where "rootFace = (case m_rootFace par of Some x \<Rightarrow> x | None \<Rightarrow> parent)"
  define a where "a = \<lparr>m_rootFace = Some rootFace, m_renderableFace = r, m_hbFont = font,
                       m_advanceCache = cache_new X, sf_retainCount = 1\<rparr>"
  note root4 = root4 [folded rootFace_def] and s = s [folded rootFace_def, folded a_def]
  have lt: "rootFace < length (shapableFaces w)"
    using heap_get_Some_less [OF root4] frame_same_len [OF f] by simp
  from frame_sf [OF frame_same_frame [OF f] lt root4] obtain root0 where
    root0: "heap_get (shapableFaces w) rootFace = Some root0" "m_rootFace root4 = m_rootFace root0"
    by blast
  have "m_rootFace root0 = None"
  proof (cases "m_rootFace par")
    case None
    then have "rootFace = parent" by (simp add: rootFace_def)
    with root0 par None show ?thesis by simp
  next
    case (Some x)
    then have "rootFace = x" by (simp add: rootFace_def)
    with rf par Some root0 show ?thesis unfolding roots_flat_def by blast
  qed
  with root0 have flat4: "m_rootFace root4 = None" by simp
  have rf4: "roots_flat w4" by (rule roots_flat_frame_same [OF f rf])
  have "roots_flat (w4\<lparr>shapableFaces := shapableFaces w4 @ [Some a]\<rparr>)"
    by (rule roots_flat_alloc [OF rf4]) (simp add: a_def root4 flat4)
  with ShapableFace_setupCoordinates_frame [OF s] have 1: "roots_flat w'"
    by (rule roots_flat_frame_same)
  have sf: "shapableFaces w' = shapableFaces w4 @ [Some a]"
    using ShapableFace_setupCoordinates_sf [OF s] by simp
  have "rootFace \<noteq> length (shapableFaces w4)"
    using heap_get_Some_less [OF root4] by simp
  then have 2: "heap_get (shapableFaces w') q = Some a \<and> m_rootFace a = Some rootFace \<and>
     heap_get (shapableFaces w') rootFace = Some root4 \<and> m_rootFace root4 = None"
    by (simp add: sf q heap_get_append a_def root4 flat4)
  from 1 2 show ?thesis by blast
qed

lemma api_exec_frame:
  assumes "api_exec X w c = Some w'"
  shows "frame w w'"
proof (cases c)
  case (Call_ShapableFace_create r)
  with assms show ?thesis by (auto dest: ShapableFace_create_frame)
next
  case (Call_ShapableFace_deriveVariation p r)
  with assms show ?thesis by (auto dest: ShapableFace_deriveVariation_frame)
qed (use assms in \<open>auto intro!: frame_same_frame
      dest: FontFile_createRenderableFace_frame RenderableFace_create_frame
        RenderableFace_deriveVariation_frame RenderableFace_retain_frame
        RenderableFace_release_frame RenderableFace_lock_frame RenderableFace_unlock_frame
        ShapableFace_retain_frame ShapableFace_release_frame nominal_glyph_frame
        nominal_glyphs_frame glyph_h_advance_frame glyph_h_advances_frame\<close>)

lemma api_exec_roots_flat:
  assumes "api_exec X w c = Some w'" and "roots_flat w"
  shows "roots_flat w'"
proof (cases c)
  case (Call_ShapableFace_create r)
  with assms show ?thesis by (auto dest: ShapableFace_create_roots_flat)
next
  case (Call_ShapableFace_deriveVariation p r)
  with assms show ?thesis by (auto dest: ShapableFace_deriveVariation_root)
qed (use assms in \<open>auto intro!: roots_flat_frame_same [OF _ assms(2)]
      dest: FontFile_createRenderableFace_frame RenderableFace_create_frame
        RenderableFace_deriveVariation_frame RenderableFace_retain_frame
        RenderableFace_release_frame RenderableFace_lock_frame RenderableFace_unlock_frame
        ShapableFace_retain_frame ShapableFace_release_frame nominal_glyph_frame
        nominal_glyphs_frame glyph_h_advance_frame glyph_h_advances_frame\<close>)

lemma api_run_frame: "api_run X w cs = Some w' \<Longrightarrow> frame w w'"
proof (induction cs arbitrary: w)
  case Nil
  then show ?case by (simp add: frame_refl)
next
  case (Cons c cs)
  then obtain w1 where "api_exec X w c = Some w1" "api_run X w1 cs = Some w'"
    by (auto split: option.splits)
  with Cons.IH show ?case by (blast intro: frame_trans api_exec_frame)
qed

lemma api_run_roots_flat: "api_run X w cs = Some w' \<Longrightarrow> roots_flat w \<Longrightarrow> roots_flat w'"
proof (induction cs arbitrary: w)
  case Nil
  then show ?case by simp
next
  case (Cons c cs)
  then obtain w1 where "api_exec X w c = Some w1" "api_run X w1 cs = Some w'"
    by (auto split: option.splits)
  with Cons show ?case by (blast intro: api_exec_roots_flat)
qed


text \<open>
  C7. For every RenderableFace, once \<^verbatim>\<open>setupCoordinates\<close> has stored a coordinate vector,
  no later operation changes it: after any sequence of \<open>api_call\<close>s (the operations of the
  two classes and the font functions, on this or on any other object; all that the
  sources define but the initialiser \<^verbatim>\<open>setupCoordinates\<close> itself, which they run once per
  object, before \<^verbatim>\<open>deriveVariation\<close> returns it), the instance, as long as it exists,
  still stores that vector.
\<close>

theorem RenderableFace_coordinates_immutable:
  assumes "RenderableFace_setupCoordinates X w this c = Some w1"
    and "api_run X w1 calls = Some w'"
    and "heap_get (renderableFaces w') this = Some self'"
  shows "m_coordinates self' = c"
proof -
  from assms(1) obtain self where
    "renderableFaces w1 = heap_set (renderableFaces w) this (self\<lparr>m_coordinates := c\<rparr>)"
    "heap_get (renderableFaces w) this = Some self"
    by (auto simp: RenderableFace_setupCoordinates_def FT_Set_Var_Design_Coordinates_def
        log_event_def Let_def split: bind_splits)
  then have 1: "heap_get (renderableFaces w1) this = Some (self\<lparr>m_coordinates := c\<rparr>)"
    and lt: "this < length (renderableFaces w1)"
    by (auto simp: heap_get_set length_heap_set dest: heap_get_Some_less)
  from frame_rf [OF api_run_frame [OF assms(2)] lt assms(3)] 1
  show ?thesis by auto
qed

theorem RenderableFace_coordinates_immutable_witness:
  "\<exists>w1 w' self'.
     RenderableFace_setupCoordinates X0 world0 0 [0x43C80000] = Some w1 \<and>
     api_run X0 w1 [Call_RenderableFace_retain 0,
                    Call_RenderableFace_deriveVariation 0 [0x442F0000],
                    Call_RenderableFace_release 0] = Some w' \<and>
     heap_get (renderableFaces w') 0 = Some self' \<and>
     m_coordinates self' = [0x43C80000]"
proof -
  obtain w1 where w1: "RenderableFace_setupCoordinates X0 world0 0 [0x43C80000] = Some w1"
    by (simp add: RenderableFace_setupCoordinates_def FT_Set_Var_Design_Coordinates_def
        world0_def heap_get_def heap_set_def rface0_def Let_def)
  then have rf1: "renderableFaces w1 = [Some (rface0\<lparr>m_coordinates := [0x43C80000]\<rparr>)]"
    and ft1: "ftFaces w1 = [Some (face0\<lparr>design_coords := [400 * 65536]\<rparr>)]"
    and ff1: "fontFiles w1 = [Some \<lparr>ff_retainCount = 2\<rparr>]"
    by (auto simp: RenderableFace_setupCoordinates_def FT_Set_Var_Design_Coordinates_def
        world0_def heap_get_def heap_set_def rface0_def log_event_def X0_def Let_def)
  obtain w' where w': "api_run X0 w1 [Call_RenderableFace_retain 0,
                    Call_RenderableFace_deriveVariation 0 [0x442F0000],
                    Call_RenderableFace_release 0] = Some w'"
    and live: "heap_get (renderableFaces w') 0 \<noteq> None"
    by (simp add: RenderableFace_retain_def RenderableFace_deriveVariation_def
        RenderableFace_release_def FontFile_createRenderableFace_def RenderableFace_create_def
        RenderableFace_new_def FontFile_retain_def RenderableFace_setupCoordinates_def
        FT_Set_Var_Design_Coordinates_def log_event_def heap_alloc_def
        rf1 ft1 ff1 heap_get_def heap_set_def rface0_def face0_def X0_def Let_def)
  then obtain self' where s: "heap_get (renderableFaces w') 0 = Some self'" by auto
  from RenderableFace_coordinates_immutable [OF w1 w' s] w1 w' s show ?thesis by blast
qed

text \<open>
  C10. In every world that operations of the two classes and font-function calls have
  built from one without ShapableFaces, the ShapableFace that \<^verbatim>\<open>deriveVariation\<close> produces
  stores a root that exists and has no root of its own, also when the parent is itself a
  derived face: root chains have depth at most one.
\<close>

theorem ShapableFace_root_not_derived:
  assumes "shapableFaces w0 = []"
    and "api_run X w0 calls = Some w"
    and "ShapableFace_deriveVariation X w parent r = Some (q, w')"
  shows "\<exists>a root b. heap_get (shapableFaces w') q = Some a \<and> m_rootFace a = Some root \<and>
           heap_get (shapableFaces w') root = Some b \<and> m_rootFace b = None"
proof -
  have "roots_flat w0" using assms(1) by (simp add: roots_flat_def heap_get_def)
  then have "roots_flat w" by (rule api_run_roots_flat [OF assms(2)])
  with ShapableFace_deriveVariation_root [OF assms(3)] show ?thesis by blast
qed


theorem ShapableFace_root_not_derived_witness:
  "\<exists>w w' q par a root b.
     api_run X0 world_base [Call_ShapableFace_create 0, Call_ShapableFace_deriveVariation 0 0]
       = Some w \<and>
     heap_get (shapableFaces w) 1 = Some par \<and> m_rootFace par = Some 0 \<and>
     ShapableFace_deriveVariation X0 w 1 0 = Some (q, w') \<and>
     heap_get (shapableFaces w') q = Some a \<and> m_rootFace a = Some root \<and>
     heap_get (shapableFaces w') root = Some b \<and> m_rootFace b = None"
proof -
  have base: "shapableFaces world_base = []"
    by (simp add: world_base_def)
  obtain w where run: "api_run X0 world_base
      [Call_ShapableFace_create 0, Call_ShapableFace_deriveVariation 0 0] = Some w"
    and sf: "shapableFaces w =
      [Some \<lparr>m_rootFace = None, m_renderableFace = 0, m_hbFont = 0,
              m_advanceCache = dm_new, sf_retainCount = 2\<rparr>,
       Some \<lparr>m_rootFace = Some 0, m_renderableFace = 0, m_hbFont = 1,
              m_advanceCache = dm_new, sf_retainCount = 1\<rparr>]"
    and rf: "renderableFaces w = [Some (rface0\<lparr>m_retainCount := 4\<rparr>)]"
    and hf: "hbFonts w =
      [Some \<lparr>hb_parent = None, hb_face = 0, hb_font_data = Some 0, hb_var_coords = None\<rparr>,
       Some \<lparr>hb_parent = Some 0, hb_face = 0, hb_font_data = Some 1, hb_var_coords = None\<rparr>]"
    by (simp add: exec_defs world_base_def world0_def rface0_def face0_def X0_def)
  obtain q w' where d: "ShapableFace_deriveVariation X0 w 1 0 = Some (q, w')"
    by (simp add: exec_defs sf rf hf rface0_def X0_def)
  obtain par where par: "heap_get (shapableFaces w) 1 = Some par" "m_rootFace par = Some 0"
    by (simp add: sf heap_get_def)
  from ShapableFace_root_not_derived [OF base run d] obtain a root b where
    "heap_get (shapableFaces w') q = Some a" "m_rootFace a = Some root"
    "heap_get (shapableFaces w') root = Some b" "m_rootFace b = None"
    by blast
  with run par d show ?thesis by blast
qed

subsection \<open>ShapableFace::deriveVariation\<close>

lemma RenderableFace_coordinates_retainCount:
  "RenderableFace_coordinates (rf\<lparr>m_retainCount := n\<rparr>) = RenderableFace_coordinates rf"
  by (simp add: RenderableFace_coordinates_def)

lemma ShapableFace_deriveVariation_struct:
  assumes par: "heap_get (shapableFaces w) parent = Some par"
    and root: "heap_get (shapableFaces w) (case m_rootFace par of Some x \<Rightarrow> x | None \<Rightarrow> parent)
                 = Some root"
    and rfont: "heap_get (hbFonts w) (m_hbFont root) = Some rootFont"
    and rf: "heap_get (renderableFaces w) r = Some rf"
  shows "\<exists>q w' a font.
      ShapableFace_deriveVariation X w parent r = Some (q, w') \<and>
      heap_get (shapableFaces w) q = None \<and>
      heap_get (shapableFaces w') q = Some a \<and>
      m_renderableFace a = r \<and> m_advanceCache a = cache_new X \<and> sf_retainCount a = 1 \<and>
      m_rootFace a = Some (case m_rootFace par of Some x \<Rightarrow> x | None \<Rightarrow> parent) \<and>
      heap_get (hbFonts w) (m_hbFont a) = None \<and>
      heap_get (hbFonts w') (m_hbFont a) = Some font \<and>
      hb_parent font = Some (m_hbFont root) \<and> hb_face font = hb_face rootFont \<and>
      hb_font_data font = Some q \<and>
      hb_var_coords font = (case RenderableFace_coordinates rf of
                              None \<Rightarrow> hb_var_coords rootFont | Some c \<Rightarrow> Some c) \<and>
      heap_get (hbFonts w') (m_hbFont root) = Some rootFont \<and>
      heap_get (shapableFaces w') (case m_rootFace par of Some x \<Rightarrow> x | None \<Rightarrow> parent)
        = Some (root\<lparr>sf_retainCount := sf_retainCount root + 1\<rparr>) \<and>
      heap_get (renderableFaces w') r = Some (rf\<lparr>m_retainCount := m_retainCount rf + 1\<rparr>) \<and>
      ftFaces w' = ftFaces w \<and> trace w' = trace w"
proof -
  define rootFace where "rootFace = (case m_rootFace par of Some x \<Rightarrow> x | None \<Rightarrow> parent)"
  note root' = root [folded rootFace_def]
  note lt = heap_get_Some_less [OF par] heap_get_Some_less [OF root']
    heap_get_Some_less [OF rfont] heap_get_Some_less [OF rf]
  have ne: "rootFace \<noteq> length (shapableFaces w)" "m_hbFont root \<noteq> length (hbFonts w)"
    using lt by simp_all
  show ?thesis
    unfolding rootFace_def [symmetric]
    using par root' rfont rf lt ne
    by (simp add: ShapableFace_deriveVariation_def RenderableFace_retain_def
        hb_font_create_sub_font_def hb_font_set_funcs_def ShapableFace_retain_def
        ShapableFace_setupCoordinates_def hb_font_set_var_coords_design_def
        heap_alloc_def heap_get_set heap_get_append heap_get_length length_heap_set Let_def
        rootFace_def [symmetric] RenderableFace_coordinates_retainCount
        split: option.splits)
qed


text \<open>
  C4. For every ShapableFace \<open>parent\<close> and RenderableFace \<open>r\<close>, \<^verbatim>\<open>deriveVariation\<close> returns
  a new ShapableFace whose font is a new sub-font of the font of the parent's root (of the
  parent itself when it has no root): the sub-font has that font as its parent and shares
  its face, the table data. The font functions of the sub-font are called with the new
  instance, which wraps \<open>r\<close> (retained once more) and a newly constructed AdvanceCache, so
  its glyph and advance queries go to the native face of \<open>r\<close>; its coordinates are those
  of \<open>r\<close> when \<open>r\<close> has any. The new instance stores the root and has retained it.
\<close>

theorem ShapableFace_deriveVariation_sub_font:
  assumes par: "heap_get (shapableFaces w) parent = Some par"
    and root: "heap_get (shapableFaces w) (case m_rootFace par of Some x \<Rightarrow> x | None \<Rightarrow> parent)
                 = Some root"
    and rfont: "heap_get (hbFonts w) (m_hbFont root) = Some rootFont"
    and rf: "heap_get (renderableFaces w) r = Some rf"
  shows "\<exists>q w' a font.
      ShapableFace_deriveVariation X w parent r = Some (q, w') \<and>
      heap_get (shapableFaces w) q = None \<and>
      heap_get (shapableFaces w') q = Some a \<and>
      m_renderableFace a = r \<and> m_advanceCache a = cache_new X \<and> sf_retainCount a = 1 \<and>
      m_rootFace a = Some (case m_rootFace par of Some x \<Rightarrow> x | None \<Rightarrow> parent) \<and>
      heap_get (hbFonts w) (m_hbFont a) = None \<and>
      heap_get (hbFonts w') (m_hbFont a) = Some font \<and>
      hb_parent font = Some (m_hbFont root) \<and> hb_face font = hb_face rootFont \<and>
      hb_font_data font = Some q \<and>
      hb_var_coords font = (case RenderableFace_coordinates rf of
                              None \<Rightarrow> hb_var_coords rootFont | Some c \<Rightarrow> Some c) \<and>
      heap_get (hbFonts w') (m_hbFont root) = Some rootFont \<and>
      heap_get (shapableFaces w') (case m_rootFace par of Some x \<Rightarrow> x | None \<Rightarrow> parent)
        = Some (root\<lparr>sf_retainCount := sf_retainCount root + 1\<rparr>) \<and>
      heap_get (renderableFaces w') r = Some (rf\<lparr>m_retainCount := m_retainCount rf + 1\<rparr>) \<and>
      (\<forall>f u. heap_get (ftFaces w) (m_ftFace rf) = Some f \<and> \<not> lock_held (trace w) \<longrightarrow>
         nominal_glyph X w' q u =
           Some (if ft_char_index X f u = 0 then None else Some (ft_char_index X f u),
                 w'\<lparr>trace := trace w @
                   [MutexLock, Ev_FT_Get_Char_Index (m_ftFace rf) u, MutexUnlock]\<rparr>)) \<and>
      (\<forall>f g. heap_get (ftFaces w) (m_ftFace rf) = Some f \<and> \<not> lock_held (trace w) \<longrightarrow>
         glyph_h_advance X w' q g =
           (case cache_get X (cache_new X) (ucast g) of
              Some v \<Rightarrow>
                Some (v, w'\<lparr>trace := trace w @
                             [MutexLock, Ev_cache_get q (ucast g), MutexUnlock]\<rparr>)
            | None \<Rightarrow>
                let v = word_of_int (case ft_advance X f (ucast (ucast g :: 16 word)) of
                                       None \<Rightarrow> 0 | Some x \<Rightarrow> x)
                in Some (v, w'\<lparr>shapableFaces := heap_set (shapableFaces w') q
                                  (a\<lparr>m_advanceCache := cache_put X (cache_new X) (ucast g) v\<rparr>),
                              trace := trace w @
                                [MutexLock, Ev_cache_get q (ucast g),
                                 Ev_FT_Get_Advance (m_ftFace rf) (ucast (ucast g :: 16 word)),
                                 Ev_cache_put q (ucast g) v, MutexUnlock]\<rparr>)))"
proof -
  from ShapableFace_deriveVariation_struct [OF par root rfont rf, of X]
  obtain q w' a font where
    d: "ShapableFace_deriveVariation X w parent r = Some (q, w')"
    and a: "heap_get (shapableFaces w') q = Some a"
    and ar: "m_renderableFace a = r" and ac: "m_advanceCache a = cache_new X"
    and r': "heap_get (renderableFaces w') r = Some (rf\<lparr>m_retainCount := m_retainCount rf + 1\<rparr>)"
    and same: "ftFaces w' = ftFaces w" "trace w' = trace w"
    and rest: "heap_get (shapableFaces w) q = None \<and>
      sf_retainCount a = 1 \<and>
      m_rootFace a = Some (case m_rootFace par of Some x \<Rightarrow> x | None \<Rightarrow> parent) \<and>
      heap_get (hbFonts w) (m_hbFont a) = None \<and>
      heap_get (hbFonts w') (m_hbFont a) = Some font \<and>
      hb_parent font = Some (m_hbFont root) \<and> hb_face font = hb_face rootFont \<and>
      hb_font_data font = Some q \<and>
      hb_var_coords font = (case RenderableFace_coordinates rf of
                              None \<Rightarrow> hb_var_coords rootFont | Some c \<Rightarrow> Some c) \<and>
      heap_get (hbFonts w') (m_hbFont root) = Some rootFont \<and>
      heap_get (shapableFaces w') (case m_rootFace par of Some x \<Rightarrow> x | None \<Rightarrow> parent)
        = Some (root\<lparr>sf_retainCount := sf_retainCount root + 1\<rparr>)"
    by blast
  have ng: "nominal_glyph X w' q u =
           Some (if ft_char_index X f u = 0 then None else Some (ft_char_index X f u),
                 w'\<lparr>trace := trace w @
                   [MutexLock, Ev_FT_Get_Char_Index (m_ftFace rf) u, MutexUnlock]\<rparr>)"
    if "heap_get (ftFaces w) (m_ftFace rf) = Some f \<and> \<not> lock_held (trace w)" for f u
    using nominal_glyph_char [OF a, of "rf\<lparr>m_retainCount := m_retainCount rf + 1\<rparr>" f X u]
      that r' ar same by simp
  have ha: "glyph_h_advance X w' q g =
           (case cache_get X (cache_new X) (ucast g) of
              Some v \<Rightarrow>
                Some (v, w'\<lparr>trace := trace w @
                             [MutexLock, Ev_cache_get q (ucast g), MutexUnlock]\<rparr>)
            | None \<Rightarrow>
                let v = word_of_int (case ft_advance X f (ucast (ucast g :: 16 word)) of
                                       None \<Rightarrow> 0 | Some x \<Rightarrow> x)
                in Some (v, w'\<lparr>shapableFaces := heap_set (shapableFaces w') q
                                  (a\<lparr>m_advanceCache := cache_put X (cache_new X) (ucast g) v\<rparr>),
                              trace := trace w @
                                [MutexLock, Ev_cache_get q (ucast g),
                                 Ev_FT_Get_Advance (m_ftFace rf) (ucast (ucast g :: 16 word)),
                                 Ev_cache_put q (ucast g) v, MutexUnlock]\<rparr>))"
    if "heap_get (ftFaces w) (m_ftFace rf) = Some f \<and> \<not> lock_held (trace w)" for f g
    using glyph_h_advance_char [OF a, of "rf\<lparr>m_retainCount := m_retainCount rf + 1\<rparr>" f X g]
      that r' ar ac same by (simp cong: option.case_cong)
  from d a ar ac r' rest ng ha show ?thesis by blast
qed


theorem ShapableFace_deriveVariation_sub_font_witness:
  "\<exists>q w' a font w2 w3.
     ShapableFace_deriveVariation X0 world1 0 1 = Some (q, w') \<and>
     heap_get (shapableFaces w') q = Some a \<and>
     m_renderableFace a = 1 \<and> m_rootFace a = Some 0 \<and> m_advanceCache a = dm_new \<and>
     heap_get (hbFonts w') (m_hbFont a) = Some font \<and>
     hb_parent font = Some 0 \<and> hb_face font = 0 \<and> hb_font_data font = Some q \<and>
     hb_var_coords font = Some [0x442F0000] \<and>
     nominal_glyph X0 w' q 0x41 = Some (Some 1, w2) \<and>
     glyph_h_advance X0 w' q 3 = Some (1203, w3)"
proof -
  have par: "heap_get (shapableFaces world1) 0 = Some sface0"
    and rfont: "heap_get (hbFonts world1) (m_hbFont sface0) =
      Some \<lparr>hb_parent = None, hb_face = 0, hb_font_data = Some 0, hb_var_coords = None\<rparr>"
    and rf: "heap_get (renderableFaces world1) 1 = Some rface1"
    and ft: "heap_get (ftFaces world1) (m_ftFace rface1) = Some face1"
    and ul: "\<not> lock_held (trace world1)"
    by (simp_all add: world1_def world0_def heap_get_def sface0_def rface1_def lock_held_def)
  have root: "heap_get (shapableFaces world1)
      (case m_rootFace sface0 of Some x \<Rightarrow> x | None \<Rightarrow> 0) = Some sface0"
    using par by (simp add: sface0_def)
  have ev: "m_rootFace sface0 = None" "m_hbFont sface0 = 0"
    "RenderableFace_coordinates rface1 = Some [0x442F0000]"
    "cache_new X0 = dm_new" "cache_get X0 dm_new 3 = None"
    "ft_advance X0 face1 3 = Some 1203"
    "ft_char_index X0 face1 0x41 = 1"
    by (simp_all add: sface0_def rface1_def RenderableFace_coordinates_def X0_def dm_get_def
        dm_new_def face1_def face0_def)
  from ShapableFace_deriveVariation_sub_font [OF par root rfont rf, of X0]
  obtain q w' a font where
    d: "ShapableFace_deriveVariation X0 world1 0 1 = Some (q, w')"
    and a: "heap_get (shapableFaces w') q = Some a" "m_renderableFace a = 1"
      "m_advanceCache a = cache_new X0"
      "m_rootFace a = Some (case m_rootFace sface0 of Some x \<Rightarrow> x | None \<Rightarrow> 0)"
    and f: "heap_get (hbFonts w') (m_hbFont a) = Some font"
      "hb_parent font = Some (m_hbFont sface0)"
      "hb_face font = hb_face \<lparr>hb_parent = None, hb_face = 0, hb_font_data = Some 0,
                               hb_var_coords = None\<rparr>"
      "hb_font_data font = Some q"
      "hb_var_coords font = (case RenderableFace_coordinates rface1 of
          None \<Rightarrow> hb_var_coords \<lparr>hb_parent = None, hb_face = 0, hb_font_data = Some 0,
                               hb_var_coords = None\<rparr>
        | Some c \<Rightarrow> Some c)"
    and ng: "\<forall>f u. heap_get (ftFaces world1) (m_ftFace rface1) = Some f \<and>
               \<not> lock_held (trace world1) \<longrightarrow>
         nominal_glyph X0 w' q u =
           Some (if ft_char_index X0 f u = 0 then None else Some (ft_char_index X0 f u),
                 w'\<lparr>trace := trace world1 @
                   [MutexLock, Ev_FT_Get_Char_Index (m_ftFace rface1) u, MutexUnlock]\<rparr>)"
    and ha: "\<forall>f g. heap_get (ftFaces world1) (m_ftFace rface1) = Some f \<and>
               \<not> lock_held (trace world1) \<longrightarrow>
         glyph_h_advance X0 w' q g =
           (case cache_get X0 (cache_new X0) (ucast g) of
              Some v \<Rightarrow>
                Some (v, w'\<lparr>trace := trace world1 @
                             [MutexLock, Ev_cache_get q (ucast g), MutexUnlock]\<rparr>)
            | None \<Rightarrow>
                let v = word_of_int (case ft_advance X0 f (ucast (ucast g :: 16 word)) of
                                       None \<Rightarrow> 0 | Some x \<Rightarrow> x)
                in Some (v, w'\<lparr>shapableFaces := heap_set (shapableFaces w') q
                                  (a\<lparr>m_advanceCache := cache_put X0 (cache_new X0) (ucast g) v\<rparr>),
                              trace := trace world1 @
                                [MutexLock, Ev_cache_get q (ucast g),
                                 Ev_FT_Get_Advance (m_ftFace rface1) (ucast (ucast g :: 16 word)),
                                 Ev_cache_put q (ucast g) v, MutexUnlock]\<rparr>))"
    by blast
  from ng [rule_format, of face1 "0x41"] ft ul obtain w2 where
    1: "nominal_glyph X0 w' q 0x41 = Some (Some 1, w2)"
    by (simp add: ev)
  from ha [rule_format, of face1 3] ft ul obtain w3 where
    2: "glyph_h_advance X0 w' q 3 = Some (1203, w3)"
    by (simp add: ev Let_def)
  from d a f 1 2 show ?thesis
    by (simp add: ev)
qed

subsection \<open>Memory\<close>

lemma store32_outside: "\<not> in_slot a x \<Longrightarrow> store32 m a v x = m x"
  by (auto simp: store32_def in_slot_def)

lemma load32_cong: "(\<And>x. in_slot a x \<Longrightarrow> m' x = m x) \<Longrightarrow> load32 m' a = load32 m a"
  by (simp add: load32_def in_slot_def)

lemma load32_store32_same: "load32 (store32 m a v) a = v"
  unfolding load32_def store32_def
  apply simp
  apply (rule bit_word_eqI)
  apply (auto simp add: bit_simps)
  subgoal for n by (cases "24 \<le> n") simp_all
  done

lemma slots_disjoint_in_slot: "slots_disjoint a b \<Longrightarrow> in_slot b x \<Longrightarrow> \<not> in_slot a x"
  by (auto simp: slots_disjoint_def in_slot_def)

lemma load32_store32_disjoint: "slots_disjoint a b \<Longrightarrow> load32 (store32 m a v) b = load32 m b"
  by (rule load32_cong) (simp add: store32_outside slots_disjoint_in_slot)

subsection \<open>The batch nominal-glyph callback\<close>

lemma nominal_glyphs_loop_spec:
  fixes X :: "'c extern" and w :: "'c world"
  assumes ft: "heap_get (ftFaces w) ftFace = Some f"
    and sep: "\<forall>i j. d \<le> i \<and> i < j \<and> j < count \<longrightarrow> slots_disjoint (fg + i * gs) (fu + j * us)"
  shows "\<exists>k m'.
     nominal_glyphs_loop X ftFace count us gs d (fu + d * us) (fg + d * gs) w =
       Some (k, w\<lparr>memory := m',
                  trace := trace w @
                    map (\<lambda>i. Ev_FT_Get_Char_Index ftFace (load32 (memory w) (fu + i * us)))
                      [d..<(if k < count then Suc k else k)]\<rparr>) \<and>
     d \<le> k \<and> (d \<le> count \<longrightarrow> k \<le> count) \<and>
     (\<forall>i. d \<le> i \<and> i < k \<longrightarrow> ft_char_index X f (load32 (memory w) (fu + i * us)) \<noteq> 0) \<and>
     (k < count \<longrightarrow> ft_char_index X f (load32 (memory w) (fu + k * us)) = 0) \<and>
     (\<forall>x. (\<forall>i. d \<le> i \<and> i < k \<longrightarrow> \<not> in_slot (fg + i * gs) x) \<longrightarrow> m' x = memory w x) \<and>
     (\<forall>i. d \<le> i \<and> i < k \<and> (\<forall>j. i < j \<and> j < k \<longrightarrow> slots_disjoint (fg + i * gs) (fg + j * gs))
          \<longrightarrow> load32 m' (fg + i * gs) = ft_char_index X f (load32 (memory w) (fu + i * us)))"
  using ft sep
proof (induction "count - d" arbitrary: d w)
  case 0
  then have "\<not> d < count" by simp
  then have "nominal_glyphs_loop X ftFace count us gs d (fu + d * us) (fg + d * gs) w = Some (d, w)"
    by (simp add: nominal_glyphs_loop.simps)
  with \<open>\<not> d < count\<close> show ?case
    by (intro exI [of _ d] exI [of _ "memory w"]) auto
next
  case (Suc n)
  then have lt: "d < count" by simp
  let ?u = "\<lambda>w i. load32 (memory w) (fu + i * us)"
  let ?g = "ft_char_index X f (?u w d)"
  let ?ev = "\<lambda>w i. Ev_FT_Get_Char_Index ftFace (?u w i)"
  have q: "FT_Get_Char_Index X w ftFace (?u w d) = Some (?g, log_event w (?ev w d))"
    using Suc.prems(1) by (simp add: FT_Get_Char_Index_def)
  show ?case
  proof (cases "?g = 0")
    case True
    with lt q have "nominal_glyphs_loop X ftFace count us gs d (fu + d * us) (fg + d * gs) w
        = Some (d, log_event w (?ev w d))"
      by (simp add: nominal_glyphs_loop.simps [of X ftFace count us gs d])
    with lt True show ?thesis
      by (intro exI [of _ d] exI [of _ "memory w"]) (auto simp: log_event_def)
  next
    case False
    define w1 where "w1 = (log_event w (?ev w d))\<lparr>memory := store32 (memory w) (fg + d * gs) ?g\<rparr>"
    have p1: "fu + d * us + us = fu + Suc d * us" and p2: "fg + d * gs + gs = fg + Suc d * gs"
      by simp_all
    have step: "nominal_glyphs_loop X ftFace count us gs d (fu + d * us) (fg + d * gs) w =
        nominal_glyphs_loop X ftFace count us gs (Suc d) (fu + Suc d * us) (fg + Suc d * gs) w1"
      using lt q False unfolding p1 [symmetric] p2 [symmetric]
      by (simp add: nominal_glyphs_loop.simps [of X ftFace count us gs d] w1_def log_event_def)
    have ft1: "heap_get (ftFaces w1) ftFace = Some f"
      using Suc.prems(1) by (simp add: w1_def log_event_def)
    have sep1: "\<forall>i j. Suc d \<le> i \<and> i < j \<and> j < count
                  \<longrightarrow> slots_disjoint (fg + i * gs) (fu + j * us)"
      using Suc.prems(2) by auto
    have n: "n = count - Suc d" using Suc.hyps(2) by simp
    from Suc.hyps(1) [OF n ft1 sep1] obtain k m' where
      r: "nominal_glyphs_loop X ftFace count us gs (Suc d) (fu + Suc d * us) (fg + Suc d * gs) w1 =
           Some (k, w1\<lparr>memory := m',
                  trace := trace w1 @ map (?ev w1) [Suc d..<(if k < count then Suc k else k)]\<rparr>)"
      and k: "Suc d \<le> k" "k \<le> count"
      and mapped: "\<forall>i. Suc d \<le> i \<and> i < k \<longrightarrow> ft_char_index X f (?u w1 i) \<noteq> 0"
      and stop: "k < count \<longrightarrow> ft_char_index X f (?u w1 k) = 0"
      and frame: "\<forall>x. (\<forall>i. Suc d \<le> i \<and> i < k \<longrightarrow> \<not> in_slot (fg + i * gs) x)
                    \<longrightarrow> m' x = memory w1 x"
      and out: "\<forall>i. Suc d \<le> i \<and> i < k \<and>
                  (\<forall>j. i < j \<and> j < k \<longrightarrow> slots_disjoint (fg + i * gs) (fg + j * gs))
                  \<longrightarrow> load32 m' (fg + i * gs) = ft_char_index X f (?u w1 i)"
      using lt by auto
    have rd: "?u w1 i = ?u w i" if "d < i" "i < count" for i
      using Suc.prems(2) that
      by (simp add: w1_def log_event_def load32_store32_disjoint)
    let ?K = "if k < count then Suc k else k"
    have K: "?K \<le> count" "d < ?K" using k by auto
    have evs: "map (?ev w1) [Suc d..<?K] = map (?ev w) [Suc d..<?K]"
      using K(1) by (intro map_cong refl) (simp add: rd)
    have upt: "[d..<?K] = d # [Suc d..<?K]"
      using K(2) by (simp add: upt_conv_Cons)
    have res: "w1\<lparr>memory := m', trace := trace w1 @ map (?ev w1) [Suc d..<?K]\<rparr> =
               w\<lparr>memory := m', trace := trace w @ map (?ev w) [d..<?K]\<rparr>"
      unfolding evs upt by (simp add: w1_def log_event_def)
    have mapped': "\<forall>i. d \<le> i \<and> i < k \<longrightarrow> ft_char_index X f (?u w i) \<noteq> 0"
    proof (intro allI impI)
      fix i assume i: "d \<le> i \<and> i < k"
      show "ft_char_index X f (?u w i) \<noteq> 0"
      proof (cases "i = d")
        case True with False show ?thesis by simp
      next
        case False
        with i have "Suc d \<le> i \<and> i < k" by auto
        with mapped have "ft_char_index X f (?u w1 i) \<noteq> 0" by blast
        moreover have "?u w1 i = ?u w i" using rd [of i] i False k by auto
        ultimately show ?thesis by simp
      qed
    qed
    have stop': "k < count \<longrightarrow> ft_char_index X f (?u w k) = 0"
      using stop rd [of k] k by auto
    have frame': "\<forall>x. (\<forall>i. d \<le> i \<and> i < k \<longrightarrow> \<not> in_slot (fg + i * gs) x)
                    \<longrightarrow> m' x = memory w x"
    proof (intro allI impI)
      fix x assume a: "\<forall>i. d \<le> i \<and> i < k \<longrightarrow> \<not> in_slot (fg + i * gs) x"
      then have "m' x = memory w1 x" using frame by auto
      moreover have "\<not> in_slot (fg + d * gs) x" using a k by auto
      then have "memory w1 x = memory w x"
        by (simp add: w1_def log_event_def store32_outside)
      ultimately show "m' x = memory w x" by simp
    qed
    have out': "\<forall>i. d \<le> i \<and> i < k \<and>
                  (\<forall>j. i < j \<and> j < k \<longrightarrow> slots_disjoint (fg + i * gs) (fg + j * gs))
                  \<longrightarrow> load32 m' (fg + i * gs) = ft_char_index X f (?u w i)"
    proof (intro allI impI)
      fix i
      assume i: "d \<le> i \<and> i < k \<and>
                  (\<forall>j. i < j \<and> j < k \<longrightarrow> slots_disjoint (fg + i * gs) (fg + j * gs))"
      show "load32 m' (fg + i * gs) = ft_char_index X f (?u w i)"
      proof (cases "i = d")
        case True
        have "load32 m' (fg + d * gs) = load32 (memory w1) (fg + d * gs)"
        proof (rule load32_cong)
          fix x assume x: "in_slot (fg + d * gs) x"
          have "\<forall>j. Suc d \<le> j \<and> j < k \<longrightarrow> \<not> in_slot (fg + j * gs) x"
          proof (intro allI impI)
            fix j assume j: "Suc d \<le> j \<and> j < k"
            with i True have "slots_disjoint (fg + d * gs) (fg + j * gs)" by auto
            with x show "\<not> in_slot (fg + j * gs) x"
              by (auto simp: slots_disjoint_def in_slot_def)
          qed
          with frame show "m' x = memory w1 x" by auto
        qed
        also have "\<dots> = ?g" by (simp add: w1_def log_event_def load32_store32_same)
        finally show ?thesis using True by simp
      next
        case False
        with i have "Suc d \<le> i" by auto
        with i out have "load32 m' (fg + i * gs) = ft_char_index X f (?u w1 i)" by auto
        with rd [of i] \<open>Suc d \<le> i\<close> i k show ?thesis by auto
      qed
    qed
    from step r res k mapped' stop' frame' out' show ?thesis
      by (intro exI [of _ k] exI [of _ m']) (simp del: upt_Suc)
  qed
qed

lemma lock_step_char_index:
  "foldl lock_step h (map (\<lambda>i. Ev_FT_Get_Char_Index a (g i)) xs) = h"
  by (induction xs arbitrary: h) (simp_all add: lock_step_def)

text \<open>
  C1. For every strided input sequence of code points whose output slots overlap neither
  each other nor an input entry that is read later, the batch nominal-glyph callback
  resolves the leading entries, one engine query each under one lock acquisition, until
  the first code point the engine maps to glyph 0: it returns the number \<open>k\<close> of entries
  before that point, output slot \<open>i < k\<close> holds the glyph of entry \<open>i\<close>, and no byte outside
  the first \<open>k\<close> output slots is written, so the slot at the unmapped position and every
  later slot are as they were.
\<close>

theorem nominal_glyphs_short_circuit:
  fixes X :: "'c extern" and w :: "'c world"
  assumes inst: "heap_get (shapableFaces w) object = Some inst"
    and rf: "heap_get (renderableFaces w) (m_renderableFace inst) = Some rf"
    and ft: "heap_get (ftFaces w) (m_ftFace rf) = Some f"
    and ul: "\<not> lock_held (trace w)"
    and sep_io: "\<forall>i j. i < j \<and> j < count \<longrightarrow>
        slots_disjoint (firstGlyph + i * glyphStride) (firstUnicode + j * unicodeStride)"
    and sep_out: "\<forall>i j. i < j \<and> j < count \<longrightarrow>
        slots_disjoint (firstGlyph + i * glyphStride) (firstGlyph + j * glyphStride)"
  shows "\<exists>k m'.
     nominal_glyphs X w object count firstUnicode unicodeStride firstGlyph glyphStride =
       Some (k, w\<lparr>memory := m',
                  trace := trace w @ [MutexLock] @
                    map (\<lambda>i. Ev_FT_Get_Char_Index (m_ftFace rf)
                               (load32 (memory w) (firstUnicode + i * unicodeStride)))
                      [0..<(if k < count then Suc k else k)] @ [MutexUnlock]\<rparr>) \<and>
     k \<le> count \<and>
     (\<forall>i<k. ft_char_index X f (load32 (memory w) (firstUnicode + i * unicodeStride)) \<noteq> 0 \<and>
            load32 m' (firstGlyph + i * glyphStride) =
              ft_char_index X f (load32 (memory w) (firstUnicode + i * unicodeStride))) \<and>
     (k < count \<longrightarrow>
        ft_char_index X f (load32 (memory w) (firstUnicode + k * unicodeStride)) = 0) \<and>
     (\<forall>j x. k \<le> j \<and> j < count \<and> in_slot (firstGlyph + j * glyphStride) x \<longrightarrow>
            m' x = memory w x) \<and>
     (\<forall>x. (\<forall>i<k. \<not> in_slot (firstGlyph + i * glyphStride) x) \<longrightarrow> m' x = memory w x)"
proof -
  define w1 where "w1 = log_event w MutexLock"
  have ft1: "heap_get (ftFaces w1) (m_ftFace rf) = Some f"
    using ft by (simp add: w1_def log_event_def)
  have sep1: "\<forall>i j. 0 \<le> i \<and> i < j \<and> j < count \<longrightarrow>
      slots_disjoint (firstGlyph + i * glyphStride) (firstUnicode + j * unicodeStride)"
    using sep_io by simp
  let ?ev = "\<lambda>i. Ev_FT_Get_Char_Index (m_ftFace rf)
                  (load32 (memory w) (firstUnicode + i * unicodeStride))"
  from nominal_glyphs_loop_spec [where X = X, OF ft1 sep1]
  obtain k m' where
    r: "nominal_glyphs_loop X (m_ftFace rf) count unicodeStride glyphStride 0
          firstUnicode firstGlyph w1 =
          Some (k, w1\<lparr>memory := m',
                  trace := trace w1 @ map ?ev [0..<(if k < count then Suc k else k)]\<rparr>)"
    and k: "k \<le> count"
    and mapped: "\<forall>i. i < k \<longrightarrow>
        ft_char_index X f (load32 (memory w) (firstUnicode + i * unicodeStride)) \<noteq> 0"
    and stop: "k < count \<longrightarrow>
        ft_char_index X f (load32 (memory w) (firstUnicode + k * unicodeStride)) = 0"
    and frame: "\<forall>x. (\<forall>i. i < k \<longrightarrow> \<not> in_slot (firstGlyph + i * glyphStride) x)
                    \<longrightarrow> m' x = memory w x"
    and out: "\<forall>i. i < k \<and> (\<forall>j. i < j \<and> j < k \<longrightarrow>
          slots_disjoint (firstGlyph + i * glyphStride) (firstGlyph + j * glyphStride))
        \<longrightarrow> load32 m' (firstGlyph + i * glyphStride) =
            ft_char_index X f (load32 (memory w) (firstUnicode + i * unicodeStride))"
    by (auto simp: w1_def log_event_def)
  let ?K = "if k < count then Suc k else k"
  have call: "nominal_glyphs X w object count firstUnicode unicodeStride firstGlyph glyphStride =
       Some (k, w\<lparr>memory := m',
                  trace := trace w @ [MutexLock] @ map ?ev [0..<?K] @ [MutexUnlock]\<rparr>)"
    using inst rf ul r
    by (simp add: nominal_glyphs_def RenderableFace_lock_def RenderableFace_unlock_def
        mutex_lock_def mutex_unlock_def w1_def log_event_def lock_held_append
        lock_step_char_index lock_step_def del: upt_Suc)
  have out': "\<forall>i<k. ft_char_index X f (load32 (memory w) (firstUnicode + i * unicodeStride)) \<noteq> 0 \<and>
            load32 m' (firstGlyph + i * glyphStride) =
              ft_char_index X f (load32 (memory w) (firstUnicode + i * unicodeStride))"
    using mapped out sep_out k by auto
  have rest: "\<forall>j x. k \<le> j \<and> j < count \<and> in_slot (firstGlyph + j * glyphStride) x \<longrightarrow>
            m' x = memory w x"
  proof (intro allI impI)
    fix j x
    assume j: "k \<le> j \<and> j < count \<and> in_slot (firstGlyph + j * glyphStride) x"
    have "\<forall>i. i < k \<longrightarrow> \<not> in_slot (firstGlyph + i * glyphStride) x"
    proof (intro allI impI)
      fix i assume "i < k"
      with j sep_out have "slots_disjoint (firstGlyph + i * glyphStride) (firstGlyph + j * glyphStride)"
        by auto
      with j show "\<not> in_slot (firstGlyph + i * glyphStride) x"
        by (auto dest: slots_disjoint_in_slot)
    qed
    with frame show "m' x = memory w x" by blast
  qed
  from call k out' stop rest frame show ?thesis
    by (intro exI [of _ k] exI [of _ m']) simp
qed

lemma buffer5_loads:
  "load32 buffer5 1000 = 0x41" "load32 buffer5 1020 = 0x42" "load32 buffer5 1040 = 0x3A9"
  "load32 buffer5 1052 = 0xFFFFFFFF" "load32 buffer5 1072 = 0xFFFFFFFF"
  "load32 buffer5 1092 = 0xFFFFFFFF"
  by (simp_all add: buffer5_def load32_def store32_def)

theorem nominal_glyphs_short_circuit_witness:
  "\<exists>w'. nominal_glyphs X0 (world0\<lparr>memory := buffer5\<rparr>) 0 5 1000 20 1012 20 = Some (2, w') \<and>
        load32 (memory w') 1012 = 1 \<and> load32 (memory w') 1032 = 2 \<and>
        load32 (memory w') 1052 = 0xFFFFFFFF \<and> load32 (memory w') 1072 = 0xFFFFFFFF \<and>
        load32 (memory w') 1092 = 0xFFFFFFFF"
proof -
  let ?w = "world0\<lparr>memory := buffer5\<rparr>"
  have inst: "heap_get (shapableFaces ?w) 0 = Some sface0"
    and rf: "heap_get (renderableFaces ?w) (m_renderableFace sface0) = Some rface0"
    and ft: "heap_get (ftFaces ?w) (m_ftFace rface0) = Some face0"
    and ul: "\<not> lock_held (trace ?w)"
    by (simp_all add: world0_def heap_get_def sface0_def rface0_def lock_held_def)
  have sep_io: "\<forall>i j. i < j \<and> j < (5::nat) \<longrightarrow> slots_disjoint (1012 + i * 20) (1000 + j * 20)"
    and sep_out: "\<forall>i j. i < j \<and> j < (5::nat) \<longrightarrow> slots_disjoint (1012 + i * 20) (1012 + j * 20)"
    by (auto simp: slots_disjoint_def)
  from nominal_glyphs_short_circuit [OF inst rf ft ul sep_io sep_out, of X0]
  obtain k m' w' where
    call: "nominal_glyphs X0 ?w 0 5 1000 20 1012 20 = Some (k, w')" and w': "memory w' = m'"
    and k: "k \<le> 5"
    and mapped: "\<forall>i<k. ft_char_index X0 face0 (load32 buffer5 (1000 + i * 20)) \<noteq> 0 \<and>
            load32 m' (1012 + i * 20) = ft_char_index X0 face0 (load32 buffer5 (1000 + i * 20))"
    and stop: "k < 5 \<longrightarrow> ft_char_index X0 face0 (load32 buffer5 (1000 + k * 20)) = 0"
    and rest: "\<forall>j x. k \<le> j \<and> j < 5 \<and> in_slot (1012 + j * 20) x \<longrightarrow> m' x = buffer5 x"
    by (auto simp del: upt_Suc)
  have ci: "ft_char_index X0 face0 0x41 = 1" "ft_char_index X0 face0 0x42 = 2"
    "ft_char_index X0 face0 0x3A9 = 0"
    by (simp_all add: X0_def)
  have "\<not> 2 < k" using mapped [rule_format, of 2] by (auto simp: buffer5_loads ci)
  moreover have "k \<noteq> 0"
  proof
    assume "k = 0" with stop show False by (simp add: buffer5_loads ci)
  qed
  moreover have "k \<noteq> 1"
  proof
    assume "k = 1" with stop show False by (simp add: buffer5_loads ci)
  qed
  ultimately have k2: "k = 2" by arith
  have o0: "load32 m' 1012 = 1" using mapped [rule_format, of 0] k2 by (simp add: buffer5_loads ci)
  have o1: "load32 m' 1032 = 2" using mapped [rule_format, of 1] k2 by (simp add: buffer5_loads ci)
  have same: "load32 m' (1012 + j * 20) = load32 buffer5 (1012 + j * 20)" if "2 \<le> j" "j < 5" for j
    using rest that k2 by (intro load32_cong) auto
  from same [of 2] same [of 3] same [of 4] call w' k2 o0 o1 show ?thesis
    by (simp add: buffer5_loads)
qed

subsection \<open>The batch horizontal-advance callback\<close>

lemma heap_set_same: "heap_get h p = Some v \<Longrightarrow> heap_set h p v = h"
  by (auto simp: heap_get_def heap_set_def split: if_splits intro: list_update_same_conv [THEN iffD2])

lemma heap_set_twice: "heap_set (heap_set h p a) p b = heap_set h p b"
  by (simp add: heap_set_def)

lemma log_event_fields:
  "memory (log_event w e) = memory w" "shapableFaces (log_event w e) = shapableFaces w"
  "ftFaces (log_event w e) = ftFaces w" "renderableFaces (log_event w e) = renderableFaces w"
  "trace (log_event w e) = trace w @ [e]"
  by (simp_all add: log_event_def)

lemma glyph_h_advances_step:
  fixes X :: "'c extern" and w :: "'c world"
  assumes inst: "heap_get (shapableFaces w) object = Some inst"
    and ft: "heap_get (ftFaces w) ftFace = Some f"
    and lt: "i < count"
  shows "\<exists>evs. MutexLock \<notin> set evs \<and> MutexUnlock \<notin> set evs \<and>
     glyph_h_advances_loop X object ftFace count gs as i gp ap w =
     glyph_h_advances_loop X object ftFace count gs as (Suc i) (gp + gs) (ap + as)
       (w\<lparr>shapableFaces := heap_set (shapableFaces w) object
             (inst\<lparr>m_advanceCache :=
                snd (resolve_advance X f (m_advanceCache inst) (load32 (memory w) gp))\<rparr>),
          memory := store32 (memory w) ap
             (fst (resolve_advance X f (m_advanceCache inst) (load32 (memory w) gp))),
          trace := trace w @ evs\<rparr>)"
proof (cases "cache_get X (m_advanceCache inst) (ucast (load32 (memory w) gp))")
  case (Some a)
  let ?ev = "Ev_cache_get object (ucast (load32 (memory w) gp))"
  define W where "W = (log_event w ?ev)\<lparr>memory := store32 (memory w) ap a\<rparr>"
  have step: "glyph_h_advances_loop X object ftFace count gs as i gp ap w =
     glyph_h_advances_loop X object ftFace count gs as (Suc i) (gp + gs) (ap + as) W"
    using Some inst ft lt
    by (simp add: glyph_h_advances_loop.simps [of X object ftFace count gs as i gp ap w]
        AdvanceCache_get_def W_def log_event_fields)
  have "inst\<lparr>m_advanceCache := m_advanceCache inst\<rparr> = inst" by simp
  then have eq: "W = w\<lparr>shapableFaces := heap_set (shapableFaces w) object
             (inst\<lparr>m_advanceCache :=
                snd (resolve_advance X f (m_advanceCache inst) (load32 (memory w) gp))\<rparr>),
          memory := store32 (memory w) ap
             (fst (resolve_advance X f (m_advanceCache inst) (load32 (memory w) gp))),
          trace := trace w @ [?ev]\<rparr>"
    using Some inst by (simp add: W_def log_event_def resolve_advance_def heap_set_same)
  show ?thesis
    by (rule exI [of _ "[?ev]"]) (simp only: step eq, simp)
next
  case None
  let ?gid = "ucast (load32 (memory w) gp) :: 16 word"
  let ?v = "case ft_advance X f (ucast ?gid) of None \<Rightarrow> 0 | Some v \<Rightarrow> v"
  let ?a = "word_of_int ?v :: 32 word"
  define W where "W = log_event
     ((log_event (log_event w (Ev_cache_get object ?gid)) (Ev_FT_Get_Advance ftFace (ucast ?gid)))
        \<lparr>memory := store32 (memory w) ap ?a,
         shapableFaces := heap_set (shapableFaces w) object
            (inst\<lparr>m_advanceCache := cache_put X (m_advanceCache inst) ?gid ?a\<rparr>)\<rparr>)
     (Ev_cache_put object ?gid ?a)"
  have step: "glyph_h_advances_loop X object ftFace count gs as i gp ap w =
     glyph_h_advances_loop X object ftFace count gs as (Suc i) (gp + gs) (ap + as) W"
    using None inst ft lt
    by (simp add: glyph_h_advances_loop.simps [of X object ftFace count gs as i gp ap w]
        AdvanceCache_get_def AdvanceCache_put_def FT_Get_Advance_def W_def log_event_def)
  have eq: "W = w\<lparr>shapableFaces := heap_set (shapableFaces w) object
             (inst\<lparr>m_advanceCache :=
                snd (resolve_advance X f (m_advanceCache inst) (load32 (memory w) gp))\<rparr>),
          memory := store32 (memory w) ap
             (fst (resolve_advance X f (m_advanceCache inst) (load32 (memory w) gp))),
          trace := trace w @ [Ev_cache_get object ?gid, Ev_FT_Get_Advance ftFace (ucast ?gid),
                          Ev_cache_put object ?gid ?a]\<rparr>"
    using None by (simp add: W_def log_event_def resolve_advance_def Let_def)
  show ?thesis
    by (rule exI [of _ "[Ev_cache_get object ?gid, Ev_FT_Get_Advance ftFace (ucast ?gid),
                          Ev_cache_put object ?gid ?a]"]) (simp only: step eq, simp)
qed

lemma glyph_h_advances_loop_spec:
  fixes X :: "'c extern" and w :: "'c world"
  assumes inst: "heap_get (shapableFaces w) object = Some inst"
    and ft: "heap_get (ftFaces w) ftFace = Some f"
    and sep: "\<forall>i j. d \<le> i \<and> i < j \<and> j < count \<longrightarrow> slots_disjoint (fa + i * as) (fg + j * gs)"
  shows "\<exists>m' evs.
     glyph_h_advances_loop X object ftFace count gs as d (fg + d * gs) (fa + d * as) w =
       Some (w\<lparr>shapableFaces := heap_set (shapableFaces w) object
                   (inst\<lparr>m_advanceCache :=
                      snd (resolve_advances X f (m_advanceCache inst)
                             (map (\<lambda>i. load32 (memory w) (fg + i * gs)) [d..<count]))\<rparr>),
                memory := m', trace := trace w @ evs\<rparr>) \<and>
     MutexLock \<notin> set evs \<and> MutexUnlock \<notin> set evs \<and>
     (\<forall>x. (\<forall>i. d \<le> i \<and> i < count \<longrightarrow> \<not> in_slot (fa + i * as) x) \<longrightarrow> m' x = memory w x) \<and>
     (\<forall>i. d \<le> i \<and> i < count \<and>
          (\<forall>j. i < j \<and> j < count \<longrightarrow> slots_disjoint (fa + i * as) (fa + j * as))
          \<longrightarrow> load32 m' (fa + i * as) =
                fst (resolve_advances X f (m_advanceCache inst)
                       (map (\<lambda>i. load32 (memory w) (fg + i * gs)) [d..<count])) ! (i - d))"
  using inst ft sep
proof (induction "count - d" arbitrary: d w inst)
  case 0
  then have nlt: "\<not> d < count" by simp
  then have "glyph_h_advances_loop X object ftFace count gs as d (fg + d * gs) (fa + d * as) w
      = Some w"
    by (simp add: glyph_h_advances_loop.simps)
  moreover have "w\<lparr>shapableFaces := heap_set (shapableFaces w) object
      (inst\<lparr>m_advanceCache := m_advanceCache inst\<rparr>), memory := memory w, trace := trace w @ []\<rparr> = w"
    using "0.prems"(1) by (simp add: heap_set_same)
  ultimately show ?case
    using nlt by (intro exI [of _ "memory w"] exI [of _ "[]"]) auto
next
  case (Suc n)
  then have lt: "d < count" by simp
  let ?rd = "\<lambda>w i. load32 (memory w) (fg + i * gs)"
  let ?c = "m_advanceCache inst"
  let ?r = "resolve_advance X f ?c (?rd w d)"
  from glyph_h_advances_step [OF Suc.prems(1) Suc.prems(2) lt,
      of X gs as "fg + d * gs" "fa + d * as"]
  obtain evs1 where ev1: "MutexLock \<notin> set evs1" "MutexUnlock \<notin> set evs1"
    and step0: "glyph_h_advances_loop X object ftFace count gs as d (fg + d * gs) (fa + d * as) w =
      glyph_h_advances_loop X object ftFace count gs as (Suc d) (fg + d * gs + gs) (fa + d * as + as)
       (w\<lparr>shapableFaces := heap_set (shapableFaces w) object (inst\<lparr>m_advanceCache := snd ?r\<rparr>),
          memory := store32 (memory w) (fa + d * as) (fst ?r),
          trace := trace w @ evs1\<rparr>)"
    by blast
  define w1 where "w1 = w\<lparr>shapableFaces := heap_set (shapableFaces w) object
          (inst\<lparr>m_advanceCache := snd ?r\<rparr>),
          memory := store32 (memory w) (fa + d * as) (fst ?r),
          trace := trace w @ evs1\<rparr>"
  define inst1 where "inst1 = inst\<lparr>m_advanceCache := snd ?r\<rparr>"
  have p1: "fg + d * gs + gs = fg + Suc d * gs" and p2: "fa + d * as + as = fa + Suc d * as"
    by simp_all
  note step = step0 [folded w1_def, unfolded p1 p2]
  have inst1: "heap_get (shapableFaces w1) object = Some inst1"
    using heap_get_Some_less [OF Suc.prems(1)] by (simp add: w1_def inst1_def heap_get_set)
  have ft1: "heap_get (ftFaces w1) ftFace = Some f"
    using Suc.prems(2) by (simp add: w1_def)
  have sep1: "\<forall>i j. Suc d \<le> i \<and> i < j \<and> j < count
                \<longrightarrow> slots_disjoint (fa + i * as) (fg + j * gs)"
    using Suc.prems(3) by auto
  have n: "n = count - Suc d" using Suc.hyps(2) by simp
  have rd: "?rd w1 i = ?rd w i" if "d < i" "i < count" for i
    using Suc.prems(3) that by (simp add: w1_def load32_store32_disjoint)
  have gl: "map (?rd w1) [Suc d..<count] = map (?rd w) [Suc d..<count]"
    by (intro map_cong refl) (simp add: rd)
  let ?R1 = "resolve_advances X f (snd ?r) (map (?rd w) [Suc d..<count])"
  let ?R = "resolve_advances X f ?c (map (?rd w) [d..<count])"
  have R: "?R = (fst ?r # fst ?R1, snd ?R1)"
    using lt by (simp add: upt_conv_Cons split_beta)
  from Suc.hyps(1) [OF n inst1 ft1 sep1] obtain m' evs where
    r: "glyph_h_advances_loop X object ftFace count gs as (Suc d) (fg + Suc d * gs)
          (fa + Suc d * as) w1 =
        Some (w1\<lparr>shapableFaces := heap_set (shapableFaces w1) object
                   (inst1\<lparr>m_advanceCache := snd ?R1\<rparr>),
                memory := m', trace := trace w1 @ evs\<rparr>)"
    and ev: "MutexLock \<notin> set evs" "MutexUnlock \<notin> set evs"
    and frame: "\<forall>x. (\<forall>i. Suc d \<le> i \<and> i < count \<longrightarrow> \<not> in_slot (fa + i * as) x)
                   \<longrightarrow> m' x = memory w1 x"
    and out: "\<forall>i. Suc d \<le> i \<and> i < count \<and>
          (\<forall>j. i < j \<and> j < count \<longrightarrow> slots_disjoint (fa + i * as) (fa + j * as))
          \<longrightarrow> load32 m' (fa + i * as) = fst ?R1 ! (i - Suc d)"
    unfolding gl by (auto simp: inst1_def)
  have res: "w1\<lparr>shapableFaces := heap_set (shapableFaces w1) object
                   (inst1\<lparr>m_advanceCache := snd ?R1\<rparr>),
                memory := m', trace := trace w1 @ evs\<rparr> =
             w\<lparr>shapableFaces := heap_set (shapableFaces w) object
                   (inst\<lparr>m_advanceCache := snd ?R\<rparr>),
                memory := m', trace := trace w @ (evs1 @ evs)\<rparr>"
    by (simp add: w1_def inst1_def heap_set_twice R)
  have frame': "\<forall>x. (\<forall>i. d \<le> i \<and> i < count \<longrightarrow> \<not> in_slot (fa + i * as) x)
                   \<longrightarrow> m' x = memory w x"
  proof (intro allI impI)
    fix x assume a: "\<forall>i. d \<le> i \<and> i < count \<longrightarrow> \<not> in_slot (fa + i * as) x"
    then have "m' x = memory w1 x" using frame by auto
    moreover have "\<not> in_slot (fa + d * as) x" using a lt by auto
    then have "memory w1 x = memory w x" by (simp add: w1_def store32_outside)
    ultimately show "m' x = memory w x" by simp
  qed
  have out': "\<forall>i. d \<le> i \<and> i < count \<and>
          (\<forall>j. i < j \<and> j < count \<longrightarrow> slots_disjoint (fa + i * as) (fa + j * as))
          \<longrightarrow> load32 m' (fa + i * as) = fst ?R ! (i - d)"
  proof (intro allI impI)
    fix i
    assume i: "d \<le> i \<and> i < count \<and>
          (\<forall>j. i < j \<and> j < count \<longrightarrow> slots_disjoint (fa + i * as) (fa + j * as))"
    show "load32 m' (fa + i * as) = fst ?R ! (i - d)"
    proof (cases "i = d")
      case True
      have "load32 m' (fa + d * as) = load32 (memory w1) (fa + d * as)"
      proof (rule load32_cong)
        fix x assume x: "in_slot (fa + d * as) x"
        have "\<forall>j. Suc d \<le> j \<and> j < count \<longrightarrow> \<not> in_slot (fa + j * as) x"
        proof (intro allI impI)
          fix j assume j: "Suc d \<le> j \<and> j < count"
          with i True have "slots_disjoint (fa + d * as) (fa + j * as)" by auto
          with x show "\<not> in_slot (fa + j * as) x"
            by (auto simp: slots_disjoint_def in_slot_def)
        qed
        with frame show "m' x = memory w1 x" by auto
      qed
      also have "\<dots> = fst ?r" by (simp add: w1_def load32_store32_same)
      finally show ?thesis using True by (simp add: R)
    next
      case False
      with i have i1: "Suc d \<le> i" by auto
      with i out have "load32 m' (fa + i * as) = fst ?R1 ! (i - Suc d)" by auto
      moreover have "fst ?R ! (i - d) = fst ?R1 ! (i - Suc d)"
        using i1 by (simp add: R Suc_diff_le)
      ultimately show ?thesis by simp
    qed
  qed
  have evs: "MutexLock \<notin> set (evs1 @ evs)" "MutexUnlock \<notin> set (evs1 @ evs)"
    using ev1 ev by auto
  show ?case
    apply (rule exI [of _ m'], rule exI [of _ "evs1 @ evs"])
    apply (intro conjI)
        apply (simp only: step r res)
       apply (rule evs(1))
      apply (rule evs(2))
     apply (rule frame')
    apply (rule out')
    done
qed

lemma lock_step_no_mutex:
  "MutexLock \<notin> set evs \<Longrightarrow> MutexUnlock \<notin> set evs \<Longrightarrow> foldl lock_step h evs = h"
  by (induction evs arbitrary: h) (auto simp: lock_step_def)

lemma length_resolve_advances: "length (fst (resolve_advances X f c gs)) = length gs"
  by (induction gs arbitrary: c) (simp_all add: split_beta)

lemma glyph_h_advance_resolve:
  assumes "heap_get (shapableFaces w) object = Some inst"
    and "heap_get (renderableFaces w) (m_renderableFace inst) = Some rf"
    and "heap_get (ftFaces w) (m_ftFace rf) = Some f"
    and "\<not> lock_held (trace w)"
  shows "\<exists>evs. MutexLock \<notin> set evs \<and> MutexUnlock \<notin> set evs \<and>
     glyph_h_advance X w object glyph =
       Some (fst (resolve_advance X f (m_advanceCache inst) glyph),
             w\<lparr>shapableFaces := heap_set (shapableFaces w) object
                   (inst\<lparr>m_advanceCache := snd (resolve_advance X f (m_advanceCache inst) glyph)\<rparr>),
                trace := trace w @ [MutexLock] @ evs @ [MutexUnlock]\<rparr>)"
proof (cases "cache_get X (m_advanceCache inst) (ucast glyph)")
  case (Some a)
  have "inst\<lparr>m_advanceCache := m_advanceCache inst\<rparr> = inst" by simp
  with Some assms(1) show ?thesis
    using glyph_h_advance_char [OF assms, of X glyph]
    by (intro exI [of _ "[Ev_cache_get object (ucast glyph)]"])
      (simp add: resolve_advance_def heap_set_same)
next
  case None
  let ?a = "word_of_int (case ft_advance X f (ucast (ucast glyph :: 16 word)) of
                                None \<Rightarrow> 0 | Some v \<Rightarrow> v) :: 32 word"
  from None show ?thesis
    using glyph_h_advance_char [OF assms, of X glyph]
    by (intro exI [of _ "[Ev_cache_get object (ucast glyph),
          Ev_FT_Get_Advance (m_ftFace rf) (ucast (ucast glyph :: 16 word)),
          Ev_cache_put object (ucast glyph) ?a]"])
      (simp add: resolve_advance_def Let_def)
qed

lemma glyph_h_advances_char:
  fixes X :: "'c extern" and w :: "'c world"
  assumes inst: "heap_get (shapableFaces w) object = Some inst"
    and rf: "heap_get (renderableFaces w) (m_renderableFace inst) = Some rf"
    and ft: "heap_get (ftFaces w) (m_ftFace rf) = Some f"
    and ul: "\<not> lock_held (trace w)"
    and sep_io: "\<forall>i j. i < j \<and> j < count \<longrightarrow>
        slots_disjoint (firstAdvance + i * advanceStride) (firstGlyph + j * glyphStride)"
    and sep_out: "\<forall>i j. i < j \<and> j < count \<longrightarrow>
        slots_disjoint (firstAdvance + i * advanceStride) (firstAdvance + j * advanceStride)"
  shows "\<exists>m' evs.
     glyph_h_advances X w object count firstGlyph glyphStride firstAdvance advanceStride =
       Some (w\<lparr>shapableFaces := heap_set (shapableFaces w) object
                   (inst\<lparr>m_advanceCache :=
                      snd (resolve_advances X f (m_advanceCache inst)
                             (map (\<lambda>i. load32 (memory w) (firstGlyph + i * glyphStride))
                                [0..<count]))\<rparr>),
                memory := m', trace := trace w @ [MutexLock] @ evs @ [MutexUnlock]\<rparr>) \<and>
     MutexLock \<notin> set evs \<and> MutexUnlock \<notin> set evs \<and>
     (\<forall>i<count. load32 m' (firstAdvance + i * advanceStride) =
        fst (resolve_advances X f (m_advanceCache inst)
               (map (\<lambda>i. load32 (memory w) (firstGlyph + i * glyphStride)) [0..<count])) ! i) \<and>
     (\<forall>x. (\<forall>i<count. \<not> in_slot (firstAdvance + i * advanceStride) x) \<longrightarrow> m' x = memory w x) \<and>
     (\<forall>glyph. \<exists>evs1. MutexLock \<notin> set evs1 \<and> MutexUnlock \<notin> set evs1 \<and>
        glyph_h_advance X w object glyph =
          Some (fst (resolve_advance X f (m_advanceCache inst) glyph),
                w\<lparr>shapableFaces := heap_set (shapableFaces w) object
                      (inst\<lparr>m_advanceCache :=
                         snd (resolve_advance X f (m_advanceCache inst) glyph)\<rparr>),
                   trace := trace w @ [MutexLock] @ evs1 @ [MutexUnlock]\<rparr>))"
proof -
  define w1 where "w1 = log_event w MutexLock"
  let ?gl = "map (\<lambda>i. load32 (memory w) (firstGlyph + i * glyphStride)) [0..<count]"
  let ?R = "resolve_advances X f (m_advanceCache inst) ?gl"
  have inst1: "heap_get (shapableFaces w1) object = Some inst"
    and ft1: "heap_get (ftFaces w1) (m_ftFace rf) = Some f"
    using inst ft by (simp_all add: w1_def log_event_fields)
  have sep1: "\<forall>i j. 0 \<le> i \<and> i < j \<and> j < count \<longrightarrow>
      slots_disjoint (firstAdvance + i * advanceStride) (firstGlyph + j * glyphStride)"
    using sep_io by simp
  from glyph_h_advances_loop_spec [where X = X, OF inst1 ft1 sep1]
  obtain m' evs where
    r: "glyph_h_advances_loop X object (m_ftFace rf) count glyphStride advanceStride 0
          firstGlyph firstAdvance w1 =
        Some (w1\<lparr>shapableFaces := heap_set (shapableFaces w1) object
                   (inst\<lparr>m_advanceCache := snd ?R\<rparr>),
                memory := m', trace := trace w1 @ evs\<rparr>)"
    and ev: "MutexLock \<notin> set evs" "MutexUnlock \<notin> set evs"
    and frame: "\<forall>x. (\<forall>i. i < count \<longrightarrow> \<not> in_slot (firstAdvance + i * advanceStride) x)
                   \<longrightarrow> m' x = memory w x"
    and out: "\<forall>i. i < count \<and> (\<forall>j. i < j \<and> j < count \<longrightarrow>
          slots_disjoint (firstAdvance + i * advanceStride) (firstAdvance + j * advanceStride))
          \<longrightarrow> load32 m' (firstAdvance + i * advanceStride) = fst ?R ! i"
    by (auto simp: w1_def log_event_fields)
  have call: "glyph_h_advances X w object count firstGlyph glyphStride firstAdvance advanceStride =
       Some (w\<lparr>shapableFaces := heap_set (shapableFaces w) object
                   (inst\<lparr>m_advanceCache := snd ?R\<rparr>),
                memory := m', trace := trace w @ [MutexLock] @ evs @ [MutexUnlock]\<rparr>)"
    using inst rf ul r ev
    by (simp add: glyph_h_advances_def RenderableFace_lock_def RenderableFace_unlock_def
        mutex_lock_def mutex_unlock_def w1_def log_event_def lock_held_append
        lock_step_no_mutex lock_step_def heap_get_set del: upt_Suc)
  have out': "\<forall>i<count. load32 m' (firstAdvance + i * advanceStride) = fst ?R ! i"
    using out sep_out by auto
  have single: "\<forall>glyph. \<exists>evs1. MutexLock \<notin> set evs1 \<and> MutexUnlock \<notin> set evs1 \<and>
        glyph_h_advance X w object glyph =
          Some (fst (resolve_advance X f (m_advanceCache inst) glyph),
                w\<lparr>shapableFaces := heap_set (shapableFaces w) object
                      (inst\<lparr>m_advanceCache :=
                         snd (resolve_advance X f (m_advanceCache inst) glyph)\<rparr>),
                   trace := trace w @ [MutexLock] @ evs1 @ [MutexUnlock]\<rparr>)"
    using glyph_h_advance_resolve [OF inst rf ft ul] by blast
  show ?thesis
    apply (rule exI [of _ m'], rule exI [of _ evs])
    apply (intro conjI)
         apply (rule call)
        apply (rule ev(1))
       apply (rule ev(2))
      apply (rule out')
     apply (use frame in blast)
    apply (rule single)
    done
qed

text \<open>
  C2. For every strided input sequence of \<open>n\<close> glyph identifiers whose output slots overlap
  neither each other nor an input entry that is read later, the batch horizontal-advance
  callback writes all \<open>n\<close> output slots: slot \<open>i\<close> receives the advance that the
  cache-or-query step gives for entry \<open>i\<close> on the cache the earlier entries left (the cached
  value on a hit, otherwise the engine's unscaled advance, which is inserted into the
  cache), and the instance ends with the cache after the last entry. The whole batch runs
  under one acquisition of the engine lock: lock, then events that neither lock nor
  unlock, then unlock. The single callback computes the same step.
\<close>

theorem glyph_h_advances_all_written:
  fixes X :: "'c extern" and w :: "'c world"
  assumes inst: "heap_get (shapableFaces w) object = Some inst"
    and rf: "heap_get (renderableFaces w) (m_renderableFace inst) = Some rf"
    and ft: "heap_get (ftFaces w) (m_ftFace rf) = Some f"
    and ul: "\<not> lock_held (trace w)"
    and sep_io: "\<forall>i j. i < j \<and> j < count \<longrightarrow>
        slots_disjoint (firstAdvance + i * advanceStride) (firstGlyph + j * glyphStride)"
    and sep_out: "\<forall>i j. i < j \<and> j < count \<longrightarrow>
        slots_disjoint (firstAdvance + i * advanceStride) (firstAdvance + j * advanceStride)"
  shows "\<exists>m' evs.
     glyph_h_advances X w object count firstGlyph glyphStride firstAdvance advanceStride =
       Some (w\<lparr>shapableFaces := heap_set (shapableFaces w) object
                   (inst\<lparr>m_advanceCache :=
                      snd (resolve_advances X f (m_advanceCache inst)
                             (map (\<lambda>i. load32 (memory w) (firstGlyph + i * glyphStride))
                                [0..<count]))\<rparr>),
                memory := m', trace := trace w @ [MutexLock] @ evs @ [MutexUnlock]\<rparr>) \<and>
     MutexLock \<notin> set evs \<and> MutexUnlock \<notin> set evs \<and>
     (\<forall>i<count. load32 m' (firstAdvance + i * advanceStride) =
        fst (resolve_advances X f (m_advanceCache inst)
               (map (\<lambda>i. load32 (memory w) (firstGlyph + i * glyphStride)) [0..<count])) ! i) \<and>
     (\<forall>x. (\<forall>i<count. \<not> in_slot (firstAdvance + i * advanceStride) x) \<longrightarrow> m' x = memory w x) \<and>
     (\<forall>glyph. \<exists>evs1. MutexLock \<notin> set evs1 \<and> MutexUnlock \<notin> set evs1 \<and>
        glyph_h_advance X w object glyph =
          Some (fst (resolve_advance X f (m_advanceCache inst) glyph),
                w\<lparr>shapableFaces := heap_set (shapableFaces w) object
                      (inst\<lparr>m_advanceCache :=
                         snd (resolve_advance X f (m_advanceCache inst) glyph)\<rparr>),
                   trace := trace w @ [MutexLock] @ evs1 @ [MutexUnlock]\<rparr>))"
  using assms by (rule glyph_h_advances_char)

lemma buffer_adv_loads:
  "load32 buffer_adv 2000 = 1" "load32 buffer_adv 2020 = 2" "load32 buffer_adv 2040 = 3"
  "load32 buffer_adv 2060 = 4" "load32 buffer_adv 2080 = 5"
  by (simp_all add: buffer_adv_def load32_def store32_def)

theorem glyph_h_advances_all_written_witness:
  "\<exists>w' inst'.
     glyph_h_advances X0 (world0\<lparr>memory := buffer_adv\<rparr>) 0 5 2000 20 3000 20 = Some w' \<and>
     map (\<lambda>i. load32 (memory w') (3000 + i * 20)) [0, 1, 2, 3, 4] = [501, 502, 503, 504, 505] \<and>
     heap_get (shapableFaces w') 0 = Some inst' \<and>
     map (cache_get X0 (m_advanceCache inst')) [1, 2, 3, 4, 5] =
       [Some 501, Some 502, Some 503, Some 504, Some 505]"
proof -
  let ?w = "world0\<lparr>memory := buffer_adv\<rparr>"
  have inst: "heap_get (shapableFaces ?w) 0 = Some sface0"
    and rf: "heap_get (renderableFaces ?w) (m_renderableFace sface0) = Some rface0"
    and ft: "heap_get (ftFaces ?w) (m_ftFace rface0) = Some face0"
    and ul: "\<not> lock_held (trace ?w)"
    by (simp_all add: world0_def heap_get_def sface0_def rface0_def lock_held_def)
  have sep_io: "\<forall>i j. i < j \<and> j < (5::nat) \<longrightarrow> slots_disjoint (3000 + i * 20) (2000 + j * 20)"
    and sep_out: "\<forall>i j. i < j \<and> j < (5::nat) \<longrightarrow> slots_disjoint (3000 + i * 20) (3000 + j * 20)"
    by (auto simp: slots_disjoint_def)
  have gl: "map (\<lambda>i. load32 (memory ?w) (2000 + i * 20)) [0..<5] = [1, 2, 3, 4, 5]"
    by (simp add: upt_rec buffer_adv_loads)
  define R where "R = resolve_advances X0 face0 (m_advanceCache sface0) [1, 2, 3, 4, 5]"
  have R1: "fst R = [501, 502, 503, 504, 505]"
    by (simp add: R_def resolve_advance_def X0_def sface0_def cache0_def dm_get_def dm_put_def
        dm_new_def face0_def Let_def)
  have R2: "map (cache_get X0 (snd R)) [1, 2, 3, 4, 5] =
       [Some 501, Some 502, Some 503, Some 504, Some 505]"
    by (simp add: R_def resolve_advance_def X0_def sface0_def cache0_def dm_get_def dm_put_def
        dm_new_def face0_def Let_def)
  from glyph_h_advances_all_written [OF inst rf ft ul sep_io sep_out, of X0]
  obtain w' m' where
    call: "glyph_h_advances X0 ?w 0 5 2000 20 3000 20 = Some w'"
    and sf: "shapableFaces w' = heap_set (shapableFaces ?w) 0 (sface0\<lparr>m_advanceCache := snd R\<rparr>)"
    and m: "memory w' = m'"
    and out: "\<forall>i<5. load32 m' (3000 + i * 20) = fst R ! i"
    unfolding gl R_def [symmetric] by (auto simp del: upt_Suc)
  have i0: "heap_get (shapableFaces w') 0 = Some (sface0\<lparr>m_advanceCache := snd R\<rparr>)"
    by (simp add: sf world0_def heap_get_def heap_set_def)
  from out [rule_format, of 0] out [rule_format, of 1] out [rule_format, of 2]
    out [rule_format, of 3] out [rule_format, of 4] call m i0 R2
  show ?thesis by (simp add: R1)
qed

subsection \<open>Truncation of glyph identifiers\<close>

lemma ucast16_eq_iff:
  "(ucast (g1 :: 32 word) :: 16 word) = ucast (g2 :: 32 word) \<longleftrightarrow>
     unat g1 mod 2 ^ 16 = unat g2 mod 2 ^ 16"
proof -
  have "(ucast g1 :: 16 word) = ucast g2 \<longleftrightarrow>
        unat (ucast g1 :: 16 word) = unat (ucast g2 :: 16 word)"
    by (simp add: word_unat_eq_iff)
  then show ?thesis by (simp add: unsigned_ucast_eq take_bit_eq_mod)
qed

lemma ucast16_idem:
  "(ucast (ucast (ucast (g :: 32 word) :: 16 word) :: 32 word) :: 16 word) = ucast g"
  by (rule bit_word_eqI) (auto simp: bit_simps)

lemma resolve_advance_trunc:
  "resolve_advance X f c g = resolve_advance X f c (ucast (ucast g :: 16 word))"
  unfolding resolve_advance_def ucast16_idem by (rule refl)

lemma resolve_advance_cong:
  assumes "(ucast g1 :: 16 word) = ucast g2"
  shows "resolve_advance X f c g1 = resolve_advance X f c g2"
  using resolve_advance_trunc [of X f c g1] resolve_advance_trunc [of X f c g2] assms by simp

lemma glyph_h_advance_trunc:
  "glyph_h_advance X w object g = glyph_h_advance X w object (ucast (ucast g :: 16 word))"
  unfolding glyph_h_advance_def ucast16_idem by (rule refl)

lemma resolve_advances_cong:
  "map (\<lambda>g. ucast g :: 16 word) gs1 = map ucast gs2 \<Longrightarrow>
     resolve_advances X f c gs1 = resolve_advances X f c gs2"
proof (induction gs1 arbitrary: gs2 c)
  case Nil
  then show ?case by simp
next
  case (Cons g gs1)
  then obtain g' gs2' where gs2: "gs2 = g' # gs2'" by (cases gs2) auto
  with Cons.prems have "(ucast g :: 16 word) = ucast g'" "map (\<lambda>g. ucast g :: 16 word) gs1 = map ucast gs2'"
    by auto
  with Cons.IH [of gs2'] resolve_advance_cong [of g g' X f c] gs2 show ?case
    by simp
qed

lemma glyph_h_advances_step_events:
  fixes X :: "'c extern" and w :: "'c world"
  assumes inst: "heap_get (shapableFaces w) object = Some inst"
    and ft: "heap_get (ftFaces w) ftFace = Some f"
    and lt: "i < count"
  shows "glyph_h_advances_loop X object ftFace count gs as i gp ap w =
     glyph_h_advances_loop X object ftFace count gs as (Suc i) (gp + gs) (ap + as)
       (w\<lparr>shapableFaces := heap_set (shapableFaces w) object
             (inst\<lparr>m_advanceCache :=
                snd (resolve_advance X f (m_advanceCache inst) (load32 (memory w) gp))\<rparr>),
          memory := store32 (memory w) ap
             (fst (resolve_advance X f (m_advanceCache inst) (load32 (memory w) gp))),
          trace := trace w @
             resolve_events X object ftFace f (m_advanceCache inst) (load32 (memory w) gp)\<rparr>)"
proof (cases "cache_get X (m_advanceCache inst) (ucast (load32 (memory w) gp))")
  case (Some a)
  let ?ev = "Ev_cache_get object (ucast (load32 (memory w) gp))"
  define W where "W = (log_event w ?ev)\<lparr>memory := store32 (memory w) ap a\<rparr>"
  have step: "glyph_h_advances_loop X object ftFace count gs as i gp ap w =
     glyph_h_advances_loop X object ftFace count gs as (Suc i) (gp + gs) (ap + as) W"
    using Some inst ft lt
    by (simp add: glyph_h_advances_loop.simps [of X object ftFace count gs as i gp ap w]
        AdvanceCache_get_def W_def log_event_fields)
  have "inst\<lparr>m_advanceCache := m_advanceCache inst\<rparr> = inst" by simp
  then have eq: "W = w\<lparr>shapableFaces := heap_set (shapableFaces w) object
             (inst\<lparr>m_advanceCache :=
                snd (resolve_advance X f (m_advanceCache inst) (load32 (memory w) gp))\<rparr>),
          memory := store32 (memory w) ap
             (fst (resolve_advance X f (m_advanceCache inst) (load32 (memory w) gp))),
          trace := trace w @
             resolve_events X object ftFace f (m_advanceCache inst) (load32 (memory w) gp)\<rparr>"
    using Some inst
    by (simp add: W_def log_event_def resolve_advance_def resolve_events_def heap_set_same)
  show ?thesis by (simp only: step eq)
next
  case None
  let ?gid = "ucast (load32 (memory w) gp) :: 16 word"
  let ?v = "case ft_advance X f (ucast ?gid) of None \<Rightarrow> 0 | Some v \<Rightarrow> v"
  let ?a = "word_of_int ?v :: 32 word"
  define W where "W = log_event
     ((log_event (log_event w (Ev_cache_get object ?gid)) (Ev_FT_Get_Advance ftFace (ucast ?gid)))
        \<lparr>memory := store32 (memory w) ap ?a,
         shapableFaces := heap_set (shapableFaces w) object
            (inst\<lparr>m_advanceCache := cache_put X (m_advanceCache inst) ?gid ?a\<rparr>)\<rparr>)
     (Ev_cache_put object ?gid ?a)"
  have step: "glyph_h_advances_loop X object ftFace count gs as i gp ap w =
     glyph_h_advances_loop X object ftFace count gs as (Suc i) (gp + gs) (ap + as) W"
    using None inst ft lt
    by (simp add: glyph_h_advances_loop.simps [of X object ftFace count gs as i gp ap w]
        AdvanceCache_get_def AdvanceCache_put_def FT_Get_Advance_def W_def log_event_def)
  have eq: "W = w\<lparr>shapableFaces := heap_set (shapableFaces w) object
             (inst\<lparr>m_advanceCache :=
                snd (resolve_advance X f (m_advanceCache inst) (load32 (memory w) gp))\<rparr>),
          memory := store32 (memory w) ap
             (fst (resolve_advance X f (m_advanceCache inst) (load32 (memory w) gp))),
          trace := trace w @
             resolve_events X object ftFace f (m_advanceCache inst) (load32 (memory w) gp)\<rparr>"
    using None
    by (simp add: W_def log_event_def resolve_advance_def resolve_events_def Let_def)
  show ?thesis by (simp only: step eq)
qed

lemma glyph_h_advances_loop_trace:
  fixes X :: "'c extern" and w :: "'c world"
  assumes inst: "heap_get (shapableFaces w) object = Some inst"
    and ft: "heap_get (ftFaces w) ftFace = Some f"
    and sep: "\<forall>i j. d \<le> i \<and> i < j \<and> j < count \<longrightarrow> slots_disjoint (fa + i * as) (fg + j * gs)"
    and run: "glyph_h_advances_loop X object ftFace count gs as d (fg + d * gs) (fa + d * as) w
                = Some w'"
  shows "trace w' = trace w @
           resolve_all_events X object ftFace f (m_advanceCache inst)
             (map (\<lambda>i. load32 (memory w) (fg + i * gs)) [d..<count])"
  using inst ft sep run
proof (induction "count - d" arbitrary: d w inst)
  case 0
  then have "\<not> d < count" by simp
  with "0.prems"(4) show ?case by (simp add: glyph_h_advances_loop.simps)
next
  case (Suc n)
  then have lt: "d < count" by simp
  let ?rd = "\<lambda>w i. load32 (memory w) (fg + i * gs)"
  let ?r = "resolve_advance X f (m_advanceCache inst) (?rd w d)"
  let ?e = "resolve_events X object ftFace f (m_advanceCache inst) (?rd w d)"
  define w1 where "w1 = w\<lparr>shapableFaces := heap_set (shapableFaces w) object
          (inst\<lparr>m_advanceCache := snd ?r\<rparr>),
          memory := store32 (memory w) (fa + d * as) (fst ?r),
          trace := trace w @ ?e\<rparr>"
  have p1: "fg + d * gs + gs = fg + Suc d * gs" and p2: "fa + d * as + as = fa + Suc d * as"
    by simp_all
  note step = glyph_h_advances_step_events [OF Suc.prems(1) Suc.prems(2) lt,
      of X gs as "fg + d * gs" "fa + d * as", folded w1_def, unfolded p1 p2]
  have run1: "glyph_h_advances_loop X object ftFace count gs as (Suc d) (fg + Suc d * gs)
                (fa + Suc d * as) w1 = Some w'"
    using Suc.prems(4) step by simp
  have inst1: "heap_get (shapableFaces w1) object = Some (inst\<lparr>m_advanceCache := snd ?r\<rparr>)"
    using heap_get_Some_less [OF Suc.prems(1)] by (simp add: w1_def heap_get_set)
  have ft1: "heap_get (ftFaces w1) ftFace = Some f"
    using Suc.prems(2) by (simp add: w1_def)
  have sep1: "\<forall>i j. Suc d \<le> i \<and> i < j \<and> j < count
                \<longrightarrow> slots_disjoint (fa + i * as) (fg + j * gs)"
    using Suc.prems(3) by auto
  have n: "n = count - Suc d" using Suc.hyps(2) by simp
  have rd: "?rd w1 i = ?rd w i" if "d < i" "i < count" for i
    using Suc.prems(3) that by (simp add: w1_def load32_store32_disjoint)
  have gl: "map (?rd w1) [Suc d..<count] = map (?rd w) [Suc d..<count]"
    by (intro map_cong refl) (simp add: rd)
  from Suc.hyps(1) [OF n inst1 ft1 sep1 run1]
  have "trace w' = trace w1 @
          resolve_all_events X object ftFace f (snd ?r) (map (?rd w) [Suc d..<count])"
    unfolding gl by simp
  then show ?case
    using lt by (simp add: w1_def upt_conv_Cons)
qed

lemma glyph_h_advances_trace:
  fixes X :: "'c extern" and w :: "'c world"
  assumes inst: "heap_get (shapableFaces w) object = Some inst"
    and rf: "heap_get (renderableFaces w) (m_renderableFace inst) = Some rf"
    and ft: "heap_get (ftFaces w) (m_ftFace rf) = Some f"
    and ul: "\<not> lock_held (trace w)"
    and sep_io: "\<forall>i j. i < j \<and> j < count \<longrightarrow>
        slots_disjoint (firstAdvance + i * advanceStride) (firstGlyph + j * glyphStride)"
    and call: "glyph_h_advances X w object count firstGlyph glyphStride firstAdvance advanceStride
                 = Some w'"
  shows "trace w' = trace w @ [MutexLock] @
           resolve_all_events X object (m_ftFace rf) f (m_advanceCache inst)
             (map (\<lambda>i. load32 (memory w) (firstGlyph + i * glyphStride)) [0..<count]) @
           [MutexUnlock]"
proof -
  define w1 where "w1 = log_event w MutexLock"
  from call inst rf ul obtain w2 where
    loop: "glyph_h_advances_loop X object (m_ftFace rf) count glyphStride advanceStride 0
             firstGlyph firstAdvance w1 = Some w2"
    and un: "RenderableFace_unlock w2 (m_renderableFace inst) = Some w'"
    by (auto simp: glyph_h_advances_def RenderableFace_lock_def mutex_lock_def w1_def
        log_event_fields split: bind_splits)
  have inst1: "heap_get (shapableFaces w1) object = Some inst"
    and ft1: "heap_get (ftFaces w1) (m_ftFace rf) = Some f"
    using inst ft by (simp_all add: w1_def log_event_fields)
  have sep1: "\<forall>i j. 0 \<le> i \<and> i < j \<and> j < count \<longrightarrow>
      slots_disjoint (firstAdvance + i * advanceStride) (firstGlyph + j * glyphStride)"
    using sep_io by simp
  have loop0: "glyph_h_advances_loop X object (m_ftFace rf) count glyphStride advanceStride 0
             (firstGlyph + 0 * glyphStride) (firstAdvance + 0 * advanceStride) w1 = Some w2"
    using loop by simp
  from glyph_h_advances_loop_trace [OF inst1 ft1 sep1 loop0]
  have t2: "trace w2 = trace w @ [MutexLock] @
      resolve_all_events X object (m_ftFace rf) f (m_advanceCache inst)
        (map (\<lambda>i. load32 (memory w) (firstGlyph + i * glyphStride)) [0..<count])"
    by (simp add: w1_def log_event_fields)
  from un have "trace w' = trace w2 @ [MutexUnlock]"
    by (auto simp: RenderableFace_unlock_def mutex_unlock_def log_event_def
        split: bind_splits if_splits)
  with t2 show ?thesis by simp
qed

lemma resolve_events_trunc:
  "resolve_events X object ftFace f c g =
     resolve_events X object ftFace f c (ucast (ucast g :: 16 word))"
  unfolding resolve_events_def ucast16_idem by (rule refl)

lemma resolve_advances_trunc:
  "resolve_advances X f c gs =
     resolve_advances X f c (map (\<lambda>g. ucast (ucast g :: 16 word)) gs)"
  by (rule resolve_advances_cong) (simp add: ucast16_idem)

lemma resolve_all_events_trunc:
  "resolve_all_events X object ftFace f c gs =
     resolve_all_events X object ftFace f c (map (\<lambda>g. ucast (ucast g :: 16 word)) gs)"
proof (induction gs arbitrary: c)
  case Nil
  then show ?case by simp
next
  case (Cons g gs)
  show ?case
    using Cons.IH [of "snd (resolve_advance X f c g)"]
      resolve_events_trunc [of X object ftFace f c g] resolve_advance_trunc [of X f c g]
    by simp
qed

text \<open>
  C9. Both horizontal-advance callbacks use only the low 16 bits of a glyph identifier.
  The single callback looks the identifier up in the cache truncated to 16 bits; on a hit
  it returns the cached advance, and on a miss it queries the engine for the truncated
  identifier and inserts the advance under the truncated identifier. So for two
  identifiers congruent modulo \<open>2^16\<close> it does the same thing (the same result, cache
  lookup, engine query and cache insertion), as it does for an identifier and its
  truncation. After a call for the one, the cache holds the returned advance under the
  truncation of either (given a cache that returns what was put), and a call for the
  other is a cache hit that returns that advance without an engine query. The batch
  callback, run on two buffers whose entries are pairwise congruent, returns on both,
  writes the same advances, leaves the same cache and performs the same events: the
  advances, the cache and the events are those of the cache-or-query step run over the
  truncated identifiers.
\<close>

theorem glyph_h_advance_low_16_bits:
  fixes X :: "'c extern" and w :: "'c world"
  assumes inst: "heap_get (shapableFaces w) object = Some inst"
    and rf: "heap_get (renderableFaces w) (m_renderableFace inst) = Some rf"
    and ft: "heap_get (ftFaces w) (m_ftFace rf) = Some f"
    and ul: "\<not> lock_held (trace w)"
    and cong: "unat g1 mod 2 ^ 16 = unat g2 mod 2 ^ 16"
    and law: "\<forall>c k v. cache_get X (cache_put X c k v) k = Some v"
    and sep_io: "\<forall>i j. i < j \<and> j < count \<longrightarrow>
        slots_disjoint (firstAdvance + i * advanceStride) (firstGlyph + j * glyphStride)"
    and sep_out: "\<forall>i j. i < j \<and> j < count \<longrightarrow>
        slots_disjoint (firstAdvance + i * advanceStride) (firstAdvance + j * advanceStride)"
    and cong_mem: "\<forall>i<count. unat (load32 (memory w) (firstGlyph + i * glyphStride)) mod 2 ^ 16 =
                             unat (load32 m2 (firstGlyph + i * glyphStride)) mod 2 ^ 16"
  shows "glyph_h_advance X w object g1 =
       (case cache_get X (m_advanceCache inst) (ucast g1) of
          Some a \<Rightarrow>
            Some (a, w\<lparr>trace := trace w @
                         [MutexLock, Ev_cache_get object (ucast g1), MutexUnlock]\<rparr>)
        | None \<Rightarrow>
            let a = word_of_int (case ft_advance X f (ucast (ucast g1 :: 16 word)) of
                                   None \<Rightarrow> 0 | Some v \<Rightarrow> v)
            in Some (a, w\<lparr>shapableFaces := heap_set (shapableFaces w) object
                             (inst\<lparr>m_advanceCache :=
                                     cache_put X (m_advanceCache inst) (ucast g1) a\<rparr>),
                          trace := trace w @
                            [MutexLock, Ev_cache_get object (ucast g1),
                             Ev_FT_Get_Advance (m_ftFace rf) (ucast (ucast g1 :: 16 word)),
                             Ev_cache_put object (ucast g1) a, MutexUnlock]\<rparr>)) \<and>
     glyph_h_advance X w object g1 = glyph_h_advance X w object g2 \<and>
     glyph_h_advance X w object g1 = glyph_h_advance X w object (ucast (ucast g1 :: 16 word)) \<and>
     (\<exists>a w1 inst1. glyph_h_advance X w object g1 = Some (a, w1) \<and>
        heap_get (shapableFaces w1) object = Some inst1 \<and>
        cache_get X (m_advanceCache inst1) (ucast g1) = Some a \<and>
        cache_get X (m_advanceCache inst1) (ucast g2) = Some a \<and>
        glyph_h_advance X w1 object g2 =
          Some (a, w1\<lparr>trace := trace w1 @
                   [MutexLock, Ev_cache_get object (ucast g2), MutexUnlock]\<rparr>)) \<and>
     (\<exists>w1 w2.
        glyph_h_advances X w object count firstGlyph glyphStride firstAdvance advanceStride
          = Some w1 \<and>
        glyph_h_advances X (w\<lparr>memory := m2\<rparr>) object count firstGlyph glyphStride
          firstAdvance advanceStride = Some w2 \<and>
        shapableFaces w1 = shapableFaces w2 \<and>
        (\<forall>i<count. load32 (memory w1) (firstAdvance + i * advanceStride) =
                    load32 (memory w2) (firstAdvance + i * advanceStride)) \<and>
        shapableFaces w1 = heap_set (shapableFaces w) object
          (inst\<lparr>m_advanceCache :=
             snd (resolve_advances X f (m_advanceCache inst)
                   (map (\<lambda>i. ucast (ucast (load32 (memory w) (firstGlyph + i * glyphStride))
                                      :: 16 word)) [0..<count]))\<rparr>) \<and>
        (\<forall>i<count. load32 (memory w1) (firstAdvance + i * advanceStride) =
           fst (resolve_advances X f (m_advanceCache inst)
                 (map (\<lambda>i. ucast (ucast (load32 (memory w) (firstGlyph + i * glyphStride))
                                    :: 16 word)) [0..<count])) ! i) \<and>
        trace w1 = trace w @ [MutexLock] @
          resolve_all_events X object (m_ftFace rf) f (m_advanceCache inst)
            (map (\<lambda>i. ucast (ucast (load32 (memory w) (firstGlyph + i * glyphStride))
                               :: 16 word)) [0..<count]) @ [MutexUnlock] \<and>
        trace w2 = trace w1)"
proof (intro conjI)
  have u: "(ucast g1 :: 16 word) = ucast g2" using cong by (simp add: ucast16_eq_iff)
  show "glyph_h_advance X w object g1 =
       (case cache_get X (m_advanceCache inst) (ucast g1) of
          Some a \<Rightarrow>
            Some (a, w\<lparr>trace := trace w @
                         [MutexLock, Ev_cache_get object (ucast g1), MutexUnlock]\<rparr>)
        | None \<Rightarrow>
            let a = word_of_int (case ft_advance X f (ucast (ucast g1 :: 16 word)) of
                                   None \<Rightarrow> 0 | Some v \<Rightarrow> v)
            in Some (a, w\<lparr>shapableFaces := heap_set (shapableFaces w) object
                             (inst\<lparr>m_advanceCache :=
                                     cache_put X (m_advanceCache inst) (ucast g1) a\<rparr>),
                          trace := trace w @
                            [MutexLock, Ev_cache_get object (ucast g1),
                             Ev_FT_Get_Advance (m_ftFace rf) (ucast (ucast g1 :: 16 word)),
                             Ev_cache_put object (ucast g1) a, MutexUnlock]\<rparr>))"
    by (rule glyph_h_advance_char [OF inst rf ft ul])
  show "glyph_h_advance X w object g1 = glyph_h_advance X w object g2"
    using glyph_h_advance_trunc [of X w object g1] glyph_h_advance_trunc [of X w object g2] u
    by simp
  show "glyph_h_advance X w object g1 = glyph_h_advance X w object (ucast (ucast g1 :: 16 word))"
    by (rule glyph_h_advance_trunc)
  show "\<exists>a w1 inst1. glyph_h_advance X w object g1 = Some (a, w1) \<and>
        heap_get (shapableFaces w1) object = Some inst1 \<and>
        cache_get X (m_advanceCache inst1) (ucast g1) = Some a \<and>
        cache_get X (m_advanceCache inst1) (ucast g2) = Some a \<and>
        glyph_h_advance X w1 object g2 =
          Some (a, w1\<lparr>trace := trace w1 @
                   [MutexLock, Ev_cache_get object (ucast g2), MutexUnlock]\<rparr>)"
  proof -
    let ?r = "resolve_advance X f (m_advanceCache inst) g1"
    from glyph_h_advance_resolve [OF inst rf ft ul, of X g1] obtain evs where
      ev: "MutexLock \<notin> set evs" "MutexUnlock \<notin> set evs"
      and c1: "glyph_h_advance X w object g1 =
        Some (fst ?r, w\<lparr>shapableFaces := heap_set (shapableFaces w) object
                   (inst\<lparr>m_advanceCache := snd ?r\<rparr>),
                trace := trace w @ [MutexLock] @ evs @ [MutexUnlock]\<rparr>)"
      by blast
    define w1 where "w1 = w\<lparr>shapableFaces := heap_set (shapableFaces w) object
                   (inst\<lparr>m_advanceCache := snd ?r\<rparr>),
                trace := trace w @ [MutexLock] @ evs @ [MutexUnlock]\<rparr>"
    have i1: "heap_get (shapableFaces w1) object = Some (inst\<lparr>m_advanceCache := snd ?r\<rparr>)"
      using heap_get_Some_less [OF inst] by (simp add: w1_def heap_get_set)
    have r1: "heap_get (renderableFaces w1) (m_renderableFace (inst\<lparr>m_advanceCache := snd ?r\<rparr>))
                = Some rf"
      using rf by (simp add: w1_def)
    have f1: "heap_get (ftFaces w1) (m_ftFace rf) = Some f"
      using ft by (simp add: w1_def)
    have u1: "\<not> lock_held (trace w1)"
      by (simp add: w1_def lock_held_append lock_step_def)
    have hit: "cache_get X (snd ?r) (ucast g2) = Some (fst ?r)"
      using law by (auto simp: resolve_advance_def u Let_def split: option.splits)
    from glyph_h_advance_char [OF i1 r1 f1 u1, of X g2] hit
    have c2: "glyph_h_advance X w1 object g2 =
          Some (fst ?r, w1\<lparr>trace := trace w1 @
                   [MutexLock, Ev_cache_get object (ucast g2), MutexUnlock]\<rparr>)"
      by simp
    have "cache_get X (m_advanceCache (inst\<lparr>m_advanceCache := snd ?r\<rparr>)) (ucast g1) = Some (fst ?r)"
      "cache_get X (m_advanceCache (inst\<lparr>m_advanceCache := snd ?r\<rparr>)) (ucast g2) = Some (fst ?r)"
      using hit u by simp_all
    with c1 c2 i1 show ?thesis unfolding w1_def by blast
  qed
  show "\<exists>w1 w2.
        glyph_h_advances X w object count firstGlyph glyphStride firstAdvance advanceStride
          = Some w1 \<and>
        glyph_h_advances X (w\<lparr>memory := m2\<rparr>) object count firstGlyph glyphStride
          firstAdvance advanceStride = Some w2 \<and>
        shapableFaces w1 = shapableFaces w2 \<and>
        (\<forall>i<count. load32 (memory w1) (firstAdvance + i * advanceStride) =
                    load32 (memory w2) (firstAdvance + i * advanceStride)) \<and>
        shapableFaces w1 = heap_set (shapableFaces w) object
          (inst\<lparr>m_advanceCache :=
             snd (resolve_advances X f (m_advanceCache inst)
                   (map (\<lambda>i. ucast (ucast (load32 (memory w) (firstGlyph + i * glyphStride))
                                      :: 16 word)) [0..<count]))\<rparr>) \<and>
        (\<forall>i<count. load32 (memory w1) (firstAdvance + i * advanceStride) =
           fst (resolve_advances X f (m_advanceCache inst)
                 (map (\<lambda>i. ucast (ucast (load32 (memory w) (firstGlyph + i * glyphStride))
                                    :: 16 word)) [0..<count])) ! i) \<and>
        trace w1 = trace w @ [MutexLock] @
          resolve_all_events X object (m_ftFace rf) f (m_advanceCache inst)
            (map (\<lambda>i. ucast (ucast (load32 (memory w) (firstGlyph + i * glyphStride))
                               :: 16 word)) [0..<count]) @ [MutexUnlock] \<and>
        trace w2 = trace w1"
  proof -
    let ?w2 = "w\<lparr>memory := m2\<rparr>"
    let ?gl1 = "map (\<lambda>i. load32 (memory w) (firstGlyph + i * glyphStride)) [0..<count]"
    let ?gl2 = "map (\<lambda>i. load32 (memory ?w2) (firstGlyph + i * glyphStride)) [0..<count]"
    let ?T = "map (\<lambda>i. ucast (ucast (load32 (memory w) (firstGlyph + i * glyphStride))
                               :: 16 word) :: 32 word) [0..<count]"
    let ?c = "m_advanceCache inst"
    have T1: "map (\<lambda>g. ucast (ucast g :: 16 word) :: 32 word) ?gl1 = ?T"
      by (simp add: comp_def)
    have T2: "map (\<lambda>g. ucast (ucast g :: 16 word) :: 32 word) ?gl2 = ?T"
    proof -
      have "\<And>i. i < count \<Longrightarrow>
          (ucast (load32 m2 (firstGlyph + i * glyphStride)) :: 16 word) =
          ucast (load32 (memory w) (firstGlyph + i * glyphStride))"
        using cong_mem ucast16_eq_iff by metis
      then show ?thesis by (simp add: comp_def)
    qed
    have R1: "resolve_advances X f ?c ?gl1 = resolve_advances X f ?c ?T"
      using resolve_advances_trunc [of X f ?c ?gl1] unfolding T1 .
    have R2: "resolve_advances X f ?c ?gl2 = resolve_advances X f ?c ?T"
      using resolve_advances_trunc [of X f ?c ?gl2] unfolding T2 .
    have E1: "resolve_all_events X object (m_ftFace rf) f ?c ?gl1 =
              resolve_all_events X object (m_ftFace rf) f ?c ?T"
      using resolve_all_events_trunc [of X object "m_ftFace rf" f ?c ?gl1] unfolding T1 .
    have E2: "resolve_all_events X object (m_ftFace rf) f ?c ?gl2 =
              resolve_all_events X object (m_ftFace rf) f ?c ?T"
      using resolve_all_events_trunc [of X object "m_ftFace rf" f ?c ?gl2] unfolding T2 .
    have inst2: "heap_get (shapableFaces ?w2) object = Some inst"
      and rf2: "heap_get (renderableFaces ?w2) (m_renderableFace inst) = Some rf"
      and ft2: "heap_get (ftFaces ?w2) (m_ftFace rf) = Some f"
      and ul2: "\<not> lock_held (trace ?w2)"
      using inst rf ft ul by simp_all
    from glyph_h_advances_char [OF inst rf ft ul sep_io sep_out, of X]
    obtain w1 where c1: "glyph_h_advances X w object count firstGlyph glyphStride firstAdvance
          advanceStride = Some w1"
      and s1: "shapableFaces w1 = heap_set (shapableFaces w) object
                   (inst\<lparr>m_advanceCache := snd (resolve_advances X f ?c ?gl1)\<rparr>)"
      and o1: "\<forall>i<count. load32 (memory w1) (firstAdvance + i * advanceStride) =
                 fst (resolve_advances X f ?c ?gl1) ! i"
      by (auto simp del: upt_Suc)
    from glyph_h_advances_char [OF inst2 rf2 ft2 ul2 sep_io sep_out, of X]
    obtain w2 where c2: "glyph_h_advances X ?w2 object count firstGlyph glyphStride firstAdvance
          advanceStride = Some w2"
      and s2: "shapableFaces w2 = heap_set (shapableFaces w) object
                   (inst\<lparr>m_advanceCache := snd (resolve_advances X f ?c ?gl2)\<rparr>)"
      and o2: "\<forall>i<count. load32 (memory w2) (firstAdvance + i * advanceStride) =
                 fst (resolve_advances X f ?c ?gl2) ! i"
      by (auto simp del: upt_Suc)
    have t1: "trace w1 = trace w @ [MutexLock] @
        resolve_all_events X object (m_ftFace rf) f ?c ?T @ [MutexUnlock]"
      using glyph_h_advances_trace [OF inst rf ft ul sep_io c1] unfolding E1 .
    have t2: "trace w2 = trace w @ [MutexLock] @
        resolve_all_events X object (m_ftFace rf) f ?c ?T @ [MutexUnlock]"
      using glyph_h_advances_trace [OF inst2 rf2 ft2 ul2 sep_io c2] unfolding E2 by simp
    let ?R = "resolve_advances X f ?c ?T"
    have s1': "shapableFaces w1 = heap_set (shapableFaces w) object
                   (inst\<lparr>m_advanceCache := snd ?R\<rparr>)"
      using s1 unfolding R1 .
    have s2': "shapableFaces w2 = heap_set (shapableFaces w) object
                   (inst\<lparr>m_advanceCache := snd ?R\<rparr>)"
      using s2 unfolding R2 .
    have o1': "\<forall>i<count. load32 (memory w1) (firstAdvance + i * advanceStride) = fst ?R ! i"
      using o1 unfolding R1 .
    have o2': "\<forall>i<count. load32 (memory w2) (firstAdvance + i * advanceStride) = fst ?R ! i"
      using o2 unfolding R2 .
    have s12: "shapableFaces w1 = shapableFaces w2"
      using s1' s2' by (rule trans [OF _ sym])
    have o12: "\<forall>i<count. load32 (memory w1) (firstAdvance + i * advanceStride) =
                    load32 (memory w2) (firstAdvance + i * advanceStride)"
      using o1' o2' by metis
    have t12: "trace w2 = trace w1"
      using t2 t1 by (rule trans [OF _ sym])
    from c1 c2 s12 o12 s1' o1' t1 t12 show ?thesis by blast
  qed
qed

lemma buffer_adv_hi_loads:
  "load32 buffer_adv_hi 2000 = 0x10001" "load32 buffer_adv_hi 2020 = 0x20002"
  "load32 buffer_adv_hi 2040 = 0x30003" "load32 buffer_adv_hi 2060 = 0x40004"
  "load32 buffer_adv_hi 2080 = 0xFFFF0005"
  by (simp_all add: buffer_adv_hi_def load32_def store32_def)

theorem glyph_h_advance_low_16_bits_witness:
  "glyph_h_advance X0 (world0\<lparr>memory := buffer_adv\<rparr>) 0 3 =
     Some (503, world0\<lparr>memory := buffer_adv,
                  shapableFaces := [Some (sface0\<lparr>m_advanceCache := dm_put cache0 3 503\<rparr>)],
                  trace := [MutexLock, Ev_cache_get 0 3, Ev_FT_Get_Advance 0 3,
                            Ev_cache_put 0 3 503, MutexUnlock]\<rparr>) \<and>
   glyph_h_advance X0 (world0\<lparr>memory := buffer_adv\<rparr>) 0 0x10003 =
     glyph_h_advance X0 (world0\<lparr>memory := buffer_adv\<rparr>) 0 3 \<and>
   (\<exists>w1 inst1.
      glyph_h_advance X0 (world0\<lparr>memory := buffer_adv\<rparr>) 0 3 = Some (503, w1) \<and>
      heap_get (shapableFaces w1) 0 = Some inst1 \<and>
      cache_get X0 (m_advanceCache inst1) 3 = Some 503 \<and>
      glyph_h_advance X0 w1 0 0x10003 =
        Some (503, w1\<lparr>trace := trace w1 @ [MutexLock, Ev_cache_get 0 3, MutexUnlock]\<rparr>)) \<and>
   (\<exists>w1 w2.
      glyph_h_advances X0 (world0\<lparr>memory := buffer_adv\<rparr>) 0 5 2000 20 3000 20 = Some w1 \<and>
      glyph_h_advances X0 (world0\<lparr>memory := buffer_adv_hi\<rparr>) 0 5 2000 20 3000 20 = Some w2 \<and>
      shapableFaces w1 = shapableFaces w2 \<and>
      map (\<lambda>i. load32 (memory w1) (3000 + i * 20)) [0, 1, 2, 3, 4] = [501, 502, 503, 504, 505] \<and>
      map (\<lambda>i. load32 (memory w2) (3000 + i * 20)) [0, 1, 2, 3, 4] = [501, 502, 503, 504, 505] \<and>
      trace w1 = [MutexLock,
                  Ev_cache_get 0 1, Ev_FT_Get_Advance 0 1, Ev_cache_put 0 1 501,
                  Ev_cache_get 0 2,
                  Ev_cache_get 0 3, Ev_FT_Get_Advance 0 3, Ev_cache_put 0 3 503,
                  Ev_cache_get 0 4,
                  Ev_cache_get 0 5, Ev_FT_Get_Advance 0 5, Ev_cache_put 0 5 505,
                  MutexUnlock] \<and>
      trace w2 = trace w1)"
proof -
  let ?w = "world0\<lparr>memory := buffer_adv\<rparr>"
  have inst: "heap_get (shapableFaces ?w) 0 = Some sface0"
    and rf: "heap_get (renderableFaces ?w) (m_renderableFace sface0) = Some rface0"
    and ft: "heap_get (ftFaces ?w) (m_ftFace rface0) = Some face0"
    and ul: "\<not> lock_held (trace ?w)"
    by (simp_all add: world0_def heap_get_def sface0_def rface0_def lock_held_def)
  have sep_io: "\<forall>i j. i < j \<and> j < (5::nat) \<longrightarrow> slots_disjoint (3000 + i * 20) (2000 + j * 20)"
    and sep_out: "\<forall>i j. i < j \<and> j < (5::nat) \<longrightarrow> slots_disjoint (3000 + i * 20) (3000 + j * 20)"
    by (auto simp: slots_disjoint_def)
  have cong: "unat (3 :: 32 word) mod 2 ^ 16 = unat (0x10003 :: 32 word) mod 2 ^ 16"
    by simp
  have law: "\<forall>c k v. cache_get X0 (cache_put X0 c k v) k = Some v"
    by (simp add: X0_def dm_get_def dm_put_def)
  have cong_mem: "\<forall>i<5. unat (load32 (memory ?w) (2000 + i * 20)) mod 2 ^ 16 =
                        unat (load32 buffer_adv_hi (2000 + i * 20)) mod 2 ^ 16"
  proof (intro allI impI)
    fix i :: nat assume "i < 5"
    then consider "i = 0" | "i = 1" | "i = 2" | "i = 3" | "i = 4" by arith
    then show "unat (load32 (memory ?w) (2000 + i * 20)) mod 2 ^ 16 =
               unat (load32 buffer_adv_hi (2000 + i * 20)) mod 2 ^ 16"
      by cases (simp_all add: buffer_adv_loads buffer_adv_hi_loads)
  qed
  have u3: "(ucast (0x10003 :: 32 word) :: 16 word) = 3"
    using ucast16_eq_iff [of "0x10003" 3] by simp
  have T: "map (\<lambda>i. ucast (ucast (load32 (memory ?w) (2000 + i * 20)) :: 16 word) :: 32 word)
             [0..<5] = [1, 2, 3, 4, 5]"
    by (simp add: upt_rec buffer_adv_loads)
  have miss: "cache_get X0 (m_advanceCache sface0) 3 = None"
    by (simp add: X0_def sface0_def cache0_def dm_get_def dm_put_def dm_new_def)
  have adv: "ft_advance X0 face0 3 = Some 503"
    by (simp add: X0_def face0_def)
  define R where "R = resolve_advances X0 face0 (m_advanceCache sface0) [1, 2, 3, 4, 5]"
  have R1: "fst R = [501, 502, 503, 504, 505]"
    by (simp add: R_def resolve_advance_def X0_def sface0_def cache0_def dm_get_def dm_put_def
        dm_new_def face0_def Let_def)
  have E: "resolve_all_events X0 0 (m_ftFace rface0) face0 (m_advanceCache sface0)
             [1, 2, 3, 4, 5] =
           [Ev_cache_get 0 1, Ev_FT_Get_Advance 0 1, Ev_cache_put 0 1 501,
            Ev_cache_get 0 2,
            Ev_cache_get 0 3, Ev_FT_Get_Advance 0 3, Ev_cache_put 0 3 503,
            Ev_cache_get 0 4,
            Ev_cache_get 0 5, Ev_FT_Get_Advance 0 5, Ev_cache_put 0 5 505]"
    by (simp add: resolve_events_def resolve_advance_def X0_def sface0_def cache0_def
        dm_get_def dm_put_def dm_new_def face0_def rface0_def Let_def)
  note main = glyph_h_advance_low_16_bits [OF inst rf ft ul cong law sep_io sep_out cong_mem]
  note m1 = main [THEN conjunct1]
  note m2 = main [THEN conjunct2, THEN conjunct1]
  note m4 = main [THEN conjunct2, THEN conjunct2, THEN conjunct2, THEN conjunct1]
  note m5 = main [THEN conjunct2, THEN conjunct2, THEN conjunct2, THEN conjunct2]
  from m1 have single: "glyph_h_advance X0 ?w 0 3 =
     Some (503, world0\<lparr>memory := buffer_adv,
                  shapableFaces := [Some (sface0\<lparr>m_advanceCache := dm_put cache0 3 503\<rparr>)],
                  trace := [MutexLock, Ev_cache_get 0 3, Ev_FT_Get_Advance 0 3,
                            Ev_cache_put 0 3 503, MutexUnlock]\<rparr>)"
    using miss adv
    by (simp add: world0_def heap_set_def rface0_def X0_def sface0_def)
  have same: "glyph_h_advance X0 ?w 0 0x10003 = glyph_h_advance X0 ?w 0 3"
    using m2 by (rule sym)
  from m4 obtain a w1 inst1 where
    s1: "glyph_h_advance X0 ?w 0 3 = Some (a, w1)"
    and s2: "heap_get (shapableFaces w1) 0 = Some inst1"
    and s3: "cache_get X0 (m_advanceCache inst1) (ucast (3 :: 32 word)) = Some a"
    and s4: "glyph_h_advance X0 w1 0 0x10003 =
        Some (a, w1\<lparr>trace := trace w1 @
               [MutexLock, Ev_cache_get 0 (ucast (0x10003 :: 32 word)), MutexUnlock]\<rparr>)"
    by blast
  from s1 single have a: "a = 503" by simp
  have share: "\<exists>w1 inst1.
      glyph_h_advance X0 ?w 0 3 = Some (503, w1) \<and>
      heap_get (shapableFaces w1) 0 = Some inst1 \<and>
      cache_get X0 (m_advanceCache inst1) 3 = Some 503 \<and>
      glyph_h_advance X0 w1 0 0x10003 =
        Some (503, w1\<lparr>trace := trace w1 @ [MutexLock, Ev_cache_get 0 3, MutexUnlock]\<rparr>)"
    using s1 s2 s3 s4 unfolding a u3 by (intro exI [of _ w1] exI [of _ inst1]) simp
  from m5 obtain v1 v2 where
    b1: "glyph_h_advances X0 ?w 0 5 2000 20 3000 20 = Some v1"
    and b2: "glyph_h_advances X0 (?w\<lparr>memory := buffer_adv_hi\<rparr>) 0 5 2000 20 3000 20 = Some v2"
    and b3: "shapableFaces v1 = shapableFaces v2"
    and b4: "\<forall>i<5. load32 (memory v1) (3000 + i * 20) = load32 (memory v2) (3000 + i * 20)"
    and b5: "\<forall>i<5. load32 (memory v1) (3000 + i * 20) = fst R ! i"
    and b6: "trace v1 = trace ?w @ [MutexLock] @
               resolve_all_events X0 0 (m_ftFace rface0) face0 (m_advanceCache sface0)
                 [1, 2, 3, 4, 5] @ [MutexUnlock]"
    and b7: "trace v2 = trace v1"
    unfolding T R_def [symmetric] by blast
  have o1: "map (\<lambda>i. load32 (memory v1) (3000 + i * 20)) [0, 1, 2, 3, 4] =
              [501, 502, 503, 504, 505]"
    using b5 [rule_format, of 0] b5 [rule_format, of 1] b5 [rule_format, of 2]
      b5 [rule_format, of 3] b5 [rule_format, of 4]
    by (simp add: R1)
  have o2: "map (\<lambda>i. load32 (memory v2) (3000 + i * 20)) [0, 1, 2, 3, 4] =
              [501, 502, 503, 504, 505]"
    using o1 b4 [rule_format, of 0] b4 [rule_format, of 1] b4 [rule_format, of 2]
      b4 [rule_format, of 3] b4 [rule_format, of 4]
    by simp
  have t1: "trace v1 = [MutexLock,
                  Ev_cache_get 0 1, Ev_FT_Get_Advance 0 1, Ev_cache_put 0 1 501,
                  Ev_cache_get 0 2,
                  Ev_cache_get 0 3, Ev_FT_Get_Advance 0 3, Ev_cache_put 0 3 503,
                  Ev_cache_get 0 4,
                  Ev_cache_get 0 5, Ev_FT_Get_Advance 0 5, Ev_cache_put 0 5 505,
                  MutexUnlock]"
    using b6 unfolding E by (simp add: world0_def)
  have b2': "glyph_h_advances X0 (world0\<lparr>memory := buffer_adv_hi\<rparr>) 0 5 2000 20 3000 20 = Some v2"
    using b2 by simp
  have batch: "\<exists>w1 w2.
      glyph_h_advances X0 ?w 0 5 2000 20 3000 20 = Some w1 \<and>
      glyph_h_advances X0 (world0\<lparr>memory := buffer_adv_hi\<rparr>) 0 5 2000 20 3000 20 = Some w2 \<and>
      shapableFaces w1 = shapableFaces w2 \<and>
      map (\<lambda>i. load32 (memory w1) (3000 + i * 20)) [0, 1, 2, 3, 4] = [501, 502, 503, 504, 505] \<and>
      map (\<lambda>i. load32 (memory w2) (3000 + i * 20)) [0, 1, 2, 3, 4] = [501, 502, 503, 504, 505] \<and>
      trace w1 = [MutexLock,
                  Ev_cache_get 0 1, Ev_FT_Get_Advance 0 1, Ev_cache_put 0 1 501,
                  Ev_cache_get 0 2,
                  Ev_cache_get 0 3, Ev_FT_Get_Advance 0 3, Ev_cache_put 0 3 503,
                  Ev_cache_get 0 4,
                  Ev_cache_get 0 5, Ev_FT_Get_Advance 0 5, Ev_cache_put 0 5 505,
                  MutexUnlock] \<and>
      trace w2 = trace w1"
    by (rule exI [of _ v1], rule exI [of _ v2], intro conjI)
      (rule b1 b2' b3 o1 o2 t1 b7)+
  from single same share batch show ?thesis by (intro conjI)
qed

end
